(* ===== verification/Py_Prelude.thy ===== *)
theory Py_Prelude
  imports Main "HOL-Library.Sublist" "HOL-Library.Char_ord" "HOL-Library.List_Lexorder"
    "HOL-Library.Multiset"
begin

text \<open>
  The shared vocabulary of the development: the model of the Python values and of the
  \<^verbatim>\<open>str\<close> methods that \<^verbatim>\<open>src/app.py\<close> calls, with the generic list lemmas every
  component uses.

  \<^item> A Python \<^verbatim>\<open>str\<close> is a \<^typ>\<open>string\<close>; one \<^typ>\<open>char\<close> is one code point below 256,
    so \<^term>\<open>length\<close> is Python's \<^verbatim>\<open>len\<close> on such text.  Strings with code points
    from 256 on are outside the model.
  \<^item> \<^verbatim>\<open>str.strip\<close>, \<^verbatim>\<open>lstrip\<close>, \<^verbatim>\<open>rstrip\<close> are \<open>strip_by\<close>, \<open>lstrip_by\<close>, \<open>rstrip_by\<close>
    over a character class; \<open>py_isspace\<close> is the class of \<^verbatim>\<open>str.isspace\<close> and of
    the regular expression \<^verbatim>\<open>\s\<close>, \<open>py_isword\<close> the class of \<^verbatim>\<open>\w\<close>.
  \<^item> \<^verbatim>\<open>sep.join(xs)\<close> is \<open>py_join\<close>, \<^verbatim>\<open>s.split(c)\<close> is \<open>split_on\<close>,
    \<^verbatim>\<open>s.lower()\<close> is \<open>py_lower\<close>, \<^verbatim>\<open>s.startswith(p)\<close> is \<^term>\<open>prefix p s\<close> and
    \<^verbatim>\<open>s.endswith(p)\<close> is \<^term>\<open>suffix p s\<close>.
  \<^item> An exception that leaves a function is a value of \<open>py_error\<close> on the left of a
    sum type.
  \<^item> Sorting uses the lexicographic order on lists of characters ordered by code
    point, which is the order of Python's \<^verbatim>\<open>list.sort\<close> on \<^verbatim>\<open>str\<close>.
\<close>

section \<open>Collections of facts\<close>

named_theorems py_eval \<open>definitions unfolded to evaluate the Python primitives on closed terms\<close>
named_theorems len_simps \<open>lengths of the strings the operations build\<close>

section \<open>Values\<close>

type_synonym path = string

abbreviation NL :: char where
  "NL \<equiv> CHR 0x0A"

datatype py_error =
    KeyError string
  | RuntimeError
  | ModelError
  | OSError string

text \<open>The result of a call that may raise.\<close>

type_synonym 'a result = "py_error + 'a"

text \<open>
  Python's \<^verbatim>\<open>x or d\<close> on a string and on an optional string: \<^verbatim>\<open>""\<close> and \<^verbatim>\<open>None\<close>
  are falsy.
\<close>

definition str_or :: "string \<Rightarrow> string \<Rightarrow> string" where
  "str_or s d = (if s = [] then d else s)"

definition or_else :: "string option \<Rightarrow> string \<Rightarrow> string" where
  "or_else x d = (case x of None \<Rightarrow> d | Some s \<Rightarrow> str_or s d)"

lemma or_else_simps [simp]:
  "or_else None d = d"
  "or_else (Some []) d = d"
  "s \<noteq> [] \<Longrightarrow> or_else (Some s) d = s"
  by (simp_all add: or_else_def str_or_def)

lemma str_or_nonempty [simp]: "d \<noteq> [] \<Longrightarrow> str_or s d \<noteq> []"
  by (simp add: str_or_def)

section \<open>Character classes\<close>

text \<open>
  \<^verbatim>\<open>str.isspace\<close> below 256: the ASCII white space, the separators \<open>0x1C\<close> to \<open>0x1F\<close>,
  NEL (\<open>0x85\<close>) and the no-break space (\<open>0xA0\<close>).
\<close>

definition py_isspace :: "char \<Rightarrow> bool" where
  "py_isspace c =
     (let n = (of_char c :: nat)
      in (9 \<le> n \<and> n \<le> 13) \<or> (28 \<le> n \<and> n \<le> 32) \<or> n = 133 \<or> n = 160)"

text \<open>
  The class \<^verbatim>\<open>\w\<close> of a \<^verbatim>\<open>str\<close> pattern: \<^verbatim>\<open>str.isalnum\<close> or the underscore.  Below 256
  these are the ASCII letters and digits, the Latin-1 letters, the ordinal indicators,
  the micro sign, the superscript digits and the vulgar fractions.
\<close>

definition py_isword :: "char \<Rightarrow> bool" where
  "py_isword c =
     (let n = (of_char c :: nat)
      in (48 \<le> n \<and> n \<le> 57) \<or> (65 \<le> n \<and> n \<le> 90) \<or> n = 95 \<or> (97 \<le> n \<and> n \<le> 122)
         \<or> n = 170 \<or> n = 178 \<or> n = 179 \<or> n = 181 \<or> n = 185 \<or> n = 186
         \<or> (188 \<le> n \<and> n \<le> 190) \<or> (192 \<le> n \<and> n \<le> 214) \<or> (216 \<le> n \<and> n \<le> 246)
         \<or> (248 \<le> n \<and> n \<le> 255))"

text \<open>\<^verbatim>\<open>str.lower\<close> below 256: the ASCII capitals and the Latin-1 capitals move up by 32.\<close>

definition py_lower_char :: "char \<Rightarrow> char" where
  "py_lower_char c =
     (let n = (of_char c :: nat)
      in if (65 \<le> n \<and> n \<le> 90) \<or> (192 \<le> n \<and> n \<le> 222 \<and> n \<noteq> 215)
         then char_of (n + 32) else c)"

definition py_lower :: "string \<Rightarrow> string" where
  "py_lower = map py_lower_char"

declare py_isspace_def [py_eval] py_isword_def [py_eval] py_lower_char_def [py_eval]
  py_lower_def [py_eval]

lemma py_isspace_NL [simp]: "py_isspace NL"
  by (simp add: py_isspace_def)

lemma py_isspace_not_word: "py_isspace c \<Longrightarrow> \<not> py_isword c"
  by (auto simp: py_isspace_def py_isword_def Let_def)

lemma length_py_lower [simp, len_simps]: "length (py_lower s) = length s"
  by (simp add: py_lower_def)

lemma py_lower_append [simp]: "py_lower (a @ b) = py_lower a @ py_lower b"
  by (simp add: py_lower_def)

section \<open>Stripping\<close>
definition lstrip_by :: "('a \<Rightarrow> bool) \<Rightarrow> 'a list \<Rightarrow> 'a list" where
  "lstrip_by P = dropWhile P"

definition rstrip_by :: "('a \<Rightarrow> bool) \<Rightarrow> 'a list \<Rightarrow> 'a list" where
  "rstrip_by P xs = rev (dropWhile P (rev xs))"

definition strip_by :: "('a \<Rightarrow> bool) \<Rightarrow> 'a list \<Rightarrow> 'a list" where
  "strip_by P xs = rstrip_by P (lstrip_by P xs)"

definition stripped :: "('a \<Rightarrow> bool) \<Rightarrow> 'a list \<Rightarrow> bool" where
  "stripped P xs \<longleftrightarrow> xs = [] \<or> (\<not> P (hd xs) \<and> \<not> P (last xs))"

lemma rstrip_by_Nil [simp]: "rstrip_by P [] = []"
  by (simp add: rstrip_by_def)

lemma rstrip_by_snoc [simp]:
  "rstrip_by P (xs @ [x]) = (if P x then rstrip_by P xs else xs @ [x])"
  by (simp add: rstrip_by_def)

lemma lstrip_by_Nil [simp]: "lstrip_by P [] = []"
  by (simp add: lstrip_by_def)

lemma lstrip_by_Cons [simp]:
  "lstrip_by P (x # xs) = (if P x then lstrip_by P xs else x # xs)"
  by (simp add: lstrip_by_def)

lemma rstrip_by_Cons:
  "rstrip_by P (x # xs) = (if list_all P xs \<and> P x then [] else x # rstrip_by P xs)"
  by (simp add: rstrip_by_def dropWhile_append list_all_iff)

lemma rstrip_by_eq_Nil: "rstrip_by P xs = [] \<longleftrightarrow> list_all P xs"
  by (induction xs rule: rev_induct) auto

lemma lstrip_by_eq_Nil: "lstrip_by P xs = [] \<longleftrightarrow> list_all P xs"
  by (induction xs) auto

lemma strip_by_eq_Nil: "strip_by P xs = [] \<longleftrightarrow> list_all P xs"
  by (induction xs) (auto simp: strip_by_def rstrip_by_Cons rstrip_by_eq_Nil)

lemma lstrip_by_hd: "lstrip_by P xs \<noteq> [] \<Longrightarrow> \<not> P (hd (lstrip_by P xs))"
  by (induction xs) auto

lemma rstrip_by_last: "rstrip_by P xs \<noteq> [] \<Longrightarrow> \<not> P (last (rstrip_by P xs))"
  by (induction xs rule: rev_induct) auto

lemma rstrip_by_hd: "rstrip_by P xs \<noteq> [] \<Longrightarrow> hd (rstrip_by P xs) = hd xs"
  by (cases xs) (auto simp: rstrip_by_Cons split: if_splits)

lemma stripped_strip_by [simp]: "stripped P (strip_by P xs)"
proof (cases "strip_by P xs")
  case Nil
  then show ?thesis by (simp add: stripped_def)
next
  case (Cons y ys)
  then have ne: "rstrip_by P (lstrip_by P xs) \<noteq> []" by (simp add: strip_by_def)
  then have ne': "lstrip_by P xs \<noteq> []" by auto
  have "\<not> P (hd (strip_by P xs))"
    using rstrip_by_hd [OF ne] lstrip_by_hd [OF ne'] by (simp add: strip_by_def)
  moreover have "\<not> P (last (strip_by P xs))"
    using rstrip_by_last [OF ne] by (simp add: strip_by_def)
  ultimately show ?thesis using Cons by (simp add: stripped_def)
qed

lemma lstrip_by_id: "stripped P xs \<Longrightarrow> lstrip_by P xs = xs"
  by (cases xs) (auto simp: stripped_def)

lemma rstrip_by_id: "stripped P xs \<Longrightarrow> rstrip_by P xs = xs"
  by (cases xs rule: rev_cases) (auto simp: stripped_def)

lemma strip_by_id: "stripped P xs \<Longrightarrow> strip_by P xs = xs"
  by (simp add: strip_by_def lstrip_by_id rstrip_by_id)

lemma strip_by_idem [simp]: "strip_by P (strip_by P xs) = strip_by P xs"
  by (rule strip_by_id) simp

lemma strip_by_id_iff: "strip_by P xs = xs \<longleftrightarrow> stripped P xs"
proof
  assume "strip_by P xs = xs"
  then have "stripped P (strip_by P xs) = stripped P xs" by simp
  then show "stripped P xs" by simp
qed (rule strip_by_id)

lemma length_lstrip_by: "length (lstrip_by P xs) \<le> length xs"
  by (induction xs) auto

lemma length_rstrip_by: "length (rstrip_by P xs) \<le> length xs"
  by (induction xs rule: rev_induct) auto

lemma length_strip_by: "length (strip_by P xs) \<le> length xs"
  unfolding strip_by_def using length_rstrip_by [of P "lstrip_by P xs"] length_lstrip_by [of P xs]
  by linarith

lemma lstrip_by_decomp: "\<exists>a. xs = a @ lstrip_by P xs \<and> list_all P a"
  by (rule exI [of _ "takeWhile P xs"]) (auto simp: lstrip_by_def list_all_iff dest: set_takeWhileD)

lemma rstrip_by_decomp: "\<exists>b. xs = rstrip_by P xs @ b \<and> list_all P b"
proof (induction xs rule: rev_induct)
  case Nil
  then show ?case by simp
next
  case (snoc x xs)
  then obtain b where "xs = rstrip_by P xs @ b" "list_all P b" by blast
  then show ?case
    by (cases "P x") (auto intro: exI [of _ "b @ [x]"])
qed

lemma strip_by_decomp:
  "\<exists>a b. xs = a @ strip_by P xs @ b \<and> list_all P a \<and> list_all P b"
proof -
  obtain a where a: "xs = a @ lstrip_by P xs" "list_all P a"
    using lstrip_by_decomp by blast
  obtain b where b: "lstrip_by P xs = strip_by P xs @ b" "list_all P b"
    using rstrip_by_decomp [of "lstrip_by P xs" P] unfolding strip_by_def by blast
  from a(1) b(1) have "xs = a @ strip_by P xs @ b" by simp
  with a(2) b(2) show ?thesis by blast
qed

lemma stripped_last: "stripped P xs \<Longrightarrow> xs \<noteq> [] \<Longrightarrow> \<not> P (last xs)"
  by (simp add: stripped_def)

lemma strip_by_snoc: "strip_by P (xs @ [x]) = strip_by P xs" if "P x"
proof (cases "list_all P xs")
  case True
  then have dw: "dropWhile P xs = []" by (simp add: list_all_iff)
  from True that show ?thesis
    by (simp add: dw strip_by_def lstrip_by_def dropWhile_append list_all_iff)
next
  case False
  with that show ?thesis
    by (auto simp: strip_by_def lstrip_by_def dropWhile_append list_all_iff)
qed

lemma strip_by_snoc_id: "stripped P xs \<Longrightarrow> P x \<Longrightarrow> strip_by P (xs @ [x]) = xs"
  by (simp add: strip_by_snoc strip_by_id)

section \<open>Prefixes, suffixes and contiguous parts\<close>

lemma suffix_trans: "suffix a b \<Longrightarrow> suffix b c \<Longrightarrow> suffix a c"
  by (rule suffix_order.trans)

lemma prefix_trans: "prefix a b \<Longrightarrow> prefix b c \<Longrightarrow> prefix a c"
  by (rule prefix_order.trans)

lemma sublist_trans: "sublist a b \<Longrightarrow> sublist b c \<Longrightarrow> sublist a c"
proof -
  assume "sublist a b" "sublist b c"
  then obtain p s p' s' where "b = p @ a @ s" "c = p' @ b @ s'"
    by (auto simp: sublist_def)
  then have "c = (p' @ p) @ a @ (s @ s')" by simp
  then show ?thesis unfolding sublist_def by blast
qed

lemma suffix_last: "suffix a b \<Longrightarrow> a \<noteq> [] \<Longrightarrow> last a = last b"
  by (auto simp: suffix_def)

lemma stripped_suffix: "stripped P xs \<Longrightarrow> suffix ys xs \<Longrightarrow> ys \<noteq> [] \<Longrightarrow> \<not> P (last ys)"
  by (cases "xs = []") (auto simp: suffix_last dest: stripped_last)

lemma suffix_lstrip_by: "suffix (lstrip_by P s) s"
  by (simp add: lstrip_by_def suffix_dropWhile)

lemma sublist_strip_by: "sublist (strip_by P xs) xs"
  using strip_by_decomp [of xs P] by (auto simp: sublist_def)

section \<open>Joining and splitting\<close>

fun py_join :: "'a list \<Rightarrow> 'a list list \<Rightarrow> 'a list" where
  "py_join sep [] = []"
| "py_join sep [x] = x"
| "py_join sep (x # y # ys) = x @ sep @ py_join sep (y # ys)"

lemma py_join_snoc: "xs \<noteq> [] \<Longrightarrow> py_join sep (xs @ [x]) = py_join sep xs @ sep @ x"
  by (induction sep xs rule: py_join.induct) auto

lemma length_py_join:
  "length (py_join sep xs) = sum_list (map length xs) + length sep * (length xs - 1)"
  by (induction sep xs rule: py_join.induct) auto

fun split_on :: "'a \<Rightarrow> 'a list \<Rightarrow> 'a list list" where
  "split_on c [] = [[]]"
| "split_on c (x # xs) =
     (if x = c then [] # split_on c xs
      else (case split_on c xs of [] \<Rightarrow> [[x]] | w # ws \<Rightarrow> (x # w) # ws))"

lemma split_on_nonempty [simp]: "split_on c xs \<noteq> []"
  by (induction xs) (auto split: list.splits)

lemma py_join_split_on [simp]: "py_join [c] (split_on c xs) = xs"
proof (induction xs)
  case Nil
  then show ?case by simp
next
  case (Cons x xs)
  obtain w ws where w: "split_on c xs = w # ws"
    by (cases "split_on c xs") auto
  with Cons show ?case by (cases ws) auto
qed

lemma split_on_no_sep_id: "c \<notin> set xs \<Longrightarrow> split_on c xs = [xs]"
  by (induction xs) auto

lemma split_on_append: "split_on c (a @ c # b) = split_on c a @ split_on c b"
proof (induction a)
  case Nil
  then show ?case by simp
next
  case (Cons x a)
  obtain w ws where "split_on c a = w # ws"
    by (cases "split_on c a") auto
  with Cons show ?case by simp
qed

lemma length_py_join_NL:
  "xs \<noteq> [] \<Longrightarrow> Suc (length (py_join [NL] xs)) = sum_list (map length xs) + length xs"
  by (cases xs) (simp_all add: length_py_join)

lemma split_on_no_sep: "w \<in> set (split_on c xs) \<Longrightarrow> c \<notin> set w"
  by (induction xs arbitrary: w) (auto split: if_splits list.splits)

lemma length_split_on: "length (split_on c xs) = Suc (count_list xs c)"
  by (induction xs) (auto split: list.splits)

section \<open>Python's strip on white space\<close>

abbreviation py_strip :: "string \<Rightarrow> string" where
  "py_strip \<equiv> strip_by py_isspace"

abbreviation py_lstrip :: "string \<Rightarrow> string" where
  "py_lstrip \<equiv> lstrip_by py_isspace"

declare strip_by_def [py_eval] rstrip_by_def [py_eval] stripped_def [py_eval]
  suffix_to_prefix [py_eval] char_of_eq_iff [py_eval]

section \<open>The first alternative that succeeds\<close>

primrec first_some :: "('a \<Rightarrow> 'b option) \<Rightarrow> 'a list \<Rightarrow> 'b option" where
  "first_some f [] = None"
| "first_some f (x # xs) = (case f x of Some y \<Rightarrow> Some y | None \<Rightarrow> first_some f xs)"

lemma first_some_None_iff: "first_some f xs = None \<longleftrightarrow> (\<forall>x \<in> set xs. f x = None)"
  by (induction xs) (auto split: option.splits)

lemma first_some_SomeD: "first_some f xs = Some y \<Longrightarrow> \<exists>x \<in> set xs. f x = Some y"
  by (induction xs) (auto split: option.splits)

end
