(* ===== verification/CodeFences.thy ===== *)
theory CodeFences
  imports Py_Prelude
begin

text \<open>
  The text normalisation of \<^verbatim>\<open>clean_code_fences\<close> (\<^verbatim>\<open>src/app.py\<close>, lines 82 to 92),
  which \<^verbatim>\<open>write_file\<close> applies to a model reply before it reaches the disk.

  The function strips the text, applies three \<^verbatim>\<open>re.sub\<close> calls that delete a match
  and strips again.  No pattern uses \<^verbatim>\<open>re.MULTILINE\<close>, so \<^verbatim>\<open>^\<close> matches at the
  start of the string only and \<^verbatim>\<open>$\<close> at its end or before a final newline; every
  pattern is anchored, so each call deletes at most one match.  Each call is one
  definition here:

  \<^item> \<open>sub_open_fence\<close> is the deletion of \<^verbatim>\<open>^```[\w+-]*\n?\<close> (line 88),
  \<^item> \<open>sub_close_fence\<close> is the deletion of \<^verbatim>\<open>\n?```$\<close> (line 89),
  \<^item> \<open>sub_label\<close> is the deletion of
    \<^verbatim>\<open>^\s*(Fixed code|Corrected code|Suggested fix)\s*:\s*\<close> under \<^verbatim>\<open>re.IGNORECASE\<close>
    (line 91); below code point 256 a letter of a label matches its two ASCII cases
    and nothing else.

  The lemmas show that cleaning only deletes text, that a non-empty input yields
  text with exactly one trailing newline, what a fenced block is cleaned to, and
  when cleaning twice is cleaning once (in general it is not).
\<close>

section \<open>The three substitutions\<close>

definition fence :: string where
  "fence = ''```''"

definition is_lang_char :: "char \<Rightarrow> bool" where
  "is_lang_char c \<longleftrightarrow> py_isword c \<or> c = CHR ''+'' \<or> c = CHR ''-''"

definition drop_opt_nl :: "string \<Rightarrow> string" where
  "drop_opt_nl s = (case s of [] \<Rightarrow> [] | c # r \<Rightarrow> if c = NL then r else s)"

definition sub_open_fence :: "string \<Rightarrow> string" where
  "sub_open_fence s =
     (if prefix fence s then drop_opt_nl (dropWhile is_lang_char (drop (length fence) s)) else s)"

text \<open>
  \<open>chop_fence s\<close> is \<open>s\<close> without the fence it ends with and without the newline
  before that fence, if there is one: the leftmost match of \<^verbatim>\<open>\n?```\<close> that ends
  where \<open>s\<close> ends.
\<close>

definition chop_fence :: "string \<Rightarrow> string" where
  "chop_fence s =
     (let b = take (length s - length fence) s in if suffix [NL] b then butlast b else b)"

definition sub_close_fence :: "string \<Rightarrow> string" where
  "sub_close_fence s =
     (if suffix fence s then chop_fence s
      else if suffix (fence @ [NL]) s then chop_fence (butlast s) @ [NL]
      else s)"

definition labels :: "string list" where
  "labels = [''Fixed code'', ''Corrected code'', ''Suggested fix'']"

text \<open>\<open>match_ci lit s\<close>: the literal matched at the start of \<open>s\<close>, ignoring case.\<close>

definition match_ci :: "string \<Rightarrow> string \<Rightarrow> string option" where
  "match_ci lit s =
     (if length lit \<le> length s \<and> py_lower (take (length lit) s) = py_lower lit
      then Some (drop (length lit) s) else None)"

text \<open>\<open>match_label_tail\<close>: the rest of the pattern after the label, \<^verbatim>\<open>\s*:\s*\<close>.\<close>

definition match_label_tail :: "string \<Rightarrow> string option" where
  "match_label_tail s =
     (case py_lstrip s of [] \<Rightarrow> None
      | c # r \<Rightarrow> if c = CHR '':'' then Some (py_lstrip r) else None)"

definition match_label :: "string \<Rightarrow> string option" where
  "match_label s =
     first_some (\<lambda>l. Option.bind (match_ci l (py_lstrip s)) match_label_tail) labels"

definition sub_label :: "string \<Rightarrow> string" where
  "sub_label s = (case match_label s of Some r \<Rightarrow> r | None \<Rightarrow> s)"

section \<open>The function\<close>

text \<open>\<open>clean_body\<close> is the value of \<^verbatim>\<open>s.strip()\<close> in the last line of the function.\<close>

definition clean_body :: "string \<Rightarrow> string" where
  "clean_body text = py_strip (sub_label (sub_close_fence (sub_open_fence (py_strip text))))"

definition clean_code_fences :: "string \<Rightarrow> string" where
  "clean_code_fences text = (if text = [] then [] else clean_body text @ [NL])"

lemmas clean_defs = clean_code_fences_def clean_body_def sub_label_def match_label_def
  match_label_tail_def match_ci_def labels_def sub_close_fence_def chop_fence_def
  sub_open_fence_def drop_opt_nl_def is_lang_char_def fence_def

section \<open>Each substitution only deletes\<close>

lemma suffix_drop_opt_nl: "suffix (drop_opt_nl s) s"
  by (cases s) (auto simp: drop_opt_nl_def suffix_ConsI)

lemma suffix_sub_open_fence: "suffix (sub_open_fence s) s"
proof -
  have "suffix (drop_opt_nl (dropWhile is_lang_char (drop (length fence) s))) s"
    by (blast intro: suffix_trans suffix_drop_opt_nl suffix_dropWhile suffix_drop)
  then show ?thesis by (simp add: sub_open_fence_def)
qed

lemma prefix_chop_fence: "prefix (chop_fence s) s"
proof -
  have "prefix (butlast (take n s)) s" for n
    by (blast intro: prefix_trans prefixeq_butlast take_is_prefix)
  then show ?thesis by (simp add: chop_fence_def Let_def take_is_prefix)
qed

text \<open>
  On a string that does not end in a newline the second alternative of \<^verbatim>\<open>$\<close> cannot
  apply, and the substitution cuts a suffix.
\<close>

lemma sub_close_fence_no_nl:
  "s = [] \<or> last s \<noteq> NL \<Longrightarrow> sub_close_fence s = (if suffix fence s then chop_fence s else s)"
  by (auto simp: sub_close_fence_def suffix_def)

lemma prefix_sub_close_fence: "s = [] \<or> last s \<noteq> NL \<Longrightarrow> prefix (sub_close_fence s) s"
  by (simp add: sub_close_fence_no_nl prefix_chop_fence)

lemma suffix_match_ci: "match_ci lit s = Some r \<Longrightarrow> suffix r s"
  by (auto simp: match_ci_def suffix_drop split: if_splits)

lemma suffix_match_label_tail: "match_label_tail s = Some r \<Longrightarrow> suffix r s"
proof -
  assume a: "match_label_tail s = Some r"
  then obtain t where t: "py_lstrip s = CHR '':'' # t" and r: "r = py_lstrip t"
    by (auto simp: match_label_tail_def split: list.splits if_splits)
  have "suffix r t" by (simp add: r suffix_lstrip_by)
  then have "suffix r (py_lstrip s)" by (simp add: t suffix_ConsI)
  then show ?thesis by (blast intro: suffix_trans suffix_lstrip_by)
qed

lemma suffix_match_label: "match_label s = Some r \<Longrightarrow> suffix r s"
proof -
  assume "match_label s = Some r"
  then obtain l where "Option.bind (match_ci l (py_lstrip s)) match_label_tail = Some r"
    unfolding match_label_def by (blast dest: first_some_SomeD)
  then obtain m where "match_ci l (py_lstrip s) = Some m" "match_label_tail m = Some r"
    by (auto simp: bind_eq_Some_conv)
  then have "suffix r (py_lstrip s)"
    by (blast intro: suffix_trans suffix_match_ci suffix_match_label_tail)
  then show ?thesis by (blast intro: suffix_trans suffix_lstrip_by)
qed

lemma suffix_sub_label: "suffix (sub_label s) s"
  by (auto simp: sub_label_def suffix_match_label split: option.splits)

section \<open>The body of the result\<close>

lemma stripped_clean_body [simp]: "stripped py_isspace (clean_body text)"
  by (simp add: clean_body_def)

lemma sub_open_fence_strip_no_nl:
  "sub_open_fence (py_strip t) = [] \<or> last (sub_open_fence (py_strip t)) \<noteq> NL"
  using stripped_suffix [OF stripped_strip_by suffix_sub_open_fence, of py_isspace t]
  by (cases "sub_open_fence (py_strip t) = []") auto

lemma sublist_clean_body: "sublist (clean_body text) text"
proof -
  let ?s = "py_strip text"
  let ?o = "sub_open_fence ?s"
  let ?c = "sub_close_fence ?o"
  let ?l = "sub_label ?c"
  have "sublist ?s text" and "sublist (py_strip ?l) ?l"
    by (rule sublist_strip_by)+
  moreover have "sublist ?o ?s"
    by (simp add: suffix_sub_open_fence)
  moreover have "sublist ?c ?o"
    by (simp add: prefix_sub_close_fence sub_open_fence_strip_no_nl)
  moreover have "sublist ?l ?c"
    by (simp add: suffix_sub_label)
  ultimately show ?thesis
    unfolding clean_body_def by (blast intro: sublist_trans)
qed

lemma clean_body_plain:
  assumes "\<not> prefix fence (py_strip t)" and "\<not> suffix fence (py_strip t)"
    and "match_label (py_strip t) = None"
  shows "clean_body t = py_strip t"
proof -
  have "sub_open_fence (py_strip t) = py_strip t"
    using assms(1) by (simp add: sub_open_fence_def)
  moreover have "sub_close_fence (py_strip t) = py_strip t"
    using assms(2) stripped_last [OF stripped_strip_by, of py_isspace t]
    by (cases "py_strip t = []") (auto simp: sub_close_fence_def suffix_def)
  moreover have "sub_label (py_strip t) = py_strip t"
    using assms(3) by (simp add: sub_label_def)
  ultimately show ?thesis by (simp add: clean_body_def)
qed

lemma dropWhile_lang_NL:
  "list_all is_lang_char lang \<Longrightarrow> dropWhile is_lang_char (lang @ NL # r) = NL # r"
  by (induction lang) (simp_all add: is_lang_char_def py_isword_def)

section \<open>Properties of \<open>clean_code_fences\<close>\<close>

text \<open>
  C4: For a non-empty reply the cleaned text ends with exactly one newline: it is its
  own right-stripped form followed by a single newline, so no white space, and no
  second newline, stands before the final one.
\<close>

theorem clean_code_fences_one_newline:
  "text \<noteq> [] \<Longrightarrow>
   clean_code_fences text = rstrip_by py_isspace (clean_code_fences text) @ [NL]"
  by (simp add: clean_code_fences_def rstrip_by_id)

theorem clean_code_fences_one_newline_witness:
  "''x = 1  '' \<noteq> [] \<and> clean_code_fences ''x = 1  '' = ''x = 1\<newline>''"
proof -
  have h: "''x = 1  '' \<noteq> []" by simp
  have r: "rstrip_by py_isspace (clean_code_fences ''x = 1  '') = ''x = 1''"
    by code_simp
  show ?thesis using clean_code_fences_one_newline [OF h] by (simp add: r)
qed

text \<open>
  Cleaning only deletes: the cleaned text without its final newline is a
  contiguous part of the reply, so no character is invented, changed or reordered.
\<close>

theorem clean_code_fences_sublist: "sublist (butlast (clean_code_fences text)) text"
  by (simp add: clean_code_fences_def sublist_clean_body)

text \<open>
  The cleaned text is at most one character longer than the reply.\<close>

theorem clean_code_fences_length: "length (clean_code_fences text) \<le> Suc (length text)"
  using sublist_length_le [OF sublist_clean_body [of "text"]]
  by (simp add: clean_code_fences_def)

text \<open>
  The result is empty exactly for the empty reply: an empty reply is written
  as an empty file, without even a newline.
\<close>

theorem clean_code_fences_empty_iff: "clean_code_fences text = [] \<longleftrightarrow> text = []"
  by (simp add: clean_code_fences_def)

text \<open>
  A reply that is one fenced block, with any language tag and a stripped body
  that does not start with a label, is cleaned to the body and a newline.
\<close>

theorem clean_code_fences_fenced:
  assumes "list_all is_lang_char lang" and "stripped py_isspace code" and "code \<noteq> []"
    and "match_label code = None"
  shows "clean_code_fences (fence @ lang @ [NL] @ code @ [NL] @ fence) = code @ [NL]"
proof -
  let ?t = "fence @ lang @ [NL] @ code @ [NL] @ fence"
  have "stripped py_isspace ?t"
    by (simp add: stripped_def fence_def py_isspace_def)
  then have "py_strip ?t = ?t" by (rule strip_by_id)
  moreover have "sub_open_fence ?t = code @ [NL] @ fence"
    using assms(1) by (simp add: sub_open_fence_def dropWhile_lang_NL drop_opt_nl_def)
  moreover have "sub_close_fence (code @ [NL] @ fence) = code"
    by (simp add: sub_close_fence_def chop_fence_def suffix_def butlast_append)
  moreover have "sub_label code = code"
    using assms(4) by (simp add: sub_label_def)
  moreover have "py_strip code = code"
    using assms(2) by (rule strip_by_id)
  ultimately show ?thesis by (simp add: clean_code_fences_def clean_body_def fence_def)
qed

theorem clean_code_fences_fenced_witness:
  "list_all is_lang_char ''c++'' \<and> stripped py_isspace ''x = 1'' \<and> ''x = 1'' \<noteq> []
   \<and> match_label ''x = 1'' = None
   \<and> clean_code_fences (fence @ ''c++'' @ [NL] @ ''x = 1'' @ [NL] @ fence) = ''x = 1\<newline>''"
proof -
  have h1: "list_all is_lang_char ''c++''" by code_simp
  have h2: "stripped py_isspace ''x = 1''" by code_simp
  have h3: "''x = 1'' \<noteq> []" by simp
  have h4: "match_label ''x = 1'' = None" by code_simp
  show ?thesis using h1 h2 h4 clean_code_fences_fenced [OF h1 h2 h3 h4] by simp
qed

text \<open>
  A reply whose stripped form has no fence at either end and no label in front
  is cleaned to its stripped form and a newline.
\<close>

theorem clean_code_fences_plain:
  assumes "t \<noteq> []" and "\<not> prefix fence (py_strip t)" and "\<not> suffix fence (py_strip t)"
    and "match_label (py_strip t) = None"
  shows "clean_code_fences t = py_strip t @ [NL]"
  using assms by (simp add: clean_code_fences_def clean_body_plain)

theorem clean_code_fences_plain_witness:
  "'' a\<newline>b  '' \<noteq> [] \<and> \<not> prefix fence (py_strip '' a\<newline>b  '')
   \<and> \<not> suffix fence (py_strip '' a\<newline>b  '') \<and> match_label (py_strip '' a\<newline>b  '') = None
   \<and> clean_code_fences '' a\<newline>b  '' = ''a\<newline>b\<newline>''"
proof -
  have s: "py_strip '' a\<newline>b  '' = ''a\<newline>b''" by code_simp
  have h1: "'' a\<newline>b  '' \<noteq> []" by simp
  have h2: "\<not> prefix fence (py_strip '' a\<newline>b  '')" by (simp add: s fence_def)
  have h3: "\<not> suffix fence (py_strip '' a\<newline>b  '')" by (simp add: s fence_def suffix_to_prefix)
  have h4: "match_label (py_strip '' a\<newline>b  '') = None" unfolding s by code_simp
  show ?thesis using h2 h3 h4 clean_code_fences_plain [OF h1 h2 h3 h4] by (simp add: s)
qed

text \<open>
  Cleaning twice is cleaning once whenever the first result has no fence at
  either end and no label in front.
\<close>

theorem clean_code_fences_idem:
  assumes "\<not> prefix fence (clean_body t)" and "\<not> suffix fence (clean_body t)"
    and "match_label (clean_body t) = None"
  shows "clean_code_fences (clean_code_fences t) = clean_code_fences t"
proof (cases "t = []")
  case True
  then show ?thesis by (simp add: clean_code_fences_def)
next
  case False
  have "py_strip (clean_body t @ [NL]) = clean_body t"
    by (simp add: strip_by_snoc_id)
  with assms False show ?thesis
    by (simp add: clean_code_fences_def clean_body_plain)
qed

theorem clean_code_fences_idem_witness:
  "\<not> prefix fence (clean_body ''```py\<newline>x\<newline>```'') \<and> \<not> suffix fence (clean_body ''```py\<newline>x\<newline>```'')
   \<and> match_label (clean_body ''```py\<newline>x\<newline>```'') = None
   \<and> clean_code_fences (clean_code_fences ''```py\<newline>x\<newline>```'') = clean_code_fences ''```py\<newline>x\<newline>```''"
proof -
  have b: "clean_body ''```py\<newline>x\<newline>```'' = ''x''" by code_simp
  have h1: "\<not> prefix fence (clean_body ''```py\<newline>x\<newline>```'')" by (simp add: b fence_def)
  have h2: "\<not> suffix fence (clean_body ''```py\<newline>x\<newline>```'')"
    by (simp add: b fence_def suffix_to_prefix)
  have h3: "match_label (clean_body ''```py\<newline>x\<newline>```'') = None" unfolding b by code_simp
  show ?thesis using h1 h2 h3 clean_code_fences_idem [OF h1 h2 h3] by simp
qed

text \<open>
  C38: Cleaning is not idempotent in general: a reply with the label twice loses
  one label per pass.
\<close>

theorem clean_code_fences_not_idempotent:
  "\<exists>t. clean_code_fences (clean_code_fences t) \<noteq> clean_code_fences t"
proof
  show "clean_code_fences (clean_code_fences ''Fixed code: Fixed code: x'')
      \<noteq> clean_code_fences ''Fixed code: Fixed code: x''"
    by code_simp
qed

end
