(* ===== verification/Paths.thy ===== *)
theory Paths
  imports Py_Prelude
begin

text \<open>
  The path operations \<^verbatim>\<open>src/app.py\<close> takes from \<^verbatim>\<open>pathlib\<close> and \<^verbatim>\<open>os.path\<close>, for POSIX
  paths: \<^verbatim>\<open>Path(p).parts\<close> (line 60), \<^verbatim>\<open>Path(p).suffix\<close> (lines 105 and 234) and
  \<^verbatim>\<open>os.path.join\<close> (line 59).  A path is a string; its components are the pieces
  between slashes, without the empty ones and the single dots.  The suffix follows
  \<^verbatim>\<open>pathlib\<close> up to CPython 3.13: the part of the name from its last dot, unless that
  dot is the first or the last character of the name.
\<close>

section \<open>Definitions\<close>

definition path_root :: "path \<Rightarrow> string" where
  "path_root p =
     (let n = length (takeWhile (\<lambda>c. c = CHR ''/'') p)
      in if n = 0 then [] else if n = 2 then ''//'' else ''/'')"

definition path_components :: "path \<Rightarrow> string list" where
  "path_components p = filter (\<lambda>c. c \<noteq> [] \<and> c \<noteq> ''.'') (split_on (CHR ''/'') p)"

definition path_parts :: "path \<Rightarrow> string list" where
  "path_parts p = (if path_root p = [] then [] else [path_root p]) @ path_components p"

definition path_name :: "path \<Rightarrow> string" where
  "path_name p = (if path_components p = [] then [] else last (path_components p))"

text \<open>\<^verbatim>\<open>s.rfind(c)\<close>: the index of the last occurrence, \<open>None\<close> for Python's \<open>-1\<close>.\<close>

definition rfind :: "'a \<Rightarrow> 'a list \<Rightarrow> nat option" where
  "rfind c s =
     (if c \<in> set s then Some (length s - Suc (length (takeWhile (\<lambda>x. x \<noteq> c) (rev s)))) else None)"

definition path_suffix :: "path \<Rightarrow> string" where
  "path_suffix p =
     (let name = path_name p
      in case rfind (CHR ''.'') name of
           None \<Rightarrow> []
         | Some i \<Rightarrow> if 0 < i \<and> Suc i < length name then drop i name else [])"

definition os_path_join :: "path \<Rightarrow> path \<Rightarrow> path" where
  "os_path_join a b =
     (if prefix ''/'' b then b
      else if a = [] \<or> suffix ''/'' a then a @ b
      else a @ ''/'' @ b)"

lemmas path_defs = path_root_def path_components_def path_parts_def path_name_def rfind_def
  path_suffix_def os_path_join_def

section \<open>The last occurrence\<close>

lemma rfind_None: "c \<notin> set s \<Longrightarrow> rfind c s = None"
  by (simp add: rfind_def)

lemma rfind_append: "c \<notin> set b \<Longrightarrow> rfind c (a @ c # b) = Some (length a)"
proof -
  assume "c \<notin> set b"
  then have "takeWhile (\<lambda>x. x \<noteq> c) (rev b @ c # rev a) = rev b"
    by (auto simp: takeWhile_tail)
  then show ?thesis by (simp add: rfind_def)
qed

lemma rfind_cases:
  obtains (none) "c \<notin> set s" "rfind c s = None"
  | (some) a b where "s = a @ c # b" "c \<notin> set b" "rfind c s = Some (length a)"
proof (cases "c \<in> set s")
  case True
  then obtain a b where ab: "s = a @ c # b" "c \<notin> set b"
    by (auto dest: split_list_last)
  then have "rfind c s = Some (length a)" by (simp add: rfind_append)
  with ab show ?thesis by (rule some)
next
  case False
  then show ?thesis by (rule none) (simp add: rfind_None False)
qed

section \<open>Suffix and name\<close>

lemma path_suffix_ext:
  assumes "path_name p = stem @ CHR ''.'' # ext" and "stem \<noteq> []" and "ext \<noteq> []"
    and "CHR ''.'' \<notin> set ext"
  shows "path_suffix p = CHR ''.'' # ext"
  using assms by (simp add: path_suffix_def rfind_append)

lemma path_suffix_cases:
  "path_suffix p = [] \<or> (\<exists>e. path_suffix p = CHR ''.'' # e \<and> e \<noteq> [] \<and> CHR ''.'' \<notin> set e)"
proof (cases "CHR ''.''" "path_name p" rule: rfind_cases)
  case none
  then show ?thesis by (simp add: path_suffix_def)
next
  case (some a b)
  then show ?thesis by (auto simp: path_suffix_def Let_def)
qed

lemma path_components_join:
  assumes "CHR ''/'' \<notin> set name" and "name \<noteq> []" and "name \<noteq> ''.''" and "root \<noteq> []"
  shows "path_components (os_path_join root name) = path_components root @ [name]"
proof (cases "suffix ''/'' root")
  case True
  then obtain r where r: "root = r @ ''/''" by (auto simp: suffix_def)
  have "name \<noteq> [] \<Longrightarrow> \<not> prefix ''/'' name"
    using assms(1) by (cases name) auto
  then have "os_path_join root name = r @ CHR ''/'' # name"
    using assms(2) True by (simp add: os_path_join_def r)
  moreover have "path_components root = path_components r"
    using split_on_append [of "CHR ''/''" r "[]"] by (simp add: path_components_def r)
  ultimately show ?thesis
    using assms by (simp add: path_components_def split_on_append split_on_no_sep_id)
next
  case False
  have "\<not> prefix ''/'' name"
    using assms(1,2) by (cases name) auto
  then have "os_path_join root name = root @ CHR ''/'' # name"
    using assms(4) False by (simp add: os_path_join_def)
  then show ?thesis
    using assms by (simp add: path_components_def split_on_append split_on_no_sep_id)
qed

lemma path_name_join:
  assumes "CHR ''/'' \<notin> set name" and "name \<noteq> []" and "name \<noteq> ''.''" and "root \<noteq> []"
  shows "path_name (os_path_join root name) = name"
  using path_components_join [OF assms] by (simp add: path_name_def)

lemma path_parts_join:
  assumes "CHR ''/'' \<notin> set name" and "name \<noteq> []" and "name \<noteq> ''.''" and "root \<noteq> []"
  shows "set (path_components (os_path_join root name)) = insert name (set (path_components root))"
  using path_components_join [OF assms] by simp

end
