(* ===== verification/Batcher.thy ===== *)
theory Batcher
  imports Paths
begin

text \<open>
  The batcher: \<^verbatim>\<open>build_file_section\<close> (\<^verbatim>\<open>src/app.py\<close>, lines 104 to 106) and
  \<^verbatim>\<open>chunk_files\<close> (lines 108 to 130).

  \<^verbatim>\<open>chunk_files\<close> is a loop over the file list with five local variables.  They are the
  fields of the record \<open>chunk_state\<close>; the body of the loop is \<open>chunk_step\<close>, the loop
  with the dictionary lookup that can raise \<^verbatim>\<open>KeyError\<close> is \<open>chunk_loop\<close>, the final
  flush is \<open>chunk_finish\<close>.  The budget \<^verbatim>\<open>max_chars\<close> is an \<^typ>\<open>int\<close>, as the command
  line accepts any integer.

  The specification is \<open>pack\<close>, the greedy grouping on the level of file names and
  section sizes, and \<open>greedy_ok\<close>, the three conditions that describe its result: no
  group is empty, a group of several files fits the budget, and the first file of the
  next group would not have fitted.  The loop is shown to compute \<open>pack\<close>
  (\<open>chunk_files_present\<close>), \<open>pack\<close> to satisfy \<open>greedy_ok\<close>, and \<open>greedy_ok\<close> to determine the
  grouping (\<open>pack_unique\<close>).
\<close>

section \<open>Sections\<close>

definition build_file_section :: "path \<Rightarrow> string \<Rightarrow> string" where
  "build_file_section file_path code =
     (let suffix = str_or (lstrip_by (\<lambda>c. c = CHR ''.'') (path_suffix file_path)) ''txt''
      in ''### FILE PATH: '' @ file_path @ [NL] @ ''```'' @ suffix @ [NL] @ code @ [NL]
         @ ''```'' @ [NL, NL])"

section \<open>The loop\<close>

record chunk_state =
  batches :: "string list"
  batch_files :: "path list list"
  current :: "string list"
  current_files :: "path list"
  cur_length :: nat

definition chunk_init :: chunk_state where
  "chunk_init = \<lparr>batches = [], batch_files = [], current = [], current_files = [], cur_length = 0\<rparr>"

definition chunk_step :: "int \<Rightarrow> chunk_state \<Rightarrow> path \<Rightarrow> string \<Rightarrow> chunk_state" where
  "chunk_step max_chars st f section =
     (if current st \<noteq> [] \<and> int (cur_length st + length section) > max_chars
      then st\<lparr>batches := batches st @ [py_join [NL] (current st)],
              batch_files := batch_files st @ [current_files st],
              current := [section], current_files := [f], cur_length := length section\<rparr>
      else st\<lparr>current := current st @ [section], current_files := current_files st @ [f],
              cur_length := cur_length st + length section\<rparr>)"

fun chunk_loop :: "(path \<rightharpoonup> string) \<Rightarrow> int \<Rightarrow> chunk_state \<Rightarrow> path list \<Rightarrow> chunk_state result" where
  "chunk_loop file_contents max_chars st [] = Inr st"
| "chunk_loop file_contents max_chars st (f # fs) =
     (case file_contents f of
        None \<Rightarrow> Inl (KeyError f)
      | Some code \<Rightarrow>
          chunk_loop file_contents max_chars
            (chunk_step max_chars st f (build_file_section f code)) fs)"

definition chunk_finish :: "chunk_state \<Rightarrow> string list \<times> path list list" where
  "chunk_finish st =
     (if current st \<noteq> []
      then (batches st @ [py_join [NL] (current st)], batch_files st @ [current_files st])
      else (batches st, batch_files st))"

definition chunk_files ::
    "path list \<Rightarrow> (path \<rightharpoonup> string) \<Rightarrow> int \<Rightarrow> (string list \<times> path list list) result" where
  "chunk_files files file_contents max_chars =
     map_sum id chunk_finish (chunk_loop file_contents max_chars chunk_init files)"

lemmas chunk_defs = chunk_files_def chunk_finish_def chunk_step_def chunk_init_def

section \<open>Specification\<close>

fun pack :: "int \<Rightarrow> ('a \<Rightarrow> nat) \<Rightarrow> 'a list \<Rightarrow> 'a list \<Rightarrow> 'a list list" where
  "pack m sz cur [] = (if cur = [] then [] else [cur])"
| "pack m sz cur (x # xs) =
     (if cur \<noteq> [] \<and> int (sum_list (map sz cur) + sz x) > m
      then cur # pack m sz [x] xs
      else pack m sz (cur @ [x]) xs)"

definition fits :: "int \<Rightarrow> ('a \<Rightarrow> nat) \<Rightarrow> 'a list \<Rightarrow> bool" where
  "fits m sz g \<longleftrightarrow> length g \<le> 1 \<or> int (sum_list (map sz g)) \<le> m"

fun greedy_ok :: "int \<Rightarrow> ('a \<Rightarrow> nat) \<Rightarrow> 'a list list \<Rightarrow> bool" where
  "greedy_ok m sz [] = True"
| "greedy_ok m sz [g] = (g \<noteq> [] \<and> fits m sz g)"
| "greedy_ok m sz (g # h # gs) =
     (g \<noteq> [] \<and> fits m sz g \<and> h \<noteq> [] \<and> int (sum_list (map sz g) + sz (hd h)) > m
      \<and> greedy_ok m sz (h # gs))"

text \<open>
  The section of a file under a dictionary of contents, its size, and the text of a
  batch: the vocabulary in which the result of the loop is stated.
\<close>

definition section_of :: "(path \<rightharpoonup> string) \<Rightarrow> path \<Rightarrow> string" where
  "section_of fc f = (case fc f of None \<Rightarrow> [] | Some code \<Rightarrow> build_file_section f code)"

definition section_size :: "(path \<rightharpoonup> string) \<Rightarrow> path \<Rightarrow> nat" where
  "section_size fc f = length (section_of fc f)"

definition batch_text :: "(path \<rightharpoonup> string) \<Rightarrow> path list \<Rightarrow> string" where
  "batch_text fc g = py_join [NL] (map (section_of fc) g)"

definition chunk_inv :: "(path \<rightharpoonup> string) \<Rightarrow> chunk_state \<Rightarrow> bool" where
  "chunk_inv fc st \<longleftrightarrow>
     current st = map (section_of fc) (current_files st)
     \<and> cur_length st = sum_list (map (section_size fc) (current_files st))
     \<and> batches st = map (batch_text fc) (batch_files st)"

section \<open>Properties of the specification\<close>

lemma concat_pack: "concat (pack m sz cur xs) = cur @ xs"
  by (induction xs arbitrary: cur) auto

lemma pack_nonempty: "[] \<notin> set (pack m sz cur xs)"
  by (induction xs arbitrary: cur) auto

lemma pack_eq_Nil: "pack m sz cur xs = [] \<longleftrightarrow> cur = [] \<and> xs = []"
  by (induction xs arbitrary: cur) auto

lemma hd_pack: "cur \<noteq> [] \<Longrightarrow> \<exists>r gs. pack m sz cur xs = (cur @ r) # gs"
proof (induction xs arbitrary: cur)
  case Nil
  then show ?case by simp
next
  case (Cons x xs)
  show ?case
  proof (cases "int (sum_list (map sz cur) + sz x) > m")
    case True
    with Cons.prems have "pack m sz cur (x # xs) = (cur @ []) # pack m sz [x] xs" by simp
    then show ?thesis by blast
  next
    case False
    obtain r gs where "pack m sz (cur @ [x]) xs = ((cur @ [x]) @ r) # gs"
      using Cons.IH [of "cur @ [x]"] by auto
    with False have "pack m sz cur (x # xs) = (cur @ (x # r)) # gs" by simp
    then show ?thesis by blast
  qed
qed

lemma fits_snoc: "fits m sz cur \<Longrightarrow> \<not> (cur \<noteq> [] \<and> int (sum_list (map sz cur) + sz x) > m) \<Longrightarrow> fits m sz (cur @ [x])"
  by (auto simp: fits_def)

lemma greedy_ok_pack: "fits m sz cur \<Longrightarrow> greedy_ok m sz (pack m sz cur xs)"
proof (induction xs arbitrary: cur)
  case Nil
  then show ?case by simp
next
  case (Cons x xs)
  show ?case
  proof (cases "cur \<noteq> [] \<and> int (sum_list (map sz cur) + sz x) > m")
    case True
    obtain r gs where p: "pack m sz [x] xs = ([x] @ r) # gs"
      using hd_pack [of "[x]" m sz xs] by auto
    have "greedy_ok m sz (pack m sz [x] xs)"
      by (rule Cons.IH) (simp add: fits_def)
    with True Cons.prems p show ?thesis by simp
  next
    case False
    with Cons.prems have "fits m sz (cur @ [x])" by (rule fits_snoc)
    then have "greedy_ok m sz (pack m sz (cur @ [x]) xs)" by (rule Cons.IH)
    with False show ?thesis by auto
  qed
qed


lemma pack_append_fit:
  "fits m sz (cur @ r) \<Longrightarrow> pack m sz cur (r @ ys) = pack m sz (cur @ r) ys"
proof (induction r arbitrary: cur)
  case Nil
  then show ?case by simp
next
  case (Cons x r)
  from Cons.prems have "\<not> (cur \<noteq> [] \<and> int (sum_list (map sz cur) + sz x) > m)"
    by (cases cur) (auto simp: fits_def)
  moreover have "pack m sz (cur @ [x]) (r @ ys) = pack m sz ((cur @ [x]) @ r) ys"
    by (rule Cons.IH) (use Cons.prems in simp)
  ultimately show ?case by auto
qed

lemma pack_greedy_ok_Cons:
  "g \<noteq> [] \<Longrightarrow> greedy_ok m sz (g # gs) \<Longrightarrow> pack m sz g (concat gs) = g # gs"
proof (induction gs arbitrary: g)
  case Nil
  then show ?case by simp
next
  case (Cons h gs)
  from Cons.prems obtain x r where h: "h = x # r"
    by (cases h) auto
  from Cons.prems have ok: "greedy_ok m sz (h # gs)" and big: "int (sum_list (map sz g) + sz x) > m"
    and fit: "fits m sz h"
    by (cases gs; simp add: h)+
  have "pack m sz g (concat (h # gs)) = g # pack m sz [x] (r @ concat gs)"
    using Cons.prems(1) big by (simp add: h)
  also have "pack m sz [x] (r @ concat gs) = pack m sz h (concat gs)"
    using pack_append_fit [of m sz "[x]" r] fit by (simp add: h)
  also have "\<dots> = h # gs"
    by (rule Cons.IH) (use ok h in auto)
  finally show ?case .
qed

lemma pack_unique:
  assumes "greedy_ok m sz gs"
  shows "pack m sz [] (concat gs) = gs"
proof (cases gs)
  case Nil
  then show ?thesis by simp
next
  case (Cons g gs')
  with assms have g: "g \<noteq> []" and fit: "fits m sz g"
    by (cases gs'; simp)+
  have "pack m sz [] (g @ concat gs') = pack m sz g (concat gs')"
    using pack_append_fit [of m sz "[]" g] fit by simp
  also have "\<dots> = g # gs'"
    using g assms Cons by (simp add: pack_greedy_ok_Cons)
  finally show ?thesis by (simp add: Cons)
qed

lemma greedy_ok_all: "greedy_ok m sz gs \<Longrightarrow> g \<in> set gs \<Longrightarrow> g \<noteq> [] \<and> fits m sz g"
  by (induction m sz gs rule: greedy_ok.induct) auto

section \<open>The loop computes the specification\<close>

lemma chunk_inv_init: "chunk_inv fc chunk_init"
  by (simp add: chunk_inv_def chunk_init_def)

lemma chunk_inv_step:
  "chunk_inv fc st \<Longrightarrow> fc f = Some code \<Longrightarrow>
   chunk_inv fc (chunk_step m st f (build_file_section f code))"
  by (simp add: chunk_inv_def chunk_step_def section_of_def section_size_def batch_text_def)

lemma chunk_loop_pack:
  assumes "chunk_inv fc st" and "list_all (\<lambda>f. fc f \<noteq> None) fs"
  shows "\<exists>st'. chunk_loop fc m st fs = Inr st' \<and> chunk_inv fc st'
     \<and> snd (chunk_finish st') = batch_files st @ pack m (section_size fc) (current_files st) fs"
  using assms
proof (induction fs arbitrary: st)
  case Nil
  then show ?case by (auto simp: chunk_finish_def chunk_inv_def)
next
  case (Cons f fs)
  from Cons.prems(2) obtain code where code: "fc f = Some code" by auto
  let ?st = "chunk_step m st f (build_file_section f code)"
  have inv: "chunk_inv fc ?st" using Cons.prems(1) code by (rule chunk_inv_step)
  from Cons.prems(2) have "list_all (\<lambda>f. fc f \<noteq> None) fs" by simp
  with inv obtain st' where st': "chunk_loop fc m ?st fs = Inr st'" "chunk_inv fc st'"
    "snd (chunk_finish st') = batch_files ?st @ pack m (section_size fc) (current_files ?st) fs"
    using Cons.IH by blast
  have "batch_files ?st @ pack m (section_size fc) (current_files ?st) fs
      = batch_files st @ pack m (section_size fc) (current_files st) (f # fs)"
    using Cons.prems(1) code
    by (auto simp: chunk_step_def chunk_inv_def section_size_def section_of_def)
  with st' code show ?case by simp
qed

lemma chunk_finish_texts:
  "chunk_inv fc st \<Longrightarrow> fst (chunk_finish st) = map (batch_text fc) (snd (chunk_finish st))"
  by (simp add: chunk_finish_def chunk_inv_def batch_text_def)

lemma chunk_loop_KeyError:
  "find (\<lambda>f. fc f = None) fs = Some f \<Longrightarrow> chunk_loop fc m st fs = Inl (KeyError f)"
  by (induction fs arbitrary: st) (auto split: option.splits if_splits)

lemma section_size_fun: "section_size fc = (\<lambda>f. length (section_of fc f))"
  by (rule ext) (simp add: section_size_def)

lemma length_batch_text:
  "g \<noteq> [] \<Longrightarrow> Suc (length (batch_text fc g)) = sum_list (map (section_size fc) g) + length g"
  using length_py_join_NL [of "map (section_of fc) g"]
  by (simp add: batch_text_def section_size_fun comp_def)

lemma length_build_file_section [len_simps]:
  "length (build_file_section f code) =
     length f + length (str_or (lstrip_by (\<lambda>c. c = CHR ''.'') (path_suffix f)) ''txt'')
     + length code + 26"
  by (simp add: build_file_section_def Let_def)

lemma chunk_files_present:
  assumes "list_all (\<lambda>f. fc f \<noteq> None) files"
  shows "chunk_files files fc m
       = Inr (map (batch_text fc) (pack m (section_size fc) [] files),
              pack m (section_size fc) [] files)"
proof -
  obtain st' where "chunk_loop fc m chunk_init files = Inr st'" "chunk_inv fc st'"
    "snd (chunk_finish st')
       = batch_files chunk_init @ pack m (section_size fc) (current_files chunk_init) files"
    using chunk_loop_pack [OF chunk_inv_init assms] by blast
  then show ?thesis
    using chunk_finish_texts [of fc st']
    by (simp add: chunk_files_def chunk_init_def prod_eq_iff)
qed

lemma chunk_files_missing:
  "find (\<lambda>f. fc f = None) files = Some f \<Longrightarrow> chunk_files files fc m = Inl (KeyError f)"
  by (simp add: chunk_files_def chunk_loop_KeyError)

lemma chunk_files_InrD:
  assumes "chunk_files files fc m = Inr (bs, gs)"
  shows "gs = pack m (section_size fc) [] files" and "bs = map (batch_text fc) gs"
    and "list_all (\<lambda>f. fc f \<noteq> None) files"
proof -
  have p: "list_all (\<lambda>f. fc f \<noteq> None) files"
  proof (cases "find (\<lambda>f. fc f = None) files")
    case None
    then show ?thesis by (simp add: find_None_iff list_all_iff)
  next
    case (Some f)
    with assms show ?thesis by (simp add: chunk_files_missing)
  qed
  then show "list_all (\<lambda>f. fc f \<noteq> None) files" .
  from assms show "gs = pack m (section_size fc) [] files" and "bs = map (batch_text fc) gs"
    by (auto simp: chunk_files_present [OF p])
qed

lemma chunk_files_concat: "chunk_files files fc m = Inr (bs, gs) \<Longrightarrow> concat gs = files"
  by (auto dest!: chunk_files_InrD(1) simp: concat_pack)

lemma chunk_files_greedy_ok:
  "chunk_files files fc m = Inr (bs, gs) \<Longrightarrow> greedy_ok m (section_size fc) gs"
  by (auto dest!: chunk_files_InrD(1) simp: greedy_ok_pack fits_def)

section \<open>Properties of \<open>chunk_files\<close>\<close>

text \<open>
  C1: \<open>chunk_files\<close> raises \<open>KeyError\<close> for the first file that has no entry in the
  dictionary of contents, and otherwise returns the greedy grouping \<open>pack\<close> of the
  file list together with the text of each group, in the same order.
\<close>

theorem chunk_files_eq:
  "chunk_files files fc m =
     (case find (\<lambda>f. fc f = None) files of
        Some f \<Rightarrow> Inl (KeyError f)
      | None \<Rightarrow> (let gs = pack m (section_size fc) [] files in Inr (map (batch_text fc) gs, gs)))"
proof (cases "find (\<lambda>f. fc f = None) files")
  case None
  then have "list_all (\<lambda>f. fc f \<noteq> None) files"
    by (simp add: find_None_iff list_all_iff)
  with None show ?thesis by (simp add: chunk_files_present Let_def)
next
  case (Some f)
  then show ?thesis by (simp add: chunk_files_missing)
qed

text \<open>
  C2: The batches are a partition of the file list: concatenating the groups of
  files in order gives back the list, so every file is in exactly one batch and the
  order is kept.
\<close>

theorem chunk_files_partition:
  "chunk_files files fc m = Inr (bs, gs) \<Longrightarrow> concat gs = files \<and> length bs = length gs"
  by (auto dest: chunk_files_concat chunk_files_InrD(2))

theorem chunk_files_partition_witness:
  "chunk_files [''a.py'', ''b.py''] [''a.py'' \<mapsto> ''x'', ''b.py'' \<mapsto> ''y''] 40
     = Inr ([build_file_section ''a.py'' ''x'', build_file_section ''b.py'' ''y''],
            [[''a.py''], [''b.py'']])
   \<and> concat [[''a.py''], [''b.py'']] = [''a.py'', ''b.py'']"
proof -
  have h: "chunk_files [''a.py'', ''b.py''] [''a.py'' \<mapsto> ''x'', ''b.py'' \<mapsto> ''y''] 40
     = Inr ([build_file_section ''a.py'' ''x'', build_file_section ''b.py'' ''y''],
            [[''a.py''], [''b.py'']])"
    by code_simp
  show ?thesis using h chunk_files_partition [OF h] by simp
qed

text \<open>
  C7: The result satisfies the greedy conditions: no batch is empty, a batch of
  several files has sections that fit the budget together, and the first file of
  each later batch would not have fitted into the batch before it.
\<close>

theorem chunk_files_greedy:
  "chunk_files files fc m = Inr (bs, gs) \<Longrightarrow> greedy_ok m (section_size fc) gs"
  by (rule chunk_files_greedy_ok)

theorem chunk_files_greedy_witness:
  "chunk_files [''a.py'', ''b.py''] [''a.py'' \<mapsto> ''x'', ''b.py'' \<mapsto> ''y''] 66
     = Inr ([build_file_section ''a.py'' ''x'' @ [NL] @ build_file_section ''b.py'' ''y''],
            [[''a.py'', ''b.py'']])
   \<and> greedy_ok 66 (section_size [''a.py'' \<mapsto> ''x'', ''b.py'' \<mapsto> ''y'']) [[''a.py'', ''b.py'']]"
proof -
  have h: "chunk_files [''a.py'', ''b.py''] [''a.py'' \<mapsto> ''x'', ''b.py'' \<mapsto> ''y''] 66
     = Inr ([build_file_section ''a.py'' ''x'' @ [NL] @ build_file_section ''b.py'' ''y''],
            [[''a.py'', ''b.py'']])"
    by code_simp
  show ?thesis using h chunk_files_greedy [OF h] by simp
qed

text \<open>
  C8: The greedy conditions determine the result: whenever a grouping of files that
  all have contents satisfies them, \<open>chunk_files\<close> on the concatenation returns
  exactly this grouping, with the joined sections of each group as its text.
\<close>

theorem chunk_files_unique:
  assumes "list_all (\<lambda>f. fc f \<noteq> None) (concat gs)" and "greedy_ok m (section_size fc) gs"
  shows "chunk_files (concat gs) fc m = Inr (map (batch_text fc) gs, gs)"
  using chunk_files_present [OF assms(1), of m] pack_unique [OF assms(2)] by simp

theorem chunk_files_unique_witness:
  "list_all (\<lambda>f. [''a.py'' \<mapsto> ''x'', ''b.py'' \<mapsto> ''y''] f \<noteq> None) (concat [[''a.py''], [''b.py'']])
   \<and> greedy_ok 40 (section_size [''a.py'' \<mapsto> ''x'', ''b.py'' \<mapsto> ''y'']) [[''a.py''], [''b.py'']]
   \<and> chunk_files (concat [[''a.py''], [''b.py'']]) [''a.py'' \<mapsto> ''x'', ''b.py'' \<mapsto> ''y''] 40
     = Inr (map (batch_text [''a.py'' \<mapsto> ''x'', ''b.py'' \<mapsto> ''y'']) [[''a.py''], [''b.py'']],
            [[''a.py''], [''b.py'']])"
proof -
  have h1: "list_all (\<lambda>f. [''a.py'' \<mapsto> ''x'', ''b.py'' \<mapsto> ''y''] f \<noteq> None)
      (concat [[''a.py''], [''b.py'']])"
    by simp
  have h2: "greedy_ok 40 (section_size [''a.py'' \<mapsto> ''x'', ''b.py'' \<mapsto> ''y''])
      [[''a.py''], [''b.py'']]"
    by code_simp
  show ?thesis using h1 h2 chunk_files_unique [OF h1 h2] by blast
qed

text \<open>
  C9: In a batch of two or more files the sections fit the budget together, and the
  text of the batch is longer than their sum by the joining newlines, one less than
  the number of files.
\<close>

theorem chunk_files_budget:
  assumes "chunk_files files fc m = Inr (bs, gs)" and "g \<in> set gs" and "2 \<le> length g"
  shows "int (sum_list (map (section_size fc) g)) \<le> m
       \<and> int (length (batch_text fc g)) = int (sum_list (map (section_size fc) g)) + int (length g) - 1"
proof -
  from assms(1,2) have "g \<noteq> []" and "fits m (section_size fc) g"
    using greedy_ok_all [OF chunk_files_greedy_ok] by blast+
  with assms(3) have "int (sum_list (map (section_size fc) g)) \<le> m"
    by (simp add: fits_def)
  then show ?thesis
    using length_batch_text [OF \<open>g \<noteq> []\<close>, of fc] by linarith
qed

theorem chunk_files_budget_witness:
  "chunk_files [''a.py'', ''b.py''] [''a.py'' \<mapsto> ''x'', ''b.py'' \<mapsto> ''y''] 70
     = Inr ([build_file_section ''a.py'' ''x'' @ [NL] @ build_file_section ''b.py'' ''y''],
            [[''a.py'', ''b.py'']])
   \<and> [''a.py'', ''b.py''] \<in> set [[''a.py'', ''b.py'']] \<and> 2 \<le> length [''a.py'', ''b.py'']
   \<and> int (sum_list (map (section_size [''a.py'' \<mapsto> ''x'', ''b.py'' \<mapsto> ''y'']) [''a.py'', ''b.py''])) \<le> 70"
proof -
  have h: "chunk_files [''a.py'', ''b.py''] [''a.py'' \<mapsto> ''x'', ''b.py'' \<mapsto> ''y''] 70
     = Inr ([build_file_section ''a.py'' ''x'' @ [NL] @ build_file_section ''b.py'' ''y''],
            [[''a.py'', ''b.py'']])"
    by code_simp
  have h2: "[''a.py'', ''b.py''] \<in> set [[''a.py'', ''b.py'']]" by simp
  have h3: "2 \<le> length [''a.py'', ''b.py'']" by simp
  show ?thesis using h chunk_files_budget [OF h h2 h3] by simp
qed

text \<open>
  C40: The budget bounds the sections, not the text of a batch: the loop does not
  count the newlines that join the sections.  Two files whose sections fill the
  budget exactly are one batch of two files, and the text of that batch is one
  character longer than the budget.
\<close>

theorem chunk_files_over_budget:
  assumes "fc a = Some ca" and "fc b = Some cb"
    and "int (length (build_file_section a ca) + length (build_file_section b cb)) = m"
  shows "\<exists>t. chunk_files [a, b] fc m = Inr ([t], [[a, b]]) \<and> int (length t) = m + 1"
  using assms
  by (simp add: chunk_files_present batch_text_def section_of_def section_size_def)

theorem chunk_files_over_budget_witness:
  "chunk_files [''a.py'', ''b.py''] [''a.py'' \<mapsto> ''x'', ''b.py'' \<mapsto> ''y''] 66
     = Inr ([build_file_section ''a.py'' ''x'' @ [NL] @ build_file_section ''b.py'' ''y''],
            [[''a.py'', ''b.py'']])
   \<and> length (build_file_section ''a.py'' ''x'' @ [NL] @ build_file_section ''b.py'' ''y'') = 67"
proof -
  let ?fc = "[''a.py'' \<mapsto> ''x'', ''b.py'' \<mapsto> ''y'']"
  have h: "?fc ''a.py'' = Some ''x''" "?fc ''b.py'' = Some ''y''"
    "int (length (build_file_section ''a.py'' ''x'') + length (build_file_section ''b.py'' ''y'')) = 66"
    by simp_all code_simp
  from chunk_files_over_budget [OF h] obtain t where
    t: "chunk_files [''a.py'', ''b.py''] ?fc 66 = Inr ([t], [[''a.py'', ''b.py'']])"
      "int (length t) = 66 + 1"
    by blast
  moreover have "chunk_files [''a.py'', ''b.py''] ?fc 66
     = Inr ([build_file_section ''a.py'' ''x'' @ [NL] @ build_file_section ''b.py'' ''y''],
            [[''a.py'', ''b.py'']])"
    by code_simp
  ultimately show ?thesis by simp
qed

text \<open>
  A file whose section alone exceeds the budget is a batch of its own: it is
  neither dropped nor grouped with another file.
\<close>

theorem chunk_files_oversized_alone:
  assumes "chunk_files files fc m = Inr (bs, gs)" and "f \<in> set files"
    and "int (section_size fc f) > m"
  shows "[f] \<in> set gs"
proof -
  from assms(1,2) obtain g where g: "g \<in> set gs" "f \<in> set g"
    using chunk_files_concat by fastforce
  with assms(1) have "fits m (section_size fc) g"
    using greedy_ok_all [OF chunk_files_greedy_ok] by blast
  moreover have "section_size fc f \<le> sum_list (map (section_size fc) g)"
    using g(2) by (simp add: member_le_sum_list)
  ultimately have "length g \<le> 1" using assms(3) by (auto simp: fits_def)
  with g(2) have "g = [f]" by (cases g) auto
  with g(1) show ?thesis by simp
qed

theorem chunk_files_oversized_alone_witness:
  "chunk_files [''a.py'', ''b.py''] [''a.py'' \<mapsto> ''x'', ''b.py'' \<mapsto> ''y''] 10
     = Inr ([build_file_section ''a.py'' ''x'', build_file_section ''b.py'' ''y''],
            [[''a.py''], [''b.py'']])
   \<and> ''b.py'' \<in> set [''a.py'', ''b.py'']
   \<and> int (section_size [''a.py'' \<mapsto> ''x'', ''b.py'' \<mapsto> ''y''] ''b.py'') > 10
   \<and> [''b.py''] \<in> set [[''a.py''], [''b.py'']]"
proof -
  have h: "chunk_files [''a.py'', ''b.py''] [''a.py'' \<mapsto> ''x'', ''b.py'' \<mapsto> ''y''] 10
     = Inr ([build_file_section ''a.py'' ''x'', build_file_section ''b.py'' ''y''],
            [[''a.py''], [''b.py'']])"
    by code_simp
  have h2: "''b.py'' \<in> set [''a.py'', ''b.py'']" by simp
  have h3: "int (section_size [''a.py'' \<mapsto> ''x'', ''b.py'' \<mapsto> ''y''] ''b.py'') > 10"
    by code_simp
  show ?thesis using h h2 h3 chunk_files_oversized_alone [OF h h2 h3] by blast
qed

text \<open>
  Two files whose sections together exceed the budget are two batches of one
  file each; this covers the scenario of two files of 500 characters under a budget
  of 600.
\<close>

theorem chunk_files_two:
  assumes "fc a = Some ca" and "fc b = Some cb"
    and "int (section_size fc a + section_size fc b) > m"
  shows "chunk_files [a, b] fc m
       = Inr ([build_file_section a ca, build_file_section b cb], [[a], [b]])"
  using assms by (simp add: chunk_files_present batch_text_def section_of_def)

theorem chunk_files_two_witness:
  "[''a.py'' \<mapsto> replicate 500 (CHR ''x''), ''b.py'' \<mapsto> replicate 500 (CHR ''y'')] ''a.py''
     = Some (replicate 500 (CHR ''x''))
   \<and> [''a.py'' \<mapsto> replicate 500 (CHR ''x''), ''b.py'' \<mapsto> replicate 500 (CHR ''y'')] ''b.py''
     = Some (replicate 500 (CHR ''y''))
   \<and> chunk_files [''a.py'', ''b.py'']
        [''a.py'' \<mapsto> replicate 500 (CHR ''x''), ''b.py'' \<mapsto> replicate 500 (CHR ''y'')] 600
     = Inr ([build_file_section ''a.py'' (replicate 500 (CHR ''x'')),
             build_file_section ''b.py'' (replicate 500 (CHR ''y''))], [[''a.py''], [''b.py'']])"
proof -
  let ?fc = "[''a.py'' \<mapsto> replicate 500 (CHR ''x''), ''b.py'' \<mapsto> replicate 500 (CHR ''y'')]"
  have h1: "?fc ''a.py'' = Some (replicate 500 (CHR ''x''))" by simp
  have h2: "?fc ''b.py'' = Some (replicate 500 (CHR ''y''))" by simp
  have h3: "int (section_size ?fc ''a.py'' + section_size ?fc ''b.py'') > 600"
    by (simp add: section_size_def section_of_def len_simps)
  show ?thesis using h1 h2 chunk_files_two [OF h1 h2 h3] by blast
qed

text \<open>
  The lookup of a file without contents raises \<open>KeyError\<close> for that file, and
  no batches are returned, whatever the other files are.
\<close>

theorem chunk_files_KeyError:
  assumes "list_all (\<lambda>f. fc f \<noteq> None) pre" and "fc f = None"
  shows "chunk_files (pre @ f # post) fc m = Inl (KeyError f)"
proof -
  have "find (\<lambda>f. fc f = None) (pre @ f # post) = Some f"
    using assms by (induction pre) auto
  then show ?thesis by (rule chunk_files_missing)
qed

theorem chunk_files_KeyError_witness:
  "list_all (\<lambda>f. [''a.py'' \<mapsto> ''x''] f \<noteq> None) [''a.py''] \<and> [''a.py'' \<mapsto> ''x''] ''c.py'' = None
   \<and> chunk_files ([''a.py''] @ ''c.py'' # [''a.py'']) [''a.py'' \<mapsto> ''x''] 100 = Inl (KeyError ''c.py'')"
proof -
  have h1: "list_all (\<lambda>f. [''a.py'' \<mapsto> ''x''] f \<noteq> None) [''a.py'']" by simp
  have h2: "[''a.py'' \<mapsto> ''x''] ''c.py'' = None" by simp
  show ?thesis using h1 h2 chunk_files_KeyError [OF h1 h2] by blast
qed

end
