(* ===== verification/World.thy ===== *)
theory World
  imports Paths
begin

text \<open>
  What the program acts on, shared by every component that has an effect.

  \<^item> The file system is a partial map from paths to nodes.  A \<open>File\<close> holds text, a
    \<open>Blob\<close> is a file that is not valid UTF-8 (it can be copied but not read as text),
    a \<open>Workbook\<close> is the spreadsheet \<^verbatim>\<open>save_to_excel\<close> writes, given by the cells of
    the first column of its sheet.
  \<^item> Output is a list of messages, each on the console (\<^verbatim>\<open>console.print\<close>,
    \<^verbatim>\<open>console.rule\<close>, the prompt of \<^verbatim>\<open>input\<close>) or on the interface (\<^verbatim>\<open>ui_logger\<close>).
    A message is a constructor that carries what the format string interpolates;
    the fixed words and the colour markup are not modelled.
  \<^item> A prompt to the language model is a constructor that carries the interpolated
    fields of the two prompt templates (lines 142 to 203 and 226 to 239); the fixed
    instruction text is not modelled.
  \<^item> The record \<open>env\<close> holds what the program cannot decide: permissions, whether the
    model could be constructed at start-up (\<^verbatim>\<open>MODEL\<close>, lines 27 to 30), the reply of
    the model to the \<open>n\<close>-th call, the directory listing \<^verbatim>\<open>os.walk\<close> yields, the
    user's answers, and whether \<^verbatim>\<open>openpyxl\<close> can be imported.
  \<^item> The record \<open>world\<close> is the state that changes: the file system, the output, the
    prompts sent so far and the number of questions put to the user.
\<close>


section \<open>The file system\<close>

datatype node = File string | Blob | Workbook "string list" | Dir

section \<open>Output\<close>

datatype channel = Console | Ui

datatype msg =
    ErrorReading path
  | BackupWarning path
  | Updated path
  | ErrorWriting path
  | SuggestedFix path
  | FixText string
  | MarkdownOut string
  | InputPrompt path
  | Skipped path
  | SkippedNonInteractive path
  | ErrorFixing path
  | ExcelMissing
  | ExcelSaved path
  | ClearScreen
  | Logo
  | StartingAnalysis
  | InvalidPath path
  | NoSourceFiles
  | Analyzing nat
  | ProcessingReview nat nat
  | ReviewHeader nat nat
  | ReviewText string
  | ProcessingAutoFix nat nat
  | JsonSaved
  | Done
  | SelectFolder
  | Failure py_error

section \<open>The language model\<close>

datatype prompt =
    ReviewPrompt string string
  | FixPrompt string path string string

datatype reply = Text string | NoText | Raises string

section \<open>Environment and state\<close>

record env =
  can_read :: "path \<Rightarrow> bool"
  can_write :: "path \<Rightarrow> bool"
  model_loaded :: bool
  model_reply :: "nat \<Rightarrow> prompt \<Rightarrow> reply"
  walk :: "path \<Rightarrow> (path \<times> string list \<times> string list) list"
  user_says :: "nat \<Rightarrow> path \<Rightarrow> bool"
  user_types :: "nat \<Rightarrow> path \<Rightarrow> string option"
  openpyxl_installed :: bool

record world =
  fs :: "path \<rightharpoonup> node"
  out :: "(channel \<times> msg) list"
  sent :: "prompt list"
  asked :: nat

definition emit :: "channel \<Rightarrow> msg \<Rightarrow> world \<Rightarrow> world" where
  "emit ch m w = w\<lparr>out := out w @ [(ch, m)]\<rparr>"

text \<open>
  \<^verbatim>\<open>clear_screen\<close> and \<^verbatim>\<open>print_logo\<close> (lines 37 to 52) act on the terminal only; each is
  one message on the console.
\<close>

abbreviation clear_screen :: "world \<Rightarrow> world" where
  "clear_screen w \<equiv> emit Console ClearScreen w"

abbreviation print_logo :: "world \<Rightarrow> world" where
  "print_logo w \<equiv> emit Console Logo w"

lemma emit_simps [simp]:
  "fs (emit ch m w) = fs w"
  "out (emit ch m w) = out w @ [(ch, m)]"
  "sent (emit ch m w) = sent w"
  "asked (emit ch m w) = asked w"
  by (simp_all add: emit_def)

definition exists :: "world \<Rightarrow> path \<Rightarrow> bool" where
  "exists w p \<longleftrightarrow> fs w p \<noteq> None"

section \<open>Sample environment and state\<close>

text \<open>
  The environment and the states at which the witnesses of the development are
  evaluated: everything is permitted, the model is loaded and answers every review
  prompt with the same text and every fix prompt with the file's code in a fenced
  block, the user declines, and the listing has one directory with two files.
\<close>

definition sample_env :: env where
  "sample_env =
     \<lparr>can_read = (\<lambda>_. True), can_write = (\<lambda>_. True), model_loaded = True,
      model_reply = (\<lambda>n p. case p of
          ReviewPrompt u c \<Rightarrow> Text ''no error''
        | FixPrompt r f l c \<Rightarrow> Text (''```'' @ l @ [NL] @ c @ ''# ok'' @ [NL] @ ''```'')),
      walk = (\<lambda>d. [(d, [], [''a.py'', ''readme.md''])]),
      user_says = (\<lambda>n p. False), user_types = (\<lambda>n p. Some ''n''),
      openpyxl_installed = False\<rparr>"

definition world_of :: "(path \<rightharpoonup> node) \<Rightarrow> world" where
  "world_of m = \<lparr>fs = m, out = [], sent = [], asked = 0\<rparr>"

lemma world_of_simps [simp]:
  "fs (world_of m) = m" "out (world_of m) = []" "sent (world_of m) = []" "asked (world_of m) = 0"
  by (simp_all add: world_of_def)

lemma sample_env_simps [simp]:
  "can_read sample_env p" "can_write sample_env p" "model_loaded sample_env"
  "\<not> user_says sample_env n p" "\<not> openpyxl_installed sample_env"
  by (simp_all add: sample_env_def)

end
