(* ===== verification/FileSystem.thy ===== *)
theory FileSystem
  imports World CodeFences
begin

text \<open>
  The file operations of \<^verbatim>\<open>src/app.py\<close>: \<^verbatim>\<open>read_file\<close> (lines 66 to 72),
  \<^verbatim>\<open>safe_backup\<close> (lines 74 to 80) and \<^verbatim>\<open>write_file\<close> (lines 94 to 102).  Each catches
  every exception and prints a message instead, so each is a total function on the
  state; the failure is visible in the result (\<open>None\<close> for a failed read) and in the
  output.

  \<^item> \<^verbatim>\<open>open(p, 'r')\<close> reads in text mode with universal newlines: \<open>read_file\<close>
    returns the stored text with every \<^verbatim>\<open>\r\n\<close> and \<^verbatim>\<open>\r\<close> turned into \<^verbatim>\<open>\n\<close>.
  \<^item> \<^verbatim>\<open>shutil.copyfile\<close> is \<open>copyfile\<close>: it copies any node but a directory, and fails
    when the source is missing or unreadable or the target cannot be created.
  \<^item> \<^verbatim>\<open>open(p, 'w')\<close> followed by \<^verbatim>\<open>write\<close> is \<open>write_text\<close>; the write is atomic in the
    model (a failure after the file was truncated is not modelled).

  The lemmas show what a write changes (the file and, at most, its backup), that a
  backup is taken once and keeps the first content, and what happens when the backup
  or the write fails.
\<close>

section \<open>Operations\<close>

abbreviation CR :: char where
  "CR \<equiv> CHR 0x0D"

fun universal_newlines :: "string \<Rightarrow> string" where
  "universal_newlines [] = []"
| "universal_newlines [c] = (if c = CR then [NL] else [c])"
| "universal_newlines (c # d # r) =
     (if c = CR then NL # (if d = NL then universal_newlines r else universal_newlines (d # r))
      else c # universal_newlines (d # r))"

definition read_file :: "env \<Rightarrow> path \<Rightarrow> world \<Rightarrow> string option \<times> world" where
  "read_file e file_path w =
     (case fs w file_path of
        Some (File c) \<Rightarrow>
          if can_read e file_path then (Some (universal_newlines c), w)
          else (None, emit Console (ErrorReading file_path) w)
      | _ \<Rightarrow> (None, emit Console (ErrorReading file_path) w))"

definition creatable :: "env \<Rightarrow> world \<Rightarrow> path \<Rightarrow> bool" where
  "creatable e w p \<longleftrightarrow> can_write e p \<and> fs w p \<noteq> Some Dir"

definition copyfile :: "env \<Rightarrow> path \<Rightarrow> path \<Rightarrow> world \<Rightarrow> world option" where
  "copyfile e src dst w =
     (case fs w src of
        None \<Rightarrow> None
      | Some Dir \<Rightarrow> None
      | Some n \<Rightarrow>
          if can_read e src \<and> creatable e w dst then Some (w\<lparr>fs := (fs w)(dst \<mapsto> n)\<rparr>) else None)"

definition bak :: "path \<Rightarrow> path" where
  "bak file_path = file_path @ ''.bak''"

definition safe_backup :: "env \<Rightarrow> path \<Rightarrow> world \<Rightarrow> world" where
  "safe_backup e file_path w =
     (if \<not> exists w (bak file_path) \<and> exists w file_path
      then (case copyfile e file_path (bak file_path) w of
              Some w' \<Rightarrow> w'
            | None \<Rightarrow> emit Console (BackupWarning file_path) w)
      else w)"

definition write_text :: "env \<Rightarrow> path \<Rightarrow> string \<Rightarrow> world \<Rightarrow> world option" where
  "write_text e p s w = (if creatable e w p then Some (w\<lparr>fs := (fs w)(p \<mapsto> File s)\<rparr>) else None)"

definition write_file :: "env \<Rightarrow> path \<Rightarrow> string \<Rightarrow> world \<Rightarrow> world" where
  "write_file e file_path new_code w =
     (let w1 = safe_backup e file_path w;
          cleaned = clean_code_fences new_code
      in case write_text e file_path cleaned w1 of
           Some w2 \<Rightarrow> emit Console (Updated file_path) w2
         | None \<Rightarrow> emit Console (ErrorWriting file_path) w1)"

lemmas fs_defs = write_file_def write_text_def safe_backup_def copyfile_def creatable_def
  read_file_def exists_def

section \<open>Reading\<close>

lemma read_file_world [simp]:
  "fs (snd (read_file e p w)) = fs w"
  "sent (snd (read_file e p w)) = sent w"
  "asked (snd (read_file e p w)) = asked w"
  by (simp_all add: read_file_def split: option.splits node.splits)

lemma read_file_Some:
  "fst (read_file e p w) = Some c \<longleftrightarrow>
   (\<exists>t. fs w p = Some (File t) \<and> can_read e p \<and> c = universal_newlines t)"
  by (auto simp: read_file_def split: option.splits node.splits)

lemma read_file_Some_world: "fst (read_file e p w) = Some c \<Longrightarrow> snd (read_file e p w) = w"
  by (auto simp: read_file_def split: option.splits node.splits if_splits)

lemma universal_newlines_no_CR: "CR \<notin> set s \<Longrightarrow> universal_newlines s = s"
  by (induction s rule: universal_newlines.induct) auto

lemma universal_newlines_eq_Nil [simp]: "universal_newlines s = [] \<longleftrightarrow> s = []"
  by (cases s rule: universal_newlines.cases) auto

section \<open>The backup\<close>

lemma bak_neq [simp]: "bak p \<noteq> p" "p \<noteq> bak p"
  by (simp_all add: bak_def)

lemma bak_inj [simp]: "bak p = bak q \<longleftrightarrow> p = q"
  by (simp add: bak_def)

text \<open>
  \<open>backed_up e p m\<close>: on the file system \<open>m\<close> the call \<^verbatim>\<open>safe_backup(p)\<close> creates the
  backup.
\<close>

definition backed_up :: "env \<Rightarrow> path \<Rightarrow> (path \<rightharpoonup> node) \<Rightarrow> bool" where
  "backed_up e p m \<longleftrightarrow>
     m (bak p) = None \<and> m p \<noteq> None \<and> m p \<noteq> Some Dir \<and> can_read e p \<and> can_write e (bak p)"

lemma safe_backup_fs:
  "fs (safe_backup e p w) = (if backed_up e p (fs w) then (fs w)(bak p := fs w p) else fs w)"
proof (cases "fs w p")
  case None
  then show ?thesis by (simp add: fs_defs backed_up_def)
next
  case (Some n)
  then show ?thesis by (cases n) (auto simp: fs_defs backed_up_def)
qed

lemma safe_backup_frame: "q \<noteq> bak p \<Longrightarrow> fs (safe_backup e p w) q = fs w q"
  by (simp add: safe_backup_fs)

lemma safe_backup_keeps: "fs w (bak p) = Some n \<Longrightarrow> fs (safe_backup e p w) = fs w"
  by (simp add: safe_backup_fs backed_up_def)

lemma safe_backup_sent [simp]: "sent (safe_backup e p w) = sent w" "asked (safe_backup e p w) = asked w"
  by (simp_all add: fs_defs split: option.splits node.splits)

lemma safe_backup_ok:
  assumes "fs w p = Some n" and "n \<noteq> Dir" and "fs w (bak p) = None"
    and "can_read e p" and "can_write e (bak p)"
  shows "fs (safe_backup e p w) = (fs w)(bak p \<mapsto> n)"
  using assms by (simp add: safe_backup_fs backed_up_def)

section \<open>Writing\<close>

lemma write_file_frame:
  "q \<noteq> p \<Longrightarrow> q \<noteq> bak p \<Longrightarrow> fs (write_file e p x w) q = fs w q"
  by (auto simp: write_file_def write_text_def Let_def safe_backup_frame split: if_splits)

lemma write_file_ok:
  assumes "can_write e p" and "fs w p \<noteq> Some Dir"
  shows "fs (write_file e p x w) p = Some (File (clean_code_fences x))"
  using assms by (simp add: write_file_def write_text_def creatable_def Let_def safe_backup_frame)

lemma write_file_bak:
  "fs (write_file e p x w) (bak p) = fs (safe_backup e p w) (bak p)"
  by (simp add: write_file_def write_text_def Let_def)

lemma write_file_fs:
  "fs (write_file e p x w) =
     (let m = fs (safe_backup e p w)
      in if can_write e p \<and> m p \<noteq> Some Dir then m(p \<mapsto> File (clean_code_fences x)) else m)"
  by (simp add: write_file_def write_text_def creatable_def Let_def)

lemma write_file_fs_cong:
  "fs w = fs w' \<Longrightarrow> fs (write_file e p x w) = fs (write_file e p x w')"
  by (simp add: write_file_fs safe_backup_fs)

text \<open>No operation creates or removes a directory.\<close>

lemma safe_backup_Dir: "fs (safe_backup e p w) q = Some Dir \<longleftrightarrow> fs w q = Some Dir"
  by (auto simp: safe_backup_fs backed_up_def)

lemma write_file_Dir: "fs (write_file e p x w) q = Some Dir \<longleftrightarrow> fs w q = Some Dir"
  by (auto simp: write_file_fs Let_def safe_backup_Dir)

lemma write_file_world [simp]:
  "sent (write_file e p x w) = sent w" "asked (write_file e p x w) = asked w"
  by (simp_all add: write_file_def write_text_def Let_def)

section \<open>Properties\<close>

text \<open>
  C3: The backup is taken once and keeps the first content: after two writes to a
  file that had no backup, the backup holds the content from before the first
  write, and the file holds the second cleaned text.
\<close>

theorem write_file_backup_once:
  assumes "fs w p = Some (File c)" and "fs w (bak p) = None"
    and "can_read e p" and "can_write e (bak p)" and "can_write e p"
  shows "fs (write_file e p y (write_file e p x w)) (bak p) = Some (File c)
       \<and> fs (write_file e p y (write_file e p x w)) p = Some (File (clean_code_fences y))"
proof -
  let ?w1 = "write_file e p x w"
  have b1: "fs ?w1 (bak p) = Some (File c)"
    using assms by (simp add: write_file_bak safe_backup_ok)
  have p1: "fs ?w1 p = Some (File (clean_code_fences x))"
    using assms by (simp add: write_file_ok)
  have "fs (write_file e p y ?w1) (bak p) = Some (File c)"
    using b1 by (simp add: write_file_bak safe_backup_keeps)
  moreover have "fs (write_file e p y ?w1) p = Some (File (clean_code_fences y))"
    using assms(5) p1 by (simp add: write_file_ok)
  ultimately show ?thesis by simp
qed

theorem write_file_backup_once_witness:
  "fs (world_of [''a.py'' \<mapsto> File ''x'']) ''a.py'' = Some (File ''x'')
   \<and> fs (world_of [''a.py'' \<mapsto> File ''x'']) (bak ''a.py'') = None
   \<and> can_read sample_env ''a.py'' \<and> can_write sample_env (bak ''a.py'')
   \<and> can_write sample_env ''a.py''
   \<and> fs (write_file sample_env ''a.py'' ''z''
          (write_file sample_env ''a.py'' ''y'' (world_of [''a.py'' \<mapsto> File ''x''])))
        (bak ''a.py'') = Some (File ''x'')"
proof -
  have h1: "fs (world_of [''a.py'' \<mapsto> File ''x'']) ''a.py'' = Some (File ''x'')" by simp
  have h2: "fs (world_of [''a.py'' \<mapsto> File ''x'']) (bak ''a.py'') = None" by simp
  show ?thesis
    using h1 h2 write_file_backup_once [OF h1 h2, of sample_env "''z''" "''y''"] by simp
qed

text \<open>
  Taking the backup twice is taking it once: a second \<open>safe_backup\<close> leaves the
  file system as the first one left it.
\<close>

theorem safe_backup_idem: "fs (safe_backup e p (safe_backup e p w)) = fs (safe_backup e p w)"
proof -
  have "\<not> backed_up e p (fs (safe_backup e p w))"
    by (cases "backed_up e p (fs w)") (auto simp: safe_backup_fs backed_up_def)
  then show ?thesis by (simp add: safe_backup_fs [of e p "safe_backup e p w"])
qed

text \<open>
  A write touches the file and its backup only: every other path holds after
  \<open>write_file\<close> what it held before.
\<close>

theorem write_file_only_touches:
  "{q. fs (write_file e p x w) q \<noteq> fs w q} \<subseteq> {p, bak p}"
  using write_file_frame [of _ p e x w] by blast

text \<open>
  C37: A failed backup does not stop the write: when the backup cannot be created
  but the file can be written, the file is overwritten, no backup exists afterwards
  and only a warning is printed, so the previous content is lost.
\<close>

theorem write_file_without_backup:
  assumes "fs w p = Some (File c)" and "fs w (bak p) = None"
    and "\<not> can_write e (bak p)" and "can_write e p"
  shows "fs (write_file e p x w) p = Some (File (clean_code_fences x))
       \<and> fs (write_file e p x w) (bak p) = None
       \<and> (Console, BackupWarning p) \<in> set (out (write_file e p x w))"
  using assms
  by (simp add: write_file_def write_text_def creatable_def Let_def safe_backup_fs backed_up_def
      safe_backup_def exists_def copyfile_def)

theorem write_file_without_backup_witness:
  "fs (world_of [''a.py'' \<mapsto> File ''x'']) ''a.py'' = Some (File ''x'')
   \<and> fs (world_of [''a.py'' \<mapsto> File ''x'']) (bak ''a.py'') = None
   \<and> \<not> can_write (sample_env\<lparr>can_write := (\<lambda>p. p = ''a.py'')\<rparr>) (bak ''a.py'')
   \<and> can_write (sample_env\<lparr>can_write := (\<lambda>p. p = ''a.py'')\<rparr>) ''a.py''
   \<and> fs (write_file (sample_env\<lparr>can_write := (\<lambda>p. p = ''a.py'')\<rparr>) ''a.py'' ''y''
          (world_of [''a.py'' \<mapsto> File ''x''])) (bak ''a.py'') = None"
proof -
  let ?e = "sample_env\<lparr>can_write := (\<lambda>p. p = ''a.py'')\<rparr>"
  have h1: "fs (world_of [''a.py'' \<mapsto> File ''x'']) ''a.py'' = Some (File ''x'')" by simp
  have h2: "fs (world_of [''a.py'' \<mapsto> File ''x'']) (bak ''a.py'') = None" by simp
  have h3: "\<not> can_write ?e (bak ''a.py'')" by (simp add: bak_def)
  have h4: "can_write ?e ''a.py''" by simp
  show ?thesis
    using h1 h2 h3 h4 write_file_without_backup [OF h1 h2 h3 h4, of "''y''"] by blast
qed

text \<open>
  Reading a file back after a successful write gives the cleaned text, with
  carriage returns turned into newlines by the text-mode read.
\<close>

theorem read_file_write_file:
  assumes "can_write e p" and "can_read e p" and "fs w p \<noteq> Some Dir"
  shows "fst (read_file e p (write_file e p x w)) = Some (universal_newlines (clean_code_fences x))"
  using write_file_ok [OF assms(1,3), of x] assms(2) by (simp add: read_file_def)

theorem read_file_write_file_witness:
  "can_write sample_env ''a.py'' \<and> can_read sample_env ''a.py''
   \<and> fs (world_of Map.empty) ''a.py'' \<noteq> Some Dir
   \<and> fst (read_file sample_env ''a.py'' (write_file sample_env ''a.py'' ''x = 1'' (world_of Map.empty)))
     = Some ''x = 1\<newline>''"
proof -
  have h1: "can_write sample_env ''a.py''" and h2: "can_read sample_env ''a.py''" by simp_all
  have h3: "fs (world_of Map.empty) ''a.py'' \<noteq> Some Dir" by simp
  have c: "universal_newlines (clean_code_fences ''x = 1'') = ''x = 1\<newline>''" by code_simp
  show ?thesis using h3 read_file_write_file [OF h1 h2 h3, of "''x = 1''"] by (simp add: c)
qed

text \<open>
  A write that cannot open the file leaves the file as it was and reports the
  error on the console; the backup has been attempted before.
\<close>

theorem write_file_fails:
  assumes "\<not> can_write e p \<or> fs w p = Some Dir"
  shows "fs (write_file e p x w) p = fs w p
       \<and> last (out (write_file e p x w)) = (Console, ErrorWriting p)
       \<and> fs (write_file e p x w) (bak p) = fs (safe_backup e p w) (bak p)"
  using assms
  by (auto simp: write_file_def write_text_def creatable_def Let_def safe_backup_frame)

theorem write_file_fails_witness:
  "fs (write_file (sample_env\<lparr>can_write := (\<lambda>p. p \<noteq> ''a.py'')\<rparr>) ''a.py'' ''y''
          (world_of [''a.py'' \<mapsto> File ''x''])) ''a.py'' = Some (File ''x'')"
proof -
  let ?e = "sample_env\<lparr>can_write := (\<lambda>p. p \<noteq> ''a.py'')\<rparr>"
  have h: "\<not> can_write ?e ''a.py'' \<or> fs (world_of [''a.py'' \<mapsto> File ''x'']) ''a.py'' = Some Dir"
    by simp
  show ?thesis using write_file_fails [OF h, of "''y''"] by simp
qed

end
