(* ===== verification/Collector.thy ===== *)
theory Collector
  imports World
begin

text \<open>
  The file collector, \<^verbatim>\<open>get_code_files\<close> (lines 54 to 64 of \<^verbatim>\<open>src/app.py\<close>).  The
  directory listing \<^verbatim>\<open>os.walk\<close> yields is the field \<open>walk\<close> of the environment: a list
  of entries \<open>(root, dirs, files)\<close>, empty when the directory does not exist.  The
  collector keeps a file when its lower-cased name ends in one of the supported
  suffixes and no part of its joined path is one of the five ignored directory names,
  and sorts the result (Python compares strings by code point, as the order on
  character lists does).

  The lemmas characterise the members of the result, show that it is sorted and a
  permutation of the kept files, and that it is empty when no file has a supported
  suffix or when the project directory itself lies below an ignored directory name.
\<close>

section \<open>Definitions\<close>

definition SUPPORTED_SUFFIXES :: "string list" where
  "SUPPORTED_SUFFIXES = [''.py'', ''.js'', ''.jsx'', ''.ts'', ''.java'', ''.cpp'', ''.html'', ''.css'']"

definition IGNORED :: "string list" where
  "IGNORED = [''node_modules'', ''.git'', ''__pycache__'', ''dist'', ''build'']"

definition supported :: "string \<Rightarrow> bool" where
  "supported file \<longleftrightarrow> list_ex (\<lambda>s. suffix s (py_lower file)) SUPPORTED_SUFFIXES"

definition ignored :: "path \<Rightarrow> bool" where
  "ignored p \<longleftrightarrow> list_ex (\<lambda>i. i \<in> set (path_parts p)) IGNORED"

definition files_of_dir :: "path \<times> string list \<times> string list \<Rightarrow> path list" where
  "files_of_dir entry =
     (case entry of (root, dirs, files) \<Rightarrow>
        [os_path_join root file. file \<leftarrow> files, supported file, \<not> ignored (os_path_join root file)])"

definition get_code_files :: "env \<Rightarrow> path \<Rightarrow> path list" where
  "get_code_files e directory = sort (concat (map files_of_dir (walk e directory)))"


lemmas collector_defs = get_code_files_def files_of_dir_def ignored_def supported_def
  IGNORED_def SUPPORTED_SUFFIXES_def

text \<open>
  What a listing of \<^verbatim>\<open>os.walk\<close> on directory \<open>d\<close> looks like: every root is below
  \<open>d\<close> and the file names are single path components.
\<close>

definition plain_name :: "string \<Rightarrow> bool" where
  "plain_name f \<longleftrightarrow> f \<noteq> [] \<and> f \<noteq> ''.'' \<and> CHR ''/'' \<notin> set f"

definition walk_wf :: "path \<Rightarrow> (path \<times> string list \<times> string list) list \<Rightarrow> bool" where
  "walk_wf d entries \<longleftrightarrow>
     list_all (\<lambda>(r, ds, fs). r \<noteq> [] \<and> set (path_components d) \<subseteq> set (path_components r)
                 \<and> list_all plain_name fs) entries"

section \<open>Supported and ignored names\<close>

lemma py_lower_char_idem [simp]: "py_lower_char (py_lower_char c) = py_lower_char c"
  by (auto simp: py_lower_char_def Let_def)

lemma py_lower_idem [simp]: "py_lower (py_lower s) = py_lower s"
  by (simp add: py_lower_def)

lemma supported_lower: "supported (py_lower f) = supported f"
  by (simp add: supported_def)

lemma suffix_os_path_join: "suffix file (os_path_join root file)"
  by (auto simp: os_path_join_def suffix_def)

lemma suffix_py_lower: "suffix a b \<Longrightarrow> suffix (py_lower a) (py_lower b)"
  by (auto simp: suffix_def)

lemma supported_join: "supported file \<Longrightarrow> supported (os_path_join root file)"
  unfolding supported_def list_ex_iff
  by (blast intro: suffix_trans suffix_py_lower suffix_os_path_join)

lemma set_files_of_dir:
  "set (files_of_dir (root, dirs, files))
     = {os_path_join root file | file. file \<in> set files \<and> supported file
          \<and> \<not> ignored (os_path_join root file)}"
  by (auto simp: files_of_dir_def)

lemma files_of_dir_Nil:
  assumes "\<And>f. f \<in> set files \<Longrightarrow> \<not> supported f \<or> ignored (os_path_join root f)"
  shows "files_of_dir (root, dirs, files) = []"
proof -
  have "set (files_of_dir (root, dirs, files)) = {}"
    using assms unfolding set_files_of_dir by blast
  then show ?thesis by (simp only: set_empty)
qed

lemma get_code_files_Nil:
  assumes "\<And>entry. entry \<in> set (walk e d) \<Longrightarrow> files_of_dir entry = []"
  shows "get_code_files e d = []"
proof -
  have c: "concat (map files_of_dir (walk e d)) = []" using assms by simp
  show ?thesis unfolding get_code_files_def c by simp
qed

lemma set_get_code_files:
  "set (get_code_files e d) = (\<Union>entry \<in> set (walk e d). set (files_of_dir entry))"
  by (simp add: get_code_files_def)

text \<open>
  The collector returns a sorted list that holds exactly the kept files
  of the listing, each as often as the listing yields it.
\<close>

theorem get_code_files_sorted:
  "sorted (get_code_files e d) \<and> mset (get_code_files e d) = mset (concat (map files_of_dir (walk e d)))"
  by (simp add: get_code_files_def)

text \<open>
  C25: a path is collected exactly when it is the join of a listed root and
  one of its files, the file name has a supported suffix, and no part of the path is
  an ignored directory name.
\<close>

theorem get_code_files_member:
  "p \<in> set (get_code_files e d) \<longleftrightarrow>
     (\<exists>(root, dirs, files) \<in> set (walk e d). \<exists>file \<in> set files.
         p = os_path_join root file \<and> supported file \<and> \<not> ignored p)"
proof
  assume "p \<in> set (get_code_files e d)"
  then obtain entry where en: "entry \<in> set (walk e d)" "p \<in> set (files_of_dir entry)"
    by (auto simp: set_get_code_files)
  obtain root dirs files where entry: "entry = (root, dirs, files)"
    by (cases entry) auto
  with en(2) obtain f where "f \<in> set files" "p = os_path_join root f" "supported f"
    "\<not> ignored p"
    by (auto simp: set_files_of_dir)
  with en(1) entry show "\<exists>(root, dirs, files) \<in> set (walk e d). \<exists>file \<in> set files.
      p = os_path_join root file \<and> supported file \<and> \<not> ignored p"
    by blast
next
  assume "\<exists>(root, dirs, files) \<in> set (walk e d). \<exists>file \<in> set files.
      p = os_path_join root file \<and> supported file \<and> \<not> ignored p"
  then obtain root dirs files f where "(root, dirs, files) \<in> set (walk e d)"
    "f \<in> set files" "p = os_path_join root f" "supported f" "\<not> ignored p"
    by auto
  then have "p \<in> set (files_of_dir (root, dirs, files))"
    by (auto simp: set_files_of_dir)
  with \<open>(root, dirs, files) \<in> set (walk e d)\<close> show "p \<in> set (get_code_files e d)"
    unfolding set_get_code_files by blast
qed

theorem get_code_files_member_witness:
  "''proj/a.py'' \<in> set (get_code_files sample_env ''proj'')"
proof -
  have h: "\<exists>(root, dirs, files) \<in> set (walk sample_env ''proj''). \<exists>file \<in> set files.
      ''proj/a.py'' = os_path_join root file \<and> supported file \<and> \<not> ignored ''proj/a.py''"
    by code_simp
  show ?thesis using get_code_files_member [of "''proj/a.py''" sample_env "''proj''"] h by blast
qed

text \<open>Every collected path has a supported suffix and no ignored part.\<close>

theorem get_code_files_supported:
  "p \<in> set (get_code_files e d) \<Longrightarrow> supported p \<and> \<not> ignored p"
  by (auto simp: set_get_code_files set_files_of_dir supported_join)

theorem get_code_files_supported_witness:
  "supported ''proj/a.py'' \<and> \<not> ignored ''proj/a.py''"
proof -
  have h: "''proj/a.py'' \<in> set (get_code_files sample_env ''proj'')" by code_simp
  show ?thesis by (rule get_code_files_supported [OF h])
qed

lemma get_code_files_unsupported:
  assumes "list_all (\<lambda>(r, ds, fs). list_all (\<lambda>f. \<not> supported f) fs) (walk e d)"
  shows "get_code_files e d = []"
proof (rule get_code_files_Nil)
  fix entry assume "entry \<in> set (walk e d)"
  with assms show "files_of_dir entry = []"
    by (cases entry) (auto simp: list_all_iff intro!: files_of_dir_Nil)
qed

text \<open>
  When no listed file has a supported suffix (a directory that holds only
  \<^verbatim>\<open>readme.md\<close>, say), the collector returns the empty list.
\<close>

theorem get_code_files_none_supported:
  assumes "list_all (\<lambda>(r, ds, fs). list_all (\<lambda>f. \<not> supported f) fs) (walk e d)"
  shows "get_code_files e d = []"
  using assms by (rule get_code_files_unsupported)

theorem get_code_files_none_supported_witness:
  "get_code_files (sample_env\<lparr>walk := (\<lambda>d. [(d, [], [''readme.md''])])\<rparr>) ''proj'' = []"
proof -
  have h: "list_all (\<lambda>(r, ds, fs). list_all (\<lambda>f. \<not> supported f) fs)
      (walk (sample_env\<lparr>walk := (\<lambda>d. [(d, [], [''readme.md''])])\<rparr>) ''proj'')"
    by code_simp
  show ?thesis by (rule get_code_files_none_supported [OF h])
qed

lemma ignored_join:
  assumes "i \<in> set IGNORED" and "i \<in> set (path_components r)" and "plain_name f" and "r \<noteq> []"
  shows "ignored (os_path_join r f)"
proof -
  have "i \<in> set (path_components (os_path_join r f))"
    using assms path_components_join [of f r] by (simp add: plain_name_def)
  with assms(1) show ?thesis by (auto simp: ignored_def list_ex_iff path_parts_def)
qed

text \<open>
  C39: the ignore test looks at every part of the joined path, the parts of
  the project directory included: a project that lies below a directory named
  \<^verbatim>\<open>build\<close>, \<^verbatim>\<open>dist\<close>, \<^verbatim>\<open>.git\<close>, \<^verbatim>\<open>node_modules\<close> or \<^verbatim>\<open>__pycache__\<close> has no source files.
\<close>

theorem get_code_files_ignored_root:
  assumes "walk_wf d (walk e d)" and "i \<in> set IGNORED" and "i \<in> set (path_components d)"
  shows "get_code_files e d = []"
proof (rule get_code_files_Nil)
  fix entry assume that: "entry \<in> set (walk e d)"
  show "files_of_dir entry = []"
  proof (cases entry)
    case (fields r ds fs)
    with that assms(1) have r: "r \<noteq> []" "set (path_components d) \<subseteq> set (path_components r)"
      and fs: "list_all plain_name fs"
      by (auto simp: walk_wf_def list_all_iff)
    have "ignored (os_path_join r f)" if "f \<in> set fs" for f
      using ignored_join [OF assms(2) _ _ r(1), of f] r(2) assms(3) fs that
      by (auto simp: list_all_iff)
    then show ?thesis unfolding fields by (intro files_of_dir_Nil) blast
  qed
qed

theorem get_code_files_ignored_root_witness:
  "get_code_files sample_env ''/home/me/build/proj'' = []"
proof -
  have h: "walk_wf ''/home/me/build/proj'' (walk sample_env ''/home/me/build/proj'')"
    "''build'' \<in> set IGNORED" "''build'' \<in> set (path_components ''/home/me/build/proj'')"
    by code_simp+
  show ?thesis by (rule get_code_files_ignored_root [OF h])
qed

end
