(* ===== verification/Reviewer.thy ===== *)
theory Reviewer
  imports World
begin

text \<open>
  The review requester: \<^verbatim>\<open>generate_content\<close> (lines 132 to 139 of \<^verbatim>\<open>src/app.py\<close>) and
  \<^verbatim>\<open>review_project\<close> (lines 141 to 204).  A call of the model appends the prompt to
  the prompts sent and takes the reply the environment gives to the call of that
  number.  A reply is a text, a response without text (\<^verbatim>\<open>resp.text\<close> is \<^verbatim>\<open>None\<close> or
  empty) or an exception.  The only exception that leaves \<^verbatim>\<open>generate_content\<close> is the
  \<^verbatim>\<open>RuntimeError\<close> raised when the model could not be constructed at start-up.

  A function that can raise returns a pair of an outcome (\<open>Inl\<close> the exception) and
  the state; \<open>and_then\<close> sequences two of them and stops at the first exception.
\<close>

section \<open>Outcomes\<close>

type_synonym 'a outcome = "py_error + 'a"

definition and_then ::
    "'a outcome \<times> world \<Rightarrow> ('a \<Rightarrow> world \<Rightarrow> 'b outcome \<times> world) \<Rightarrow> 'b outcome \<times> world" where
  "and_then r k = (case r of (Inl err, w) \<Rightarrow> (Inl err, w) | (Inr x, w) \<Rightarrow> k x w)"

lemma and_then_simps [simp]:
  "and_then (Inl err, w) k = (Inl err, w)"
  "and_then (Inr x, w) k = k x w"
  by (simp_all add: and_then_def)

lemma and_then_InrD:
  assumes "and_then r k = (Inr y, w')"
  obtains x w1 where "r = (Inr x, w1)" "k x w1 = (Inr y, w')"
  using assms by (auto simp: and_then_def split: prod.splits sum.splits)

lemma and_then_Inl_iff:
  "fst (and_then r k) = Inl err \<longleftrightarrow>
     fst r = Inl err \<or> (\<exists>x. fst r = Inr x \<and> fst (k x (snd r)) = Inl err)"
  by (cases r; cases "fst r") (auto simp: and_then_def)

section \<open>Model calls\<close>

definition call_model :: "env \<Rightarrow> prompt \<Rightarrow> world \<Rightarrow> reply \<times> world" where
  "call_model e p w = (model_reply e (length (sent w)) p, w\<lparr>sent := sent w @ [p]\<rparr>)"

definition generate_content :: "env \<Rightarrow> prompt \<Rightarrow> world \<Rightarrow> string outcome \<times> world" where
  "generate_content e p w =
     (if \<not> model_loaded e then (Inl RuntimeError, w)
      else case call_model e p w of
             (Text t, w') \<Rightarrow> (Inr (str_or t []), w')
           | (NoText, w') \<Rightarrow> (Inr [], w')
           | (Raises err, w') \<Rightarrow> (Inr (''Error: '' @ err), w'))"

definition review_project :: "env \<Rightarrow> string \<Rightarrow> string option \<Rightarrow> world \<Rightarrow> string outcome \<times> world" where
  "review_project e all_code user_prompt w =
     generate_content e (ReviewPrompt (or_else user_prompt ''N/A'') all_code) w"

lemmas reviewer_defs = review_project_def generate_content_def call_model_def

text \<open>The text \<^verbatim>\<open>generate_content\<close> makes of a reply.\<close>

definition reply_text :: "reply \<Rightarrow> string" where
  "reply_text r = (case r of Text t \<Rightarrow> t | NoText \<Rightarrow> [] | Raises err \<Rightarrow> ''Error: '' @ err)"

definition is_review :: "prompt \<Rightarrow> bool" where
  "is_review p = (case p of ReviewPrompt u c \<Rightarrow> True | FixPrompt r f l c \<Rightarrow> False)"

lemma is_review_simps [simp]:
  "is_review (ReviewPrompt u c)" "\<not> is_review (FixPrompt r f l c)"
  by (simp_all add: is_review_def)

section \<open>Effect of a call\<close>

lemma call_model_world [simp]:
  "fs (snd (call_model e p w)) = fs w"
  "out (snd (call_model e p w)) = out w"
  "sent (snd (call_model e p w)) = sent w @ [p]"
  "asked (snd (call_model e p w)) = asked w"
  "fst (call_model e p w) = model_reply e (length (sent w)) p"
  by (simp_all add: call_model_def)

lemma generate_content_frame [simp]:
  "fs (snd (generate_content e p w)) = fs w"
  "out (snd (generate_content e p w)) = out w"
  "asked (snd (generate_content e p w)) = asked w"
  by (simp_all add: reviewer_defs split: reply.splits)

lemma generate_content_sent:
  "sent (snd (generate_content e p w)) = (if model_loaded e then sent w @ [p] else sent w)"
  by (simp add: reviewer_defs split: reply.splits)

lemma generate_content_loaded:
  "model_loaded e \<Longrightarrow>
   generate_content e p w
     = (Inr (reply_text (model_reply e (length (sent w)) p)), w\<lparr>sent := sent w @ [p]\<rparr>)"
  by (simp add: reviewer_defs reply_text_def str_or_def split: reply.splits)

lemma generate_content_Inl:
  "fst (generate_content e p w) = Inl err \<longleftrightarrow> \<not> model_loaded e \<and> err = RuntimeError"
  by (auto simp: reviewer_defs split: reply.splits)

lemma review_project_frame [simp]:
  "fs (snd (review_project e c u w)) = fs w"
  "out (snd (review_project e c u w)) = out w"
  "asked (snd (review_project e c u w)) = asked w"
  by (simp_all add: review_project_def)

lemma review_project_Inl:
  "fst (review_project e c u w) = Inl err \<longleftrightarrow> \<not> model_loaded e \<and> err = RuntimeError"
  by (simp add: review_project_def generate_content_Inl)

lemma review_project_sent:
  "sent (snd (review_project e c u w))
     = (if model_loaded e then sent w @ [ReviewPrompt (or_else u ''N/A'') c] else sent w)"
  by (simp add: review_project_def generate_content_sent)

section \<open>Properties\<close>

text \<open>
  When the model could not be constructed at start-up, \<open>generate_content\<close>
  raises \<^verbatim>\<open>RuntimeError\<close> and sends nothing; it does not return an error text.
\<close>

theorem generate_content_unavailable:
  "\<not> model_loaded e \<Longrightarrow> generate_content e p w = (Inl RuntimeError, w)"
  by (simp add: generate_content_def)

theorem generate_content_unavailable_witness:
  "generate_content (sample_env\<lparr>model_loaded := False\<rparr>) (ReviewPrompt ''N/A'' ''x'') (world_of Map.empty)
     = (Inl RuntimeError, world_of Map.empty)"
proof -
  have h: "\<not> model_loaded (sample_env\<lparr>model_loaded := False\<rparr>)" by simp
  show ?thesis by (rule generate_content_unavailable [OF h])
qed

text \<open>
  With a model, \<open>generate_content\<close> always returns a text and sends exactly the
  given prompt: the reply's text, the empty text when the reply has none, and the
  text \<^verbatim>\<open>Error: ...\<close> when the service raises.
\<close>

theorem generate_content_returns:
  assumes "model_loaded e"
  shows "generate_content e p w =
           (Inr (case model_reply e (length (sent w)) p of
                   Text t \<Rightarrow> t | NoText \<Rightarrow> [] | Raises err \<Rightarrow> ''Error: '' @ err),
            w\<lparr>sent := sent w @ [p]\<rparr>)"
  using assms by (simp add: reviewer_defs str_or_def split: reply.splits)

theorem generate_content_returns_witness:
  "generate_content (sample_env\<lparr>model_reply := (\<lambda>n p. Raises ''quota'')\<rparr>)
       (ReviewPrompt ''N/A'' ''x'') (world_of Map.empty)
     = (Inr ''Error: quota'', (world_of Map.empty)\<lparr>sent := [ReviewPrompt ''N/A'' ''x'']\<rparr>)"
proof -
  have h: "model_loaded (sample_env\<lparr>model_reply := (\<lambda>n p. Raises ''quota'')\<rparr>)" by simp
  show ?thesis using generate_content_returns [OF h] by simp
qed

text \<open>
  The review prompt carries the user's requirement, and \<^verbatim>\<open>N/A\<close> in its place
  when there is none or it is empty, followed by the batch text.
\<close>

theorem review_project_prompt:
  assumes "model_loaded e"
  shows "sent (snd (review_project e all_code u w))
           = sent w @ [ReviewPrompt (case u of None \<Rightarrow> ''N/A'' | Some s \<Rightarrow> if s = [] then ''N/A'' else s)
                         all_code]"
  using assms by (simp add: review_project_sent or_else_def str_or_def split: option.splits)

theorem review_project_prompt_witness:
  "sent (snd (review_project sample_env ''code'' (Some '''') (world_of Map.empty)))
     = [ReviewPrompt ''N/A'' ''code'']"
proof -
  have h: "model_loaded sample_env" by simp
  show ?thesis using review_project_prompt [OF h, of "''code''" "Some ''''" "world_of Map.empty"] by simp
qed

end
