(* ===== verification/FixApplier.thy ===== *)
theory FixApplier
  imports FileSystem Reviewer
begin

text \<open>
  The fix applier, \<^verbatim>\<open>auto_fix_project\<close> (lines 206 to 277 of \<^verbatim>\<open>src/app.py\<close>).  Its keyword
  arguments are the record \<open>fix_opts\<close>; \<open>prompt_func\<close> and \<open>ui_logger\<close> say whether a
  callback was passed, the answers of the callback and of \<^verbatim>\<open>input\<close> come from the
  environment, numbered by the questions asked so far.  The body of the loop is
  \<open>fix_file\<close>, the decision after the model's reply is \<open>decide_fix\<close>, the loop is
  \<open>fix_files\<close>.  Line 219 constructs the model again; the construction is taken to
  fail exactly when it failed at start-up, and then the call raises.

  Every exception inside the loop body is caught at line 276: a reply without text
  (\<^verbatim>\<open>resp.text\<close> is \<^verbatim>\<open>None\<close>), a failing service, a missing callback and an end of input
  all print the error on the console and go on with the next file.

  The lemmas give the file system, the prompts sent and the number of questions
  after one file and after the loop; the properties are the three decision policies,
  the frame of the loop and the shape of its prompts.
\<close>

section \<open>Options and output\<close>

record fix_opts =
  apply_all :: bool
  interactive :: bool
  prompt_func :: bool
  ui_logger :: bool

definition say :: "fix_opts \<Rightarrow> msg \<Rightarrow> world \<Rightarrow> world" where
  "say opts m w = emit (if ui_logger opts then Ui else Console) m w"

definition truncated :: "nat \<Rightarrow> string \<Rightarrow> string" where
  "truncated n s = take n s @ (if n < length s then ''\<newline>...[truncated]\<newline>'' else [NL])"

definition show_fix :: "fix_opts \<Rightarrow> path \<Rightarrow> string \<Rightarrow> world \<Rightarrow> world" where
  "show_fix opts file_path new_code w =
     (let w1 = emit Console (SuggestedFix file_path) w
      in if ui_logger opts
         then emit Ui (FixText (truncated 3000 new_code)) (emit Ui (SuggestedFix file_path) w1)
         else emit Console (MarkdownOut (take 3000 new_code)) w1)"

section \<open>The user's answer\<close>

definition ask_user :: "env \<Rightarrow> path \<Rightarrow> world \<Rightarrow> bool \<times> world" where
  "ask_user e p w = (user_says e (asked w) p, w\<lparr>asked := Suc (asked w)\<rparr>)"

definition read_input :: "env \<Rightarrow> path \<Rightarrow> world \<Rightarrow> string option \<times> world" where
  "read_input e p w =
     (user_types e (asked w) p, (emit Console (InputPrompt p) w)\<lparr>asked := Suc (asked w)\<rparr>)"

section \<open>Fixing one file and all files\<close>

definition decide_fix :: "env \<Rightarrow> fix_opts \<Rightarrow> path \<Rightarrow> string \<Rightarrow> world \<Rightarrow> world" where
  "decide_fix e opts file_path new_code w =
     (if apply_all opts then write_file e file_path new_code w
      else if interactive opts then
        (if ui_logger opts then
           (if \<not> prompt_func opts then emit Console (ErrorFixing file_path) w
            else case ask_user e file_path w of
                   (True, w') \<Rightarrow> write_file e file_path new_code w'
                 | (False, w') \<Rightarrow> emit Ui (Skipped file_path) w')
         else
           (case read_input e file_path w of
              (None, w') \<Rightarrow> emit Console (ErrorFixing file_path) w'
            | (Some line, w') \<Rightarrow>
                if py_lower (py_strip line) = ''y'' then write_file e file_path new_code w'
                else emit Console (Skipped file_path) w'))
      else say opts (SkippedNonInteractive file_path) w)"

definition fix_prompt :: "string \<Rightarrow> path \<Rightarrow> string \<Rightarrow> prompt" where
  "fix_prompt review_output file_path code =
     FixPrompt review_output file_path (drop 1 (path_suffix file_path)) code"

definition fix_file :: "env \<Rightarrow> fix_opts \<Rightarrow> string \<Rightarrow> path \<Rightarrow> world \<Rightarrow> world" where
  "fix_file e opts review_output file_path w =
     (case read_file e file_path w of
        (None, w1) \<Rightarrow> w1
      | (Some code, w1) \<Rightarrow>
          if code = [] then w1
          else case call_model e (fix_prompt review_output file_path code) w1 of
                 (Text t, w2) \<Rightarrow>
                   let new_code = py_strip t
                   in decide_fix e opts file_path new_code (show_fix opts file_path new_code w2)
               | (_, w2) \<Rightarrow> emit Console (ErrorFixing file_path) w2)"

definition fix_files :: "env \<Rightarrow> fix_opts \<Rightarrow> string \<Rightarrow> path list \<Rightarrow> world \<Rightarrow> world" where
  "fix_files e opts review_output files_to_process w =
     foldl (\<lambda>w file_path. fix_file e opts review_output file_path w) w files_to_process"

definition auto_fix_project ::
    "env \<Rightarrow> path \<Rightarrow> string \<Rightarrow> path list \<Rightarrow> fix_opts \<Rightarrow> world \<Rightarrow> unit outcome \<times> world" where
  "auto_fix_project e path review_output files_to_process opts w =
     (if \<not> model_loaded e then (Inl ModelError, w)
      else (Inr (), fix_files e opts review_output files_to_process w))"

lemmas fix_defs = decide_fix_def ask_user_def read_input_def show_fix_def say_def

section \<open>The decision\<close>

text \<open>
  \<open>approved e opts p n\<close>: the suggested fix for \<open>p\<close> is written when the decision is the
  \<open>n\<close>-th question put to the user.
\<close>

definition approved :: "env \<Rightarrow> fix_opts \<Rightarrow> path \<Rightarrow> nat \<Rightarrow> bool" where
  "approved e opts p n \<longleftrightarrow>
     apply_all opts \<or>
     (interactive opts \<and>
       (if ui_logger opts then prompt_func opts \<and> user_says e n p
        else case user_types e n p of
               None \<Rightarrow> False
             | Some line \<Rightarrow> py_lower (py_strip line) = ''y''))"

text \<open>The source text of a file as the fix applier sees it, when it goes on with it.\<close>

definition code_of :: "env \<Rightarrow> world \<Rightarrow> path \<Rightarrow> string option" where
  "code_of e w p =
     (case fs w p of
        Some (File c) \<Rightarrow> if can_read e p \<and> c \<noteq> [] then Some (universal_newlines c) else None
      | _ \<Rightarrow> None)"

lemma show_fix_world [simp]:
  "fs (show_fix opts p c w) = fs w" "sent (show_fix opts p c w) = sent w"
  "asked (show_fix opts p c w) = asked w"
  by (simp_all add: show_fix_def Let_def)

lemma decide_fix_fs:
  "fs (decide_fix e opts p c w)
     = (if approved e opts p (asked w) then fs (write_file e p c w) else fs w)"
  by (auto simp: fix_defs approved_def split: option.splits bool.splits
      intro!: write_file_fs_cong)

lemma decide_fix_sent [simp]: "sent (decide_fix e opts p c w) = sent w"
  by (auto simp: fix_defs split: option.splits bool.splits)

lemma decide_fix_asked:
  "asked (decide_fix e opts p c w)
     = (if \<not> apply_all opts \<and> interactive opts \<and> (ui_logger opts \<longrightarrow> prompt_func opts)
        then Suc (asked w) else asked w)"
  by (auto simp: fix_defs split: option.splits bool.splits)

lemma fix_file_fs:
  "fs (fix_file e opts r p w) =
     (case code_of e w p of
        None \<Rightarrow> fs w
      | Some code \<Rightarrow>
          (case model_reply e (length (sent w)) (fix_prompt r p code) of
             Text t \<Rightarrow> if approved e opts p (asked w) then fs (write_file e p (py_strip t) w) else fs w
           | _ \<Rightarrow> fs w))"
  by (auto simp: fix_file_def read_file_def code_of_def call_model_def decide_fix_fs Let_def
      split: option.splits node.splits reply.splits intro!: write_file_fs_cong)

lemma fix_file_sent:
  "sent (fix_file e opts r p w) =
     (case code_of e w p of None \<Rightarrow> sent w | Some code \<Rightarrow> sent w @ [fix_prompt r p code])"
  by (auto simp: fix_file_def read_file_def code_of_def call_model_def Let_def
      split: option.splits node.splits reply.splits)

lemma fix_file_frame:
  "q \<noteq> p \<Longrightarrow> q \<noteq> bak p \<Longrightarrow> fs (fix_file e opts r p w) q = fs w q"
  by (simp add: fix_file_fs write_file_frame split: option.splits reply.splits)

lemma fix_file_asked:
  "asked w \<le> asked (fix_file e opts r p w) \<and> asked (fix_file e opts r p w) \<le> Suc (asked w)
   \<and> (apply_all opts \<longrightarrow> asked (fix_file e opts r p w) = asked w)"
  by (auto simp: fix_file_def read_file_def call_model_def decide_fix_asked Let_def
      split: option.splits node.splits reply.splits)

section \<open>The loop over the files\<close>

lemma fix_files_simps [simp]:
  "fix_files e opts r [] w = w"
  "fix_files e opts r (f # files) w = fix_files e opts r files (fix_file e opts r f w)"
  "fix_files e opts r (files @ [f]) w = fix_file e opts r f (fix_files e opts r files w)"
  by (simp_all add: fix_files_def)

lemma fix_files_frame:
  "q \<notin> set files \<Longrightarrow> q \<notin> bak ` set files \<Longrightarrow> fs (fix_files e opts r files w) q = fs w q"
  by (induction files arbitrary: w) (auto simp: fix_file_frame)

lemma fix_file_Dir: "fs (fix_file e opts r p w) q = Some Dir \<longleftrightarrow> fs w q = Some Dir"
  by (simp add: fix_file_fs write_file_Dir split: option.splits reply.splits)

lemma fix_files_Dir: "fs (fix_files e opts r files w) q = Some Dir \<longleftrightarrow> fs w q = Some Dir"
  by (induction files arbitrary: w) (simp_all add: fix_file_Dir)

lemma fix_files_unapproved:
  "(\<And>f n. f \<in> set files \<Longrightarrow> \<not> approved e opts f n) \<Longrightarrow> fs (fix_files e opts r files w) = fs w"
  by (induction files arbitrary: w) (auto simp: fix_file_fs split: option.splits reply.splits)

lemma fix_files_asked:
  "asked w \<le> asked (fix_files e opts r files w)
   \<and> asked (fix_files e opts r files w) \<le> asked w + length files
   \<and> (apply_all opts \<longrightarrow> asked (fix_files e opts r files w) = asked w)"
proof (induction files arbitrary: w)
  case Nil
  then show ?case by simp
next
  case (Cons f files)
  from Cons [of "fix_file e opts r f w"] fix_file_asked [of w e opts r f]
  show ?case by auto
qed

lemma code_of_nonempty: "code_of e w p = Some c \<Longrightarrow> c \<noteq> []"
  by (auto simp: code_of_def split: option.splits node.splits if_splits)

lemma fix_files_sent:
  "\<exists>fc. sent (fix_files e opts r files w) = sent w @ map (\<lambda>(f, c). fix_prompt r f c) fc
        \<and> subseq (map fst fc) files \<and> [] \<notin> snd ` set fc"
proof (induction files arbitrary: w)
  case Nil
  then show ?case by simp
next
  case (Cons f files)
  from Cons [of "fix_file e opts r f w"] obtain fc where
    fc: "sent (fix_files e opts r (f # files) w)
           = sent (fix_file e opts r f w) @ map (\<lambda>(f, c). fix_prompt r f c) fc"
      "subseq (map fst fc) files" "[] \<notin> snd ` set fc"
    by auto
  show ?case
  proof (cases "code_of e w f")
    case None
    with fc show ?thesis by (intro exI [of _ fc]) (simp add: fix_file_sent list_emb_Cons)
  next
    case (Some c)
    with fc code_of_nonempty [OF Some] show ?thesis
      by (intro exI [of _ "(f, c) # fc"]) (simp add: fix_file_sent)
  qed
qed

lemma auto_fix_project_snd:
  "snd (auto_fix_project e path r files opts w)
     = (if model_loaded e then fix_files e opts r files w else w)"
  by (simp add: auto_fix_project_def)

lemma code_of_File:
  "fs w p = Some (File c) \<Longrightarrow> can_read e p \<Longrightarrow> c \<noteq> [] \<Longrightarrow> code_of e w p = Some (universal_newlines c)"
  by (simp add: code_of_def)

lemma fix_file_written:
  assumes "fs w p = Some (File c)" and "c \<noteq> []" and "can_read e p"
    and "model_reply e (length (sent w)) (fix_prompt r p (universal_newlines c)) = Text t"
    and "approved e opts p (asked w)"
  shows "fs (fix_file e opts r p w) = fs (write_file e p (py_strip t) w)"
  using assms by (simp add: fix_file_fs code_of_File)

section \<open>Properties\<close>

text \<open>
  C5: With \<open>apply_all\<close>, a readable file that is not empty and for which the model
  returns a text is overwritten with the cleaned text without a question to the
  user, and a backup that did not exist before holds the content from before the fix.
\<close>

theorem auto_fix_apply_all:
  assumes "model_loaded e" and "apply_all opts"
    and "fs w p = Some (File c)" and "c \<noteq> []" and "fs w (bak p) = None"
    and "can_read e p" and "can_write e p" and "can_write e (bak p)"
    and "model_reply e (length (sent w)) (fix_prompt r p (universal_newlines c)) = Text t"
  shows "fs (snd (auto_fix_project e path r [p] opts w)) p
           = Some (File (clean_code_fences (py_strip t)))
       \<and> fs (snd (auto_fix_project e path r [p] opts w)) (bak p) = Some (File c)
       \<and> asked (snd (auto_fix_project e path r [p] opts w)) = asked w"
proof -
  have "approved e opts p (asked w)" using assms(2) by (simp add: approved_def)
  then have "fs (fix_file e opts r p w) = fs (write_file e p (py_strip t) w)"
    using assms by (intro fix_file_written)
  moreover have "fs (write_file e p (py_strip t) w) (bak p) = Some (File c)"
    using assms by (simp add: write_file_bak safe_backup_ok)
  moreover have "fs (write_file e p (py_strip t) w) p = Some (File (clean_code_fences (py_strip t)))"
    using assms by (simp add: write_file_ok)
  ultimately show ?thesis
    using assms(1,2) fix_file_asked [of w e opts r p] by (simp add: auto_fix_project_snd)
qed

theorem auto_fix_apply_all_witness:
  "fs (snd (auto_fix_project sample_env ''proj'' ''no error'' [''proj/a.py'']
        \<lparr>apply_all = True, interactive = False, prompt_func = False, ui_logger = False\<rparr>
        (world_of [''proj/a.py'' \<mapsto> File ''x = 1\<newline>'']))) ''proj/a.py''
     = Some (File ''x = 1\<newline># ok\<newline>'')
   \<and> fs (snd (auto_fix_project sample_env ''proj'' ''no error'' [''proj/a.py'']
        \<lparr>apply_all = True, interactive = False, prompt_func = False, ui_logger = False\<rparr>
        (world_of [''proj/a.py'' \<mapsto> File ''x = 1\<newline>'']))) ''proj/a.py.bak''
     = Some (File ''x = 1\<newline>'')"
proof -
  let ?w = "(world_of [''proj/a.py'' \<mapsto> File ''x = 1\<newline>''])"
  let ?t = "''```py\<newline>x = 1\<newline># ok\<newline>```''"
  have h: "model_loaded sample_env"
    "apply_all \<lparr>apply_all = True, interactive = False, prompt_func = False, ui_logger = False\<rparr>"
    "fs ?w ''proj/a.py'' = Some (File ''x = 1\<newline>'')" "''x = 1\<newline>'' \<noteq> []"
    "fs ?w (bak ''proj/a.py'') = None"
    "can_read sample_env ''proj/a.py''" "can_write sample_env ''proj/a.py''"
    "can_write sample_env (bak ''proj/a.py'')"
    by (simp_all add: bak_def)
  have m: "model_reply sample_env (length (sent ?w))
      (fix_prompt ''no error'' ''proj/a.py'' (universal_newlines ''x = 1\<newline>'')) = Text ?t"
    by code_simp
  have c: "clean_code_fences (py_strip ?t) = ''x = 1\<newline># ok\<newline>''" by code_simp
  show ?thesis using auto_fix_apply_all [OF h m, of "''proj''"] by (simp add: c bak_def)
qed

text \<open>
  C6: When no fix is approved (the user answers no to every question, or the run is
  neither interactive nor \<open>apply_all\<close>), the fix applier leaves the file system as it
  was: no file is changed and no backup is created.
\<close>

theorem auto_fix_rejected:
  assumes "\<And>f n. f \<in> set files \<Longrightarrow> \<not> approved e opts f n"
  shows "fs (snd (auto_fix_project e path r files opts w)) = fs w"
  using assms by (simp add: auto_fix_project_snd fix_files_unapproved)

theorem auto_fix_rejected_witness:
  "fs (snd (auto_fix_project sample_env ''proj'' ''no error'' [''proj/a.py'']
        \<lparr>apply_all = False, interactive = True, prompt_func = True, ui_logger = True\<rparr>
        (world_of [''proj/a.py'' \<mapsto> File ''x = 1\<newline>''])))
     = [''proj/a.py'' \<mapsto> File ''x = 1\<newline>'']"
proof -
  have h: "\<not> approved sample_env \<lparr>apply_all = False, interactive = True, prompt_func = True, ui_logger = True\<rparr> f n"
    for f n
    by (simp add: approved_def)
  show ?thesis
    using auto_fix_rejected [of "[''proj/a.py'']" sample_env _ "''proj''" "''no error''", OF h]
    by simp
qed

text \<open>
  The fix applier changes at most the files it is given and their backups.
\<close>

theorem auto_fix_frame:
  "{q. fs (snd (auto_fix_project e path r files opts w)) q \<noteq> fs w q}
     \<subseteq> set files \<union> bak ` set files"
  using fix_files_frame [of _ files e opts r w] by (auto simp: auto_fix_project_snd)

text \<open>
  The prompts the fix applier sends are fix prompts for files of its list, in
  the order of the list and at most one per file; each carries the whole review
  text it was given and a file content that is not empty.
\<close>

theorem auto_fix_prompts:
  "\<exists>fc. sent (snd (auto_fix_project e path r files opts w))
            = sent w @ map (\<lambda>(f, c). fix_prompt r f c) fc
        \<and> subseq (map fst fc) files \<and> [] \<notin> snd ` set fc"
proof (cases "model_loaded e")
  case True
  then show ?thesis using fix_files_sent [of e opts r files w] by (simp add: auto_fix_project_snd)
next
  case False
  then show ?thesis by (intro exI [of _ "[]"]) (simp add: auto_fix_project_snd)
qed

text \<open>
  C34: A reply that is empty or all white space, once approved, erases the file: the
  written content is the empty text, without a trailing newline.
\<close>

theorem fix_file_erases:
  assumes "fs w p = Some (File c)" and "c \<noteq> []" and "can_read e p" and "can_write e p"
    and "model_reply e (length (sent w)) (fix_prompt r p (universal_newlines c)) = Text t"
    and "py_strip t = []" and "approved e opts p (asked w)"
  shows "fs (fix_file e opts r p w) p = Some (File [])"
proof -
  have "fs (fix_file e opts r p w) = fs (write_file e p [] w)"
    using fix_file_written [OF assms(1,2,3,5,7)] assms(6) by simp
  then show ?thesis using assms(1,4) by (simp add: write_file_ok clean_code_fences_def)
qed

theorem fix_file_erases_witness:
  "fs (fix_file (sample_env\<lparr>model_reply := (\<lambda>n p. Text '' \<newline>'')\<rparr>)
        \<lparr>apply_all = True, interactive = False, prompt_func = False, ui_logger = False\<rparr> ''no error'' ''proj/a.py''
        (world_of [''proj/a.py'' \<mapsto> File ''x = 1\<newline>''])) ''proj/a.py''
     = Some (File [])"
proof -
  let ?e = "sample_env\<lparr>model_reply := (\<lambda>n p. Text '' \<newline>'')\<rparr>"
  let ?w = "(world_of [''proj/a.py'' \<mapsto> File ''x = 1\<newline>''])"
  have h: "fs ?w ''proj/a.py'' = Some (File ''x = 1\<newline>'')" "''x = 1\<newline>'' \<noteq> []"
    "can_read ?e ''proj/a.py''" "can_write ?e ''proj/a.py''"
    "model_reply ?e (length (sent ?w))
       (fix_prompt ''no error'' ''proj/a.py'' (universal_newlines ''x = 1\<newline>'')) = Text '' \<newline>''"
    by simp_all
  have s: "py_strip '' \<newline>'' = []" by code_simp
  have a: "approved ?e \<lparr>apply_all = True, interactive = False, prompt_func = False, ui_logger = False\<rparr> ''proj/a.py'' (asked ?w)"
    by (simp add: approved_def)
  show ?thesis by (rule fix_file_erases [OF h s a])
qed

text \<open>
  A file that cannot be read as text, or that is empty, is skipped: no prompt
  is sent for it and the file system does not change.
\<close>

theorem fix_file_skips:
  assumes "\<forall>c. fs w p = Some (File c) \<longrightarrow> \<not> can_read e p \<or> c = []"
  shows "sent (fix_file e opts r p w) = sent w \<and> fs (fix_file e opts r p w) = fs w"
proof -
  have "code_of e w p = None"
    using assms by (auto simp: code_of_def split: option.splits node.splits)
  then show ?thesis by (simp add: fix_file_sent fix_file_fs)
qed

theorem fix_file_skips_witness:
  "sent (fix_file sample_env \<lparr>apply_all = True, interactive = False, prompt_func = False, ui_logger = False\<rparr> ''no error'' ''proj/a.py''
      (world_of [''proj/a.py'' \<mapsto> File []])) = []
   \<and> fs (fix_file sample_env \<lparr>apply_all = True, interactive = False, prompt_func = False, ui_logger = False\<rparr> ''no error'' ''proj/a.py''
      (world_of [''proj/a.py'' \<mapsto> File []])) = [''proj/a.py'' \<mapsto> File []]"
proof -
  have h: "\<forall>c. fs (world_of [''proj/a.py'' \<mapsto> File []]) ''proj/a.py'' = Some (File c)
      \<longrightarrow> \<not> can_read sample_env ''proj/a.py'' \<or> c = []"
    by simp
  show ?thesis using fix_file_skips [OF h] by simp
qed

text \<open>
  When the model call for a file fails or returns no text, the file system
  does not change and the error is reported on the console, also when the run
  logs to the interface.
\<close>

theorem fix_file_service_error:
  assumes "fs w p = Some (File c)" and "c \<noteq> []" and "can_read e p"
    and "\<And>t. model_reply e (length (sent w)) (fix_prompt r p (universal_newlines c)) \<noteq> Text t"
  shows "fs (fix_file e opts r p w) = fs w
       \<and> out (fix_file e opts r p w) = out w @ [(Console, ErrorFixing p)]"
  using assms
  by (auto simp: fix_file_def read_file_def call_model_def split: reply.splits)

theorem fix_file_service_error_witness:
  "out (fix_file (sample_env\<lparr>model_reply := (\<lambda>n p. Raises ''quota'')\<rparr>)
        \<lparr>apply_all = False, interactive = True, prompt_func = True, ui_logger = True\<rparr> ''no error'' ''proj/a.py''
        (world_of [''proj/a.py'' \<mapsto> File ''x = 1\<newline>'']))
     = [(Console, ErrorFixing ''proj/a.py'')]"
proof -
  let ?e = "sample_env\<lparr>model_reply := (\<lambda>n p. Raises ''quota'')\<rparr>"
  let ?w = "(world_of [''proj/a.py'' \<mapsto> File ''x = 1\<newline>''])"
  have h: "fs ?w ''proj/a.py'' = Some (File ''x = 1\<newline>'')" "''x = 1\<newline>'' \<noteq> []"
    "can_read ?e ''proj/a.py''"
    "model_reply ?e (length (sent ?w))
       (fix_prompt ''no error'' ''proj/a.py'' (universal_newlines ''x = 1\<newline>'')) \<noteq> Text t" for t
    by simp_all
  show ?thesis using fix_file_service_error [OF h] by simp
qed

end
