(* ===== verification/Export.thy ===== *)
theory Export
  imports FileSystem Reviewer
begin

text \<open>
  The two exports of the review text: \<^verbatim>\<open>save_to_excel\<close> (lines 280 to 308 of
  \<^verbatim>\<open>src/app.py\<close>) and the JSON file written by \<^verbatim>\<open>run_pipeline\<close> (lines 370 to 376).

  \<^item> The saved workbook is, in the file system, the first column of the sheet
    \<^verbatim>\<open>Raw Review\<close>: the title in row 1, row 2 empty, and from row 3 one line of the
    review per row, split as \<^verbatim>\<open>str.splitlines\<close> splits.  The sheets with their titles,
    the bold title cell and the column width are the value \<open>workbook\<close>.  The review
    is taken to hold no character the workbook library refuses.  A missing library
    is a warning; a workbook that cannot be saved raises.
  \<^item> The JSON text is what \<^verbatim>\<open>json.dump\<close> writes for a dictionary with the one key
    \<^verbatim>\<open>review\<close> with \<^verbatim>\<open>indent=2\<close> and the default \<^verbatim>\<open>ensure_ascii\<close>: every character
    outside the printable ASCII range is escaped.  \<open>json_unescape\<close> reads a string
    literal back; it is the specification the escaping is checked against.
\<close>

section \<open>Lines of a text\<close>

definition is_linebreak :: "char \<Rightarrow> bool" where
  "is_linebreak c =
     (let n = (of_char c :: nat) in (10 \<le> n \<and> n \<le> 13) \<or> (28 \<le> n \<and> n \<le> 30) \<or> n = 133)"

fun splitlines_from :: "string \<Rightarrow> string \<Rightarrow> string list" where
  "splitlines_from cur [] = (if cur = [] then [] else [cur])"
| "splitlines_from cur [c] = (if is_linebreak c then [cur] else [cur @ [c]])"
| "splitlines_from cur (c # d # r) =
     (if is_linebreak c
      then cur # (if c = CHR 0x0D \<and> d = NL then splitlines_from [] r else splitlines_from [] (d # r))
      else splitlines_from (cur @ [c]) (d # r))"

definition py_splitlines :: "string \<Rightarrow> string list" where
  "py_splitlines s = splitlines_from [] s"

section \<open>The workbook\<close>

definition save_to_excel :: "env \<Rightarrow> string \<Rightarrow> path \<Rightarrow> world \<Rightarrow> unit outcome \<times> world" where
  "save_to_excel e review_output filename w =
     (if \<not> openpyxl_installed e then (Inr (), emit Console ExcelMissing w)
      else if creatable e w filename
      then (Inr (), emit Console (ExcelSaved filename)
              (w\<lparr>fs := (fs w)(filename \<mapsto>
                    Workbook (''Gemini Review (pre Auto-Fix)'' # [] # py_splitlines review_output))\<rparr>))
      else (Inl (OSError filename), w))"

text \<open>
  The workbook as it is built (lines 293 to 305): the sheet that is active in a new
  workbook, which the function never fills, and the sheet \<^verbatim>\<open>Raw Review\<close> with the
  title in bold in row 1, the lines from row 3 on and the width of its column.
  The node \<open>Workbook\<close> of the file system holds the values of the first column of the
  second sheet, row by row.
\<close>

record cell =
  cell_row :: nat
  cell_value :: string
  cell_bold :: bool

record sheet =
  sheet_title :: string
  sheet_cells :: "cell list"
  sheet_width :: "nat option"

definition raw_sheet :: "string \<Rightarrow> sheet" where
  "raw_sheet review_output =
     \<lparr>sheet_title = ''Raw Review'',
      sheet_cells =
        \<lparr>cell_row = 1, cell_value = ''Gemini Review (pre Auto-Fix)'', cell_bold = True\<rparr>
        # map (\<lambda>(raw_row, line). \<lparr>cell_row = raw_row, cell_value = line, cell_bold = False\<rparr>)
            (enumerate 3 (py_splitlines review_output)),
      sheet_width = Some 120\<rparr>"

definition workbook :: "string \<Rightarrow> sheet list" where
  "workbook review_output =
     [\<lparr>sheet_title = ''Sheet'', sheet_cells = [], sheet_width = None\<rparr>, raw_sheet review_output]"

section \<open>The JSON file\<close>

definition hex_digit :: "nat \<Rightarrow> char" where
  "hex_digit n = (let d = n mod 16 in if d < 10 then char_of (48 + d) else char_of (87 + d))"

definition json_escape :: "char \<Rightarrow> string" where
  "json_escape c =
     (let n = (of_char c :: nat)
      in if c = CHR 0x22 then [CHR 0x5C, CHR 0x22]
         else if c = CHR 0x5C then [CHR 0x5C, CHR 0x5C]
         else if c = NL then [CHR 0x5C, CHR ''n'']
         else if c = CHR 0x0D then [CHR 0x5C, CHR ''r'']
         else if c = CHR 0x09 then [CHR 0x5C, CHR ''t'']
         else if c = CHR 0x08 then [CHR 0x5C, CHR ''b'']
         else if c = CHR 0x0C then [CHR 0x5C, CHR ''f'']
         else if 32 \<le> n \<and> n \<le> 126 then [c]
         else [CHR 0x5C, CHR ''u'', CHR ''0'', CHR ''0'', hex_digit (n div 16), hex_digit n])"

definition json_string :: "string \<Rightarrow> string" where
  "json_string s = [CHR 0x22] @ concat (map json_escape s) @ [CHR 0x22]"

definition json_review :: "string \<Rightarrow> string" where
  "json_review review_output =
     [CHR ''{'', NL] @ ''  '' @ json_string ''review'' @ '': '' @ json_string review_output @ [NL, CHR ''}'']"

definition json_path :: path where
  "json_path = ''project_review.json''"

definition save_json :: "env \<Rightarrow> bool \<Rightarrow> string \<Rightarrow> world \<Rightarrow> unit outcome \<times> world" where
  "save_json e ui review_output w =
     (case write_text e json_path (json_review review_output) w of
        Some w' \<Rightarrow> (Inr (), emit (if ui then Ui else Console) JsonSaved w')
      | None \<Rightarrow> (Inl (OSError json_path), w))"

lemmas export_defs = save_to_excel_def save_json_def write_text_def creatable_def

section \<open>Effect of the exports\<close>

lemma save_to_excel_world [simp]:
  "sent (snd (save_to_excel e r f w)) = sent w" "asked (snd (save_to_excel e r f w)) = asked w"
  by (simp_all add: save_to_excel_def)

lemma save_to_excel_frame: "q \<noteq> f \<Longrightarrow> fs (snd (save_to_excel e r f w)) q = fs w q"
  by (simp add: save_to_excel_def)

lemma save_to_excel_Inl:
  "fst (save_to_excel e r f w) = Inl err \<longleftrightarrow>
     openpyxl_installed e \<and> \<not> creatable e w f \<and> err = OSError f"
  by (auto simp: save_to_excel_def)

lemma save_json_world [simp]:
  "sent (snd (save_json e ui r w)) = sent w" "asked (snd (save_json e ui r w)) = asked w"
  by (simp_all add: export_defs)

lemma save_json_frame: "q \<noteq> json_path \<Longrightarrow> fs (snd (save_json e ui r w)) q = fs w q"
  by (simp add: export_defs)

lemma save_json_Inl:
  "fst (save_json e ui r w) = Inl err \<longleftrightarrow> \<not> creatable e w json_path \<and> err = OSError json_path"
  by (auto simp: export_defs)

lemma raw_sheet_cells:
  "map cell_value (sheet_cells (raw_sheet r)) = ''Gemini Review (pre Auto-Fix)'' # py_splitlines r"
  "map cell_row (sheet_cells (raw_sheet r)) = 1 # [3 ..< 3 + length (py_splitlines r)]"
  "map cell_bold (sheet_cells (raw_sheet r)) = True # replicate (length (py_splitlines r)) False"
  by (simp_all add: raw_sheet_def comp_def case_prod_beta map_replicate_const
      map_snd_enumerate [unfolded comp_def] map_fst_enumerate [unfolded comp_def])

section \<open>Lines and joins\<close>

lemma is_linebreak_NL [simp]: "is_linebreak NL"
  by (simp add: is_linebreak_def)

lemma splitlines_from_plain:
  "\<not> list_ex is_linebreak l \<Longrightarrow> cur @ l \<noteq> [] \<Longrightarrow> splitlines_from cur l = [cur @ l]"
  by (induction cur l rule: splitlines_from.induct) auto

lemma splitlines_from_line:
  "\<not> list_ex is_linebreak l \<Longrightarrow>
   splitlines_from cur (l @ NL # rest) = (cur @ l) # splitlines_from [] rest"
proof (induction l arbitrary: cur)
  case Nil
  then show ?case by (cases rest) auto
next
  case (Cons c l)
  then have "splitlines_from cur (c # l @ NL # rest) = splitlines_from (cur @ [c]) (l @ NL # rest)"
    by (cases l) auto
  with Cons show ?case by simp
qed

lemma py_splitlines_join:
  assumes "list_all (\<lambda>l. \<not> list_ex is_linebreak l) ls" and "ls \<noteq> []" and "last ls \<noteq> []"
  shows "py_splitlines (py_join [NL] ls) = ls"
  using assms unfolding py_splitlines_def
proof (induction "[NL]" ls rule: py_join.induct)
  case 1
  then show ?case by simp
next
  case (2 x)
  then show ?case by (simp add: splitlines_from_plain)
next
  case (3 x y ys)
  then show ?case by (simp add: splitlines_from_line)
qed

section \<open>Reading the JSON text back\<close>

text \<open>
  A reader for the string literals of JSON, restricted to code points below 256:
  the specification the escaping of \<^verbatim>\<open>json.dump\<close> is checked against.
\<close>

definition hex_val :: "char \<Rightarrow> nat option" where
  "hex_val c =
     (let n = (of_char c :: nat)
      in if 48 \<le> n \<and> n \<le> 57 then Some (n - 48)
         else if 97 \<le> n \<and> n \<le> 102 then Some (n - 87)
         else if 65 \<le> n \<and> n \<le> 70 then Some (n - 55)
         else None)"

definition unescape_char :: "char \<Rightarrow> char option" where
  "unescape_char d =
     (if d = CHR 0x22 \<or> d = CHR 0x5C \<or> d = CHR ''/'' then Some d
      else if d = CHR ''n'' then Some NL
      else if d = CHR ''r'' then Some (CHR 0x0D)
      else if d = CHR ''t'' then Some (CHR 0x09)
      else if d = CHR ''b'' then Some (CHR 0x08)
      else if d = CHR ''f'' then Some (CHR 0x0C)
      else None)"

definition hex4 :: "string \<Rightarrow> nat option" where
  "hex4 s =
     (case map hex_val s of
        [Some a, Some b, Some c, Some d] \<Rightarrow> Some (4096 * a + 256 * b + 16 * c + d)
      | _ \<Rightarrow> None)"

fun json_unescape :: "string \<Rightarrow> string option" where
  "json_unescape [] = Some []"
| "json_unescape [c] = (if c = CHR 0x5C \<or> c = CHR 0x22 then None else Some [c])"
| "json_unescape (c # d # r) =
     (if c = CHR 0x5C then
        (if d = CHR ''u'' then
           (case hex4 (take 4 r) of
              Some n \<Rightarrow> if n < 256 then map_option ((#) (char_of n)) (json_unescape (drop 4 r)) else None
            | None \<Rightarrow> None)
         else (case unescape_char d of
                 Some ch \<Rightarrow> map_option ((#) ch) (json_unescape r)
               | None \<Rightarrow> None))
      else if c = CHR 0x22 then None
      else map_option ((#) c) (json_unescape (d # r)))"

definition json_read_string :: "string \<Rightarrow> string option" where
  "json_read_string s =
     (if 2 \<le> length s \<and> hd s = CHR 0x22 \<and> last s = CHR 0x22
      then json_unescape (butlast (tl s)) else None)"

definition read_review :: "string \<Rightarrow> string option" where
  "read_review doc =
     (let pre = [CHR ''{'', NL] @ ''  '' @ json_string ''review'' @ '': '';
          post = [NL, CHR ''}'']
      in if prefix pre doc \<and> suffix post doc \<and> length pre + length post \<le> length doc
         then json_read_string (take (length doc - length pre - length post) (drop (length pre) doc))
         else None)"

lemma hex_val_hex_digit: "hex_val (hex_digit k) = Some (k mod 16)"
proof -
  have "k mod 16 < 16" by simp
  then show ?thesis
    by (auto simp: hex_val_def hex_digit_def Let_def)
qed

lemma hex_val_zero [simp]: "hex_val (CHR ''0'') = Some 0"
  by (simp add: hex_val_def)

lemma hex4_escape:
  "hex4 [CHR ''0'', CHR ''0'', hex_digit (n div 16), hex_digit n] = Some (n mod 256)"
proof -
  have "n mod (16 * 16) = 16 * (n div 16 mod 16) + n mod 16"
    by (rule mod_mult2_eq)
  then show ?thesis by (simp add: hex4_def hex_val_hex_digit)
qed

lemma json_unescape_plain:
  "c \<noteq> CHR 0x5C \<Longrightarrow> c \<noteq> CHR 0x22 \<Longrightarrow> json_unescape (c # t) = map_option ((#) c) (json_unescape t)"
  by (cases t) simp_all

lemma json_unescape_escape:
  "json_unescape (json_escape c @ t) = map_option ((#) c) (json_unescape t)"
  by (simp add: json_escape_def Let_def json_unescape_plain hex4_escape unescape_char_def)

lemma json_unescape_concat:
  "json_unescape (concat (map json_escape s) @ t) = map_option ((@) s) (json_unescape t)"
  by (induction s) (simp_all add: json_unescape_escape option.map_comp comp_def option.map_ident)

lemma json_unescape_escaped: "json_unescape (concat (map json_escape s)) = Some s"
  using json_unescape_concat [of s "[]"] by simp

lemma json_read_string_json_string: "json_read_string (json_string s) = Some s"
  by (simp add: json_read_string_def json_string_def json_unescape_escaped butlast_append)

text \<open>The escaped text is printable ASCII: \<^verbatim>\<open>ensure_ascii\<close>.\<close>

definition printable :: "char \<Rightarrow> bool" where
  "printable c \<longleftrightarrow> 32 \<le> (of_char c :: nat) \<and> (of_char c :: nat) \<le> 126"

lemma printable_hex_digit: "printable (hex_digit n)"
proof -
  have "n mod 16 < 16" by simp
  then show ?thesis by (auto simp: printable_def hex_digit_def Let_def)
qed

lemma printable_json_escape: "list_all printable (json_escape c)"
  by (simp add: json_escape_def Let_def printable_hex_digit) (simp add: printable_def)

lemma printable_json_string: "list_all printable (json_string s)"
  using printable_json_escape
  by (auto simp: json_string_def list_all_iff printable_def)

lemma json_review_chars: "list_all (\<lambda>c. printable c \<or> c = NL) (json_review s)"
proof -
  have a: "list_all (\<lambda>c. printable c \<or> c = NL) (json_string x)" for x
    using printable_json_string [of x] by (auto simp: list_all_iff)
  show ?thesis by (simp add: json_review_def a) (simp add: printable_def)
qed

lemma no_CR_json_review: "CR \<notin> set (json_review s)"
  using json_review_chars [of s] by (auto simp: list_all_iff printable_def)

lemma framed:
  "prefix pre (pre @ x @ post) \<and> suffix post (pre @ x @ post)
   \<and> length pre + length post \<le> length (pre @ x @ post)
   \<and> take (length (pre @ x @ post) - length pre - length post) (drop (length pre) (pre @ x @ post)) = x"
  by (simp add: suffix_def)

lemma read_review_document:
  "read_review ([CHR ''{'', NL] @ ''  '' @ json_string ''review'' @ '': '' @ x @ [NL, CHR ''}''])
     = json_read_string x"
proof -
  let ?pre = "[CHR ''{'', NL] @ ''  '' @ json_string ''review'' @ '': ''"
  note f = framed [of ?pre x "[NL, CHR ''}'']"]
  have doc: "[CHR ''{'', NL] @ ''  '' @ json_string ''review'' @ '': '' @ x @ [NL, CHR ''}'']
      = ?pre @ x @ [NL, CHR ''}'']"
    by simp
  show ?thesis
    unfolding read_review_def doc Let_def
    by (simp only: f if_True simp_thms)
qed

section \<open>Properties\<close>

text \<open>
  C15: The JSON text can be read back: a reader of JSON string literals applied to
  the document written for a review returns that review, whatever characters it
  holds.
\<close>

theorem read_review_json_review: "read_review (json_review s) = Some s"
  unfolding json_review_def
  by (simp only: read_review_document json_read_string_json_string)

text \<open>
  C31: The JSON text is printable ASCII but for its two structural newlines, so it
  is the same text in every encoding the file may be read with.
\<close>

theorem json_review_ascii:
  "list_all (\<lambda>c. printable c \<or> c = NL) (json_review s)"
  by (rule json_review_chars)

text \<open>
  C32: After a successful JSON export, reading the file as text and parsing it
  gives the exported review.
\<close>

theorem save_json_read_back:
  assumes "save_json e ui r w = (Inr (), w')" and "can_read e json_path"
  shows "Option.bind (fst (read_file e json_path w')) read_review = Some r"
proof -
  have "fs w' json_path = Some (File (json_review r))"
    using assms(1) by (auto simp: export_defs split: if_splits)
  then have "fst (read_file e json_path w') = Some (json_review r)"
    using assms(2) by (simp add: read_file_def universal_newlines_no_CR no_CR_json_review)
  then show ?thesis
    unfolding json_review_def
    by (simp only: option.simps bind.bind_lunit read_review_document json_read_string_json_string)
qed

theorem save_json_read_back_witness:
  "Option.bind
     (fst (read_file sample_env json_path
        (snd (save_json sample_env False [CHR ''a'', CHR 0x22, NL, CHR 0xE9] (world_of Map.empty)))))
     read_review
   = Some [CHR ''a'', CHR 0x22, NL, CHR 0xE9]"
proof -
  let ?r = "[CHR ''a'', CHR 0x22, NL, CHR 0xE9]"
  have h: "save_json sample_env False ?r (world_of Map.empty)
      = (Inr (), snd (save_json sample_env False ?r (world_of Map.empty)))"
    by (simp add: export_defs)
  have c: "can_read sample_env json_path" by simp
  show ?thesis by (rule save_json_read_back [OF h c])
qed


text \<open>
  A saved workbook holds the review line by line in the first column of its
  second sheet, under a bold title and an empty row; the sheet that is active in the
  workbook stays empty, whatever tables the review contains.
\<close>

theorem save_to_excel_sheets:
  assumes "openpyxl_installed e" "creatable e w filename"
  shows "fs (snd (save_to_excel e review_output filename w)) filename
           = Some (Workbook (hd (map cell_value (sheet_cells (workbook review_output ! 1))) # []
                      # tl (map cell_value (sheet_cells (workbook review_output ! 1)))))
       \<and> map cell_row (sheet_cells (workbook review_output ! 1))
           = 1 # [3 ..< 3 + length (py_splitlines review_output)]
       \<and> sheet_cells (workbook review_output ! 0) = []"
  using assms by (simp add: save_to_excel_def workbook_def raw_sheet_cells)

theorem save_to_excel_sheets_witness:
  "fs (snd (save_to_excel (sample_env\<lparr>openpyxl_installed := True\<rparr>) ''| a | b |\<newline>ok'' ''r.xlsx''
        (world_of Map.empty))) ''r.xlsx''
     = Some (Workbook [''Gemini Review (pre Auto-Fix)'', [], ''| a | b |'', ''ok''])"
proof -
  let ?e = "sample_env\<lparr>openpyxl_installed := True\<rparr>"
  have h: "openpyxl_installed ?e" "creatable ?e (world_of Map.empty) ''r.xlsx''"
    by (simp_all add: creatable_def)
  have "map cell_value (sheet_cells (workbook ''| a | b |\<newline>ok'' ! 1))
      = [''Gemini Review (pre Auto-Fix)'', ''| a | b |'', ''ok'']"
    by code_simp
  with save_to_excel_sheets [OF h, of "''| a | b |\<newline>ok''"] show ?thesis by simp
qed

end
