(* ===== verification/Pipeline.thy ===== *)
theory Pipeline
  imports Collector Batcher FixApplier Export
begin

text \<open>
  The orchestrator, \<^verbatim>\<open>run_pipeline\<close> (lines 310 to 382 of \<^verbatim>\<open>src/app.py\<close>).  Its arguments
  but the path are the record \<open>run_opts\<close>, which extends the options of the fix
  applier.  The function is composed of the stages the code runs in order:

  \<^item> \<open>banner\<close> (lines 311 to 315), the two early returns (lines 317 to 331);
  \<^item> \<open>read_contents\<close>, the dictionary comprehension of line 337;
  \<^item> \<open>chunk_files\<close> of theory \<open>Batcher\<close> (line 338);
  \<^item> \<open>review_batches\<close>, the loop of lines 341 to 365, with the loop body
    \<open>review_batch\<close>: the review, its display (\<open>show_review\<close>) and the fixes;
  \<^item> \<open>export_results\<close>, lines 367 to 382.

  The result is the review text, \<open>None\<close> for the two early returns, or the exception
  that left the function.  The loop stops at the first exception, as the code does.

  The lemmas give, stage by stage, the frame on the file system, the review prompts
  sent, the exceptions possible and the fact that no stage creates or removes a
  directory.  \<open>run_pipeline_run\<close> reduces a run that passes the two early returns to
  the loop over the batches \<open>run_batches\<close> and the groups \<open>run_groups\<close>, which are
  the specification \<open>pack\<close> of the batcher on the collected files.
\<close>

section \<open>Options\<close>

record run_opts = fix_opts +
  export_json :: bool
  autofix :: bool
  userprompt :: "string option"
  max_chars :: int
  excel_filename :: path

definition fix_opts_of :: "run_opts \<Rightarrow> fix_opts" where
  "fix_opts_of opts =
     \<lparr>apply_all = apply_all opts, interactive = True, prompt_func = prompt_func opts,
      ui_logger = ui_logger opts\<rparr>"

definition tell :: "run_opts \<Rightarrow> msg \<Rightarrow> world \<Rightarrow> world" where
  "tell opts m w = emit (if ui_logger opts then Ui else Console) m w"

section \<open>Stages\<close>

definition banner :: "run_opts \<Rightarrow> world \<Rightarrow> world" where
  "banner opts w =
     (if ui_logger opts then emit Ui StartingAnalysis w
      else print_logo (clear_screen w))"

definition read_contents :: "env \<Rightarrow> path list \<Rightarrow> world \<Rightarrow> (path \<rightharpoonup> string) \<times> world" where
  "read_contents e files w =
     foldl (\<lambda>(m, w) f. case read_file e f w of (c, w') \<Rightarrow> (m(f \<mapsto> or_else c []), w'))
       (Map.empty, w) files"

definition show_review :: "run_opts \<Rightarrow> nat \<Rightarrow> nat \<Rightarrow> string \<Rightarrow> world \<Rightarrow> world" where
  "show_review opts i n output w =
     (if ui_logger opts
      then emit Ui (ReviewText (truncated 20000 output)) (emit Ui (ReviewHeader i n) w)
      else emit Console (MarkdownOut (take 20000 output)) (emit Console (ReviewHeader i n) w))"

definition review_batch ::
    "env \<Rightarrow> run_opts \<Rightarrow> path \<Rightarrow> nat \<Rightarrow> nat \<Rightarrow> string \<times> path list \<Rightarrow> world
     \<Rightarrow> string outcome \<times> world" where
  "review_batch e opts path i n b w =
     (case b of (batch, batch_file_list) \<Rightarrow>
        and_then (review_project e batch (userprompt opts) (tell opts (ProcessingReview i n) w))
          (\<lambda>output w2.
             let w3 = show_review opts i n output w2
             in if autofix opts
                then and_then
                       (auto_fix_project e path output batch_file_list (fix_opts_of opts)
                          (tell opts (ProcessingAutoFix i n) w3))
                       (\<lambda>_ w4. (Inr output, w4))
                else (Inr output, w3)))"

fun review_batches ::
    "env \<Rightarrow> run_opts \<Rightarrow> path \<Rightarrow> nat \<Rightarrow> nat \<Rightarrow> (string \<times> path list) list \<Rightarrow> string list \<Rightarrow> world
     \<Rightarrow> string list outcome \<times> world" where
  "review_batches e opts path i n [] all_reviews w = (Inr all_reviews, w)"
| "review_batches e opts path i n (b # bs) all_reviews w =
     and_then (review_batch e opts path i n b w)
       (\<lambda>output w'. review_batches e opts path (Suc i) n bs (all_reviews @ [output]) w')"

definition export_results ::
    "env \<Rightarrow> run_opts \<Rightarrow> string list \<Rightarrow> world \<Rightarrow> string option outcome \<times> world" where
  "export_results e opts all_reviews w =
     (let review_output = py_join [NL, NL] all_reviews
      in and_then (save_to_excel e review_output (excel_filename opts) w)
           (\<lambda>_ w1.
              and_then
                (if export_json opts then save_json e (ui_logger opts) review_output w1
                 else (Inr (), w1))
                (\<lambda>_ w2. (Inr (Some review_output), tell opts Done w2))))"

definition run_pipeline :: "env \<Rightarrow> path \<Rightarrow> run_opts \<Rightarrow> world \<Rightarrow> string option outcome \<times> world" where
  "run_pipeline e path opts w =
     (let w1 = banner opts w
      in if \<not> exists w1 path then (Inr None, tell opts (InvalidPath path) w1)
         else let files = get_code_files e path
              in if files = [] then (Inr None, tell opts NoSourceFiles w1)
                 else case read_contents e files (tell opts (Analyzing (length files)) w1) of
                        (contents, w3) \<Rightarrow>
                   (case chunk_files files contents (max_chars opts) of
                      Inl err \<Rightarrow> (Inl err, w3)
                    | Inr (bs, gs) \<Rightarrow>
                        and_then (review_batches e opts path 1 (length bs) (zip bs gs) [] w3)
                          (export_results e opts)))"

section \<open>Reading the contents\<close>

text \<open>The text \<^verbatim>\<open>read_file(f) or ""\<close> of line 337.\<close>

definition text_of :: "env \<Rightarrow> world \<Rightarrow> path \<Rightarrow> string" where
  "text_of e w f = or_else (fst (read_file e f w)) []"

definition contents_of :: "env \<Rightarrow> world \<Rightarrow> path list \<Rightarrow> path \<rightharpoonup> string" where
  "contents_of e w files = (\<lambda>f. if f \<in> set files then Some (text_of e w f) else None)"

lemma tell_simps [simp]:
  "fs (tell opts m w) = fs w" "sent (tell opts m w) = sent w" "asked (tell opts m w) = asked w"
  "out (tell opts m w) = out w @ [(if ui_logger opts then Ui else Console, m)]"
  by (simp_all add: tell_def)

lemma read_file_fst_cong: "fs w = fs w' \<Longrightarrow> fst (read_file e p w) = fst (read_file e p w')"
  by (simp add: read_file_def split: option.splits node.splits)

lemma text_of_cong: "fs w = fs w' \<Longrightarrow> text_of e w = text_of e w'"
  by (rule ext) (simp add: text_of_def read_file_fst_cong [of w w'])

lemma read_contents_snoc:
  "read_contents e (files @ [f]) w =
     (case read_contents e files w of
        (m, w1) \<Rightarrow> (m(f \<mapsto> text_of e w1 f), snd (read_file e f w1)))"
  by (simp add: read_contents_def text_of_def split: prod.splits)

lemma read_contents_Nil [simp]: "read_contents e [] w = (Map.empty, w)"
  by (simp add: read_contents_def)

lemma read_contents_frame:
  "fs (snd (read_contents e files w)) = fs w \<and> sent (snd (read_contents e files w)) = sent w
   \<and> asked (snd (read_contents e files w)) = asked w"
  by (induction files rule: rev_induct) (simp_all add: read_contents_snoc case_prod_beta)

lemmas read_contents_world [simp] =
  read_contents_frame [THEN conjunct1] read_contents_frame [THEN conjunct2, THEN conjunct1]
  read_contents_frame [THEN conjunct2, THEN conjunct2]

lemma read_contents_fst: "fst (read_contents e files w) = contents_of e w files"
proof (induction files rule: rev_induct)
  case Nil
  then show ?case by (simp add: contents_of_def)
next
  case (snoc f files)
  have "text_of e (snd (read_contents e files w)) = text_of e w"
    by (rule text_of_cong) simp
  with snoc show ?case
    by (auto simp: read_contents_snoc contents_of_def case_prod_beta)
qed

lemma contents_of_present: "list_all (\<lambda>f. contents_of e w files f \<noteq> None) files"
  by (simp add: contents_of_def list_all_iff)

section \<open>One batch\<close>

lemma show_review_simps [simp]:
  "fs (show_review opts i n r w) = fs w" "sent (show_review opts i n r w) = sent w"
  "asked (show_review opts i n r w) = asked w"
  by (simp_all add: show_review_def)

lemma fix_opts_of_simps [simp]:
  "apply_all (fix_opts_of opts) = apply_all opts" "interactive (fix_opts_of opts)"
  "prompt_func (fix_opts_of opts) = prompt_func opts" "ui_logger (fix_opts_of opts) = ui_logger opts"
  by (simp_all add: fix_opts_of_def)

text \<open>The review prompt of a batch and the review text the model's reply gives.\<close>

definition review_prompt :: "run_opts \<Rightarrow> string \<Rightarrow> prompt" where
  "review_prompt opts batch = ReviewPrompt (or_else (userprompt opts) ''N/A'') batch"

definition review_of :: "env \<Rightarrow> run_opts \<Rightarrow> string \<Rightarrow> world \<Rightarrow> string" where
  "review_of e opts batch w = reply_text (model_reply e (length (sent w)) (review_prompt opts batch))"

text \<open>
  The reviews among the replies to a list of prompts of which the first is the
  \<open>k\<close>-th call of the run: the texts \<^verbatim>\<open>generate_content\<close> makes of the replies to the
  review prompts, each reply taken at the position of its prompt.
\<close>

definition reviews_in :: "env \<Rightarrow> nat \<Rightarrow> prompt list \<Rightarrow> string list" where
  "reviews_in e k ps =
     map (\<lambda>(n, p). reply_text (model_reply e n p)) (filter (\<lambda>(n, p). is_review p) (enumerate k ps))"

lemma reviews_in_Nil [simp]: "reviews_in e k [] = []"
  by (simp add: reviews_in_def)

lemma reviews_in_Cons:
  "reviews_in e k (p # ps)
     = (if is_review p then [reply_text (model_reply e k p)] else []) @ reviews_in e (Suc k) ps"
  by (simp add: reviews_in_def)

lemma reviews_in_append:
  "reviews_in e k (a @ b) = reviews_in e k a @ reviews_in e (k + length a) b"
  by (induction a arbitrary: k) (simp_all add: reviews_in_Cons)

lemma reviews_in_fix [simp]: "reviews_in e k (map (\<lambda>(f, c). fix_prompt r f c) fc) = []"
  by (induction fc arbitrary: k) (auto simp: reviews_in_Cons fix_prompt_def)


lemma review_batch_unavailable:
  "\<not> model_loaded e \<Longrightarrow>
   review_batch e opts path i n b w = (Inl RuntimeError, tell opts (ProcessingReview i n) w)"
  by (simp add: review_batch_def review_project_def generate_content_def split: prod.splits)

lemma review_batch_loaded:
  assumes "model_loaded e"
  shows "review_batch e opts path i n (batch, g) w =
     (let output = review_of e opts batch w;
          w3 = show_review opts i n output
                 ((tell opts (ProcessingReview i n) w)\<lparr>sent := sent w @ [review_prompt opts batch]\<rparr>)
      in (Inr output,
          if autofix opts
          then fix_files e (fix_opts_of opts) output g (tell opts (ProcessingAutoFix i n) w3)
          else w3))"
  using assms
  by (simp add: review_batch_def review_project_def generate_content_loaded auto_fix_project_def
      review_of_def review_prompt_def Let_def)

lemma review_batch_Inl:
  "fst (review_batch e opts path i n b w) = Inl err \<longleftrightarrow> \<not> model_loaded e \<and> err = RuntimeError"
  by (cases b; cases "model_loaded e")
    (auto simp: review_batch_unavailable review_batch_loaded Let_def)

lemma review_batch_fst:
  "model_loaded e \<Longrightarrow> fst (review_batch e opts path i n (batch, g) w) = Inr (review_of e opts batch w)"
  by (simp add: review_batch_loaded Let_def)

lemma review_batch_frame:
  "q \<notin> set g \<Longrightarrow> q \<notin> bak ` set g \<Longrightarrow> fs (snd (review_batch e opts path i n (batch, g) w)) q = fs w q"
  by (cases "model_loaded e")
    (simp_all add: review_batch_unavailable review_batch_loaded Let_def fix_files_frame)

lemma review_batch_Dir:
  "fs (snd (review_batch e opts path i n b w)) q = Some Dir \<longleftrightarrow> fs w q = Some Dir"
  by (cases b; cases "model_loaded e")
    (simp_all add: review_batch_unavailable review_batch_loaded Let_def fix_files_Dir)

lemma review_batch_no_autofix:
  "\<not> autofix opts \<Longrightarrow> fs (snd (review_batch e opts path i n b w)) = fs w"
  by (cases b; cases "model_loaded e")
    (simp_all add: review_batch_unavailable review_batch_loaded Let_def)

lemma review_batch_sent:
  assumes "model_loaded e"
  shows "\<exists>fc. sent (snd (review_batch e opts path i n (batch, g) w))
            = sent w @ review_prompt opts batch # map (\<lambda>(f, c). fix_prompt (review_of e opts batch w) f c) fc
          \<and> subseq (map fst fc) g \<and> [] \<notin> snd ` set fc \<and> (\<not> autofix opts \<longrightarrow> fc = [])"
proof (cases "autofix opts")
  case True
  let ?w3 = "show_review opts i n (review_of e opts batch w)
      ((tell opts (ProcessingReview i n) w)\<lparr>sent := sent w @ [review_prompt opts batch]\<rparr>)"
  from fix_files_sent [of e "fix_opts_of opts" "review_of e opts batch w" g
      "tell opts (ProcessingAutoFix i n) ?w3"]
  show ?thesis using assms True by (auto simp: review_batch_loaded Let_def)
next
  case False
  then show ?thesis using assms
    by (intro exI [of _ "[]"]) (simp add: review_batch_loaded Let_def)
qed

lemma filter_is_review_fix [simp]:
  "filter is_review (map (\<lambda>(f, c). fix_prompt r f c) fc) = []"
  by (induction fc) (auto simp: fix_prompt_def)

lemma review_batch_reviews:
  "filter is_review (sent (snd (review_batch e opts path i n (batch, g) w)))
     = filter is_review (sent w) @ (if model_loaded e then [review_prompt opts batch] else [])"
proof (cases "model_loaded e")
  case True
  from review_batch_sent [OF True, of opts path i n batch g w]
  show ?thesis using True by (auto simp: review_prompt_def)
next
  case False
  then show ?thesis by (simp add: review_batch_unavailable)
qed

lemma review_batch_returns:
  assumes "model_loaded e"
  shows "\<exists>ps. sent (snd (review_batch e opts path i n (batch, g) w)) = sent w @ ps
            \<and> fst (review_batch e opts path i n (batch, g) w)
                = Inr (review_of e opts batch w)
            \<and> reviews_in e (length (sent w)) ps = [review_of e opts batch w]"
proof -
  from review_batch_sent [OF assms, of opts path i n batch g w]
  obtain fc where "sent (snd (review_batch e opts path i n (batch, g) w))
      = sent w @ review_prompt opts batch # map (\<lambda>(f, c). fix_prompt (review_of e opts batch w) f c) fc"
    by blast
  moreover have "reviews_in e (length (sent w))
      (review_prompt opts batch # map (\<lambda>(f, c). fix_prompt (review_of e opts batch w) f c) fc)
      = [review_of e opts batch w]"
    by (simp add: reviews_in_Cons review_of_def review_prompt_def)
  ultimately show ?thesis using review_batch_fst [OF assms] by blast
qed

section \<open>All batches\<close>

lemma review_batches_Cons_Inr:
  "review_batch e opts path i n b w = (Inr output, w1) \<Longrightarrow>
   review_batches e opts path i n (b # bs) rs w
     = review_batches e opts path (Suc i) n bs (rs @ [output]) w1"
  by simp

lemma review_batches_Cons_Inl:
  "review_batch e opts path i n b w = (Inl err, w1) \<Longrightarrow>
   review_batches e opts path i n (b # bs) rs w = (Inl err, w1)"
  by simp

lemma review_batch_cases:
  obtains (unavailable) "\<not> model_loaded e"
      "review_batch e opts path i n b w = (Inl RuntimeError, tell opts (ProcessingReview i n) w)"
  | (loaded) w1 where "model_loaded e"
      "review_batch e opts path i n b w = (Inr (review_of e opts (fst b) w), w1)"
proof (cases "model_loaded e")
  case True
  then have "fst (review_batch e opts path i n b w) = Inr (review_of e opts (fst b) w)"
    by (cases b) (simp add: review_batch_fst)
  then show ?thesis using True loaded by (cases "review_batch e opts path i n b w") auto
next
  case False
  then show ?thesis using unavailable by (simp add: review_batch_unavailable)
qed

lemma review_batches_Inl:
  "fst (review_batches e opts path i n bs rs w) = Inl err
     \<longleftrightarrow> bs \<noteq> [] \<and> \<not> model_loaded e \<and> err = RuntimeError"
proof (induction bs arbitrary: i rs w)
  case Nil
  then show ?case by simp
next
  case (Cons b bs)
  show ?case
  proof (cases rule: review_batch_cases [of e opts path i n b w])
    case unavailable
    then show ?thesis by auto
  next
    case (loaded w1)
    then show ?thesis using Cons [of "Suc i" _ w1] by (simp del: review_batches.simps(2) add: review_batches_Cons_Inr)
  qed
qed

lemma review_batches_length:
  "fst (review_batches e opts path i n bs rs w) = Inr rs' \<Longrightarrow> length rs' = length rs + length bs"
proof (induction bs arbitrary: i rs w)
  case Nil
  then show ?case by simp
next
  case (Cons b bs)
  show ?case
  proof (cases rule: review_batch_cases [of e opts path i n b w])
    case unavailable
    then show ?thesis using Cons.prems by simp
  next
    case (loaded w1)
    then show ?thesis using Cons.IH [of "Suc i" _ w1] Cons.prems by simp
  qed
qed

lemma review_batches_frame:
  assumes "q \<notin> set (concat (map snd bs))" and "q \<notin> bak ` set (concat (map snd bs))"
  shows "fs (snd (review_batches e opts path i n bs rs w)) q = fs w q"
  using assms
proof (induction bs arbitrary: i rs w)
  case Nil
  then show ?case by simp
next
  case (Cons b bs)
  obtain batch g where b: "b = (batch, g)" by (cases b)
  have step: "fs (snd (review_batch e opts path i n b w)) q = fs w q"
    using Cons.prems unfolding b by (intro review_batch_frame) auto
  show ?case
  proof (cases rule: review_batch_cases [of e opts path i n b w])
    case unavailable
    then show ?thesis by simp
  next
    case (loaded w1)
    then show ?thesis using Cons.IH [of "Suc i" _ w1] Cons.prems step by auto
  qed
qed

lemma review_batches_no_autofix:
  "\<not> autofix opts \<Longrightarrow> fs (snd (review_batches e opts path i n bs rs w)) = fs w"
proof (induction bs arbitrary: i rs w)
  case Nil
  then show ?case by simp
next
  case (Cons b bs)
  show ?case
  proof (cases rule: review_batch_cases [of e opts path i n b w])
    case unavailable
    then show ?thesis by simp
  next
    case (loaded w1)
    then show ?thesis
      using Cons.IH [of "Suc i" _ w1] Cons.prems review_batch_no_autofix [of opts e path i n b w]
      by simp
  qed
qed

lemma review_batches_reviews:
  "model_loaded e \<Longrightarrow>
   filter is_review (sent (snd (review_batches e opts path i n bs rs w)))
     = filter is_review (sent w) @ map (\<lambda>b. review_prompt opts (fst b)) bs"
proof (induction bs arbitrary: i rs w)
  case Nil
  then show ?case by simp
next
  case (Cons b bs)
  obtain batch g where b: "b = (batch, g)" by (cases b)
  show ?case
  proof (cases rule: review_batch_cases [of e opts path i n b w])
    case unavailable
    then show ?thesis using Cons.prems by simp
  next
    case (loaded w1)
    then show ?thesis
      using Cons.IH [of "Suc i" _ w1] Cons.prems review_batch_reviews [of e opts path i n batch g w]
      by (simp add: b)
  qed
qed

lemma review_batches_returns:
  assumes "model_loaded e"
  shows "\<exists>ps. sent (snd (review_batches e opts path i n bs rs w)) = sent w @ ps
            \<and> fst (review_batches e opts path i n bs rs w)
                = Inr (rs @ reviews_in e (length (sent w)) ps)"
proof (induction bs arbitrary: i rs w)
  case Nil
  then show ?case by simp
next
  case (Cons b bs)
  obtain batch g where b: "b = (batch, g)" by (cases b)
  obtain out w1 where r: "review_batch e opts path i n b w = (out, w1)"
    by (cases "review_batch e opts path i n b w")
  from review_batch_returns [OF assms, of opts path i n batch g w] r b
  obtain ps where ps: "sent w1 = sent w @ ps" "out = Inr (review_of e opts batch w)"
    "reviews_in e (length (sent w)) ps = [review_of e opts batch w]"
    by auto
  from Cons [of "Suc i" "rs @ [review_of e opts batch w]" w1]
  obtain qs where qs: "sent (snd (review_batches e opts path (Suc i) n bs
        (rs @ [review_of e opts batch w]) w1)) = sent w1 @ qs"
    "fst (review_batches e opts path (Suc i) n bs (rs @ [review_of e opts batch w]) w1)
       = Inr ((rs @ [review_of e opts batch w]) @ reviews_in e (length (sent w1)) qs)"
    by blast
  have "reviews_in e (length (sent w)) (ps @ qs)
      = review_of e opts batch w # reviews_in e (length (sent w1)) qs"
    by (simp add: reviews_in_append ps)
  with qs show ?case
    by (intro exI [of _ "ps @ qs"]) (simp add: r ps)
qed

lemma review_batches_unavailable:
  "\<not> model_loaded e \<Longrightarrow> bs \<noteq> [] \<Longrightarrow>
   review_batches e opts path i n bs rs w = (Inl RuntimeError, tell opts (ProcessingReview i n) w)"
  by (cases bs) (simp_all add: review_batch_unavailable)

lemma review_batches_Dir:
  "fs (snd (review_batches e opts path i n bs rs w)) q = Some Dir \<longleftrightarrow> fs w q = Some Dir"
proof (induction bs arbitrary: i rs w)
  case Nil
  then show ?case by simp
next
  case (Cons b bs)
  show ?case
  proof (cases rule: review_batch_cases [of e opts path i n b w])
    case unavailable
    then show ?thesis by simp
  next
    case (loaded w1)
    then show ?thesis
      using Cons [of "Suc i" _ w1] review_batch_Dir [of e opts path i n b w q] by simp
  qed
qed

section \<open>The exports\<close>

lemma export_results_sent [simp]: "sent (snd (export_results e opts rs w)) = sent w"
  by (auto simp: export_results_def export_defs Let_def and_then_def split: option.splits)

lemma export_results_frame:
  "q \<noteq> excel_filename opts \<Longrightarrow> q \<noteq> json_path \<Longrightarrow> fs (snd (export_results e opts rs w)) q = fs w q"
  by (auto simp: export_results_def export_defs Let_def and_then_def split: option.splits)

lemma export_results_Inl:
  "fst (export_results e opts rs w) = Inl err \<Longrightarrow>
   err = OSError (excel_filename opts) \<or> err = OSError json_path"
  by (auto simp: export_results_def export_defs Let_def and_then_def split: option.splits if_splits)

lemma export_results_ok:
  assumes "openpyxl_installed e \<longrightarrow> creatable e w (excel_filename opts)"
    and "export_json opts \<longrightarrow> creatable e w json_path"
  shows "fst (export_results e opts rs w) = Inr (Some (py_join [NL, NL] rs))"
  using assms
  by (auto simp: export_results_def export_defs Let_def and_then_def split: option.splits)

section \<open>The run\<close>

lemma banner_simps [simp]:
  "fs (banner opts w) = fs w" "sent (banner opts w) = sent w" "asked (banner opts w) = asked w"
  by (simp_all add: banner_def)

text \<open>
  The groups and the batch texts of a run: the sorted files of the project, with
  the contents read before the first review, packed under the budget.
\<close>

definition run_groups :: "env \<Rightarrow> path \<Rightarrow> run_opts \<Rightarrow> world \<Rightarrow> path list list" where
  "run_groups e path opts w =
     pack (max_chars opts) (section_size (contents_of e w (get_code_files e path))) []
       (get_code_files e path)"

definition run_batches :: "env \<Rightarrow> path \<Rightarrow> run_opts \<Rightarrow> world \<Rightarrow> string list" where
  "run_batches e path opts w =
     map (batch_text (contents_of e w (get_code_files e path))) (run_groups e path opts w)"

lemma contents_of_cong: "fs w = fs w' \<Longrightarrow> contents_of e w = contents_of e w'"
  using text_of_cong [of w w' e] by (simp add: contents_of_def fun_eq_iff)

lemma concat_run_groups: "concat (run_groups e path opts w) = get_code_files e path"
  by (simp add: run_groups_def concat_pack)

lemma run_pipeline_run:
  assumes "exists w path" and "get_code_files e path \<noteq> []"
  shows "run_pipeline e path opts w =
     and_then
       (review_batches e opts path 1 (length (run_batches e path opts w))
          (zip (run_batches e path opts w) (run_groups e path opts w)) []
          (snd (read_contents e (get_code_files e path)
             (tell opts (Analyzing (length (get_code_files e path))) (banner opts w)))))
       (export_results e opts)"
proof -
  let ?files = "get_code_files e path"
  let ?w2 = "tell opts (Analyzing (length ?files)) (banner opts w)"
  have c: "fst (read_contents e ?files ?w2) = contents_of e w ?files"
    by (simp add: read_contents_fst contents_of_cong [of ?w2 w])
  have ch: "chunk_files ?files (contents_of e w ?files) (max_chars opts)
      = Inr (run_batches e path opts w, run_groups e path opts w)"
    using chunk_files_present [OF contents_of_present [of e w ?files], of "max_chars opts"]
    by (simp add: run_batches_def run_groups_def)
  have ex: "exists (banner opts w) path" using assms(1) by (simp add: exists_def)
  show ?thesis
    using assms(2) ex c ch
    by (simp add: run_pipeline_def Let_def case_prod_beta)
qed

lemma run_batches_nonempty:
  "get_code_files e path \<noteq> [] \<Longrightarrow> zip (run_batches e path opts w) (run_groups e path opts w) \<noteq> []"
  by (simp add: run_batches_def run_groups_def zip_eq_Nil_iff pack_eq_Nil)

lemma run_pipeline_stop:
  assumes "\<not> exists w path \<or> get_code_files e path = []"
  shows "run_pipeline e path opts w =
           (Inr None, tell opts (if exists w path then NoSourceFiles else InvalidPath path)
                        (banner opts w))"
  using assms by (auto simp: run_pipeline_def Let_def exists_def)

lemma and_then_cases:
  obtains (stop) err w1 where "r = (Inl err, w1)" "and_then r k = (Inl err, w1)"
  | (go) x w1 where "r = (Inr x, w1)" "and_then r k = k x w1"
  by (cases r; cases "fst r") auto

lemma run_pipeline_frame_aux:
  assumes "q \<noteq> excel_filename opts" and "q \<noteq> json_path"
    and "autofix opts \<longrightarrow> q \<notin> set (get_code_files e path) \<and> q \<notin> bak ` set (get_code_files e path)"
  shows "fs (snd (run_pipeline e path opts w)) q = fs w q"
proof (cases "exists w path \<and> get_code_files e path \<noteq> []")
  case True
  let ?w3 = "snd (read_contents e (get_code_files e path)
      (tell opts (Analyzing (length (get_code_files e path))) (banner opts w)))"
  let ?bs = "zip (run_batches e path opts w) (run_groups e path opts w)"
  let ?r = "review_batches e opts path 1 (length (run_batches e path opts w)) ?bs [] ?w3"
  have "map snd ?bs = run_groups e path opts w" by (simp add: run_batches_def)
  then have g: "concat (map snd ?bs) = get_code_files e path"
    by (simp add: concat_run_groups)
  have r: "fs (snd ?r) q = fs w q"
  proof (cases "autofix opts")
    case True
    with assms(3) show ?thesis using review_batches_frame [of q ?bs e opts path 1 _ "[]" ?w3]
      unfolding g by simp
  next
    case False
    then show ?thesis by (simp add: review_batches_no_autofix)
  qed
  show ?thesis
    using True r assms(1,2)
    by (cases rule: and_then_cases [of ?r "export_results e opts"])
      (auto simp: run_pipeline_run export_results_frame)
next
  case False
  then show ?thesis by (simp add: run_pipeline_stop)
qed

lemma run_pipeline_sent:
  assumes "model_loaded e"
  shows "filter is_review (sent (snd (run_pipeline e path opts w)))
           = filter is_review (sent w)
             @ (if exists w path then map (review_prompt opts) (run_batches e path opts w) else [])"
proof (cases "exists w path \<and> get_code_files e path \<noteq> []")
  case True
  let ?w3 = "snd (read_contents e (get_code_files e path)
      (tell opts (Analyzing (length (get_code_files e path))) (banner opts w)))"
  let ?bs = "zip (run_batches e path opts w) (run_groups e path opts w)"
  let ?r = "review_batches e opts path 1 (length (run_batches e path opts w)) ?bs [] ?w3"
  have f: "map fst ?bs = run_batches e path opts w" by (simp add: run_batches_def)
  have "map (\<lambda>b. review_prompt opts (fst b)) ?bs = map (review_prompt opts) (map fst ?bs)"
    by (simp only: map_map comp_def)
  then have m: "map (\<lambda>b. review_prompt opts (fst b)) ?bs
      = map (review_prompt opts) (run_batches e path opts w)"
    by (simp only: f)
  have r: "filter is_review (sent (snd ?r))
      = filter is_review (sent w) @ map (review_prompt opts) (run_batches e path opts w)"
    using review_batches_reviews [OF assms, of opts path 1 _ ?bs "[]" ?w3] m by simp
  show ?thesis
    using True r
    by (cases rule: and_then_cases [of ?r "export_results e opts"])
      (auto simp: run_pipeline_run)
next
  case False
  then show ?thesis
    by (auto simp: run_pipeline_stop run_batches_def run_groups_def)
qed

lemma run_pipeline_Inl:
  assumes "fst (run_pipeline e path opts w) = Inl err"
  shows "(err = RuntimeError \<and> \<not> model_loaded e) \<or> err = OSError (excel_filename opts)
       \<or> err = OSError json_path"
proof (cases "exists w path \<and> get_code_files e path \<noteq> []")
  case True
  let ?w3 = "snd (read_contents e (get_code_files e path)
      (tell opts (Analyzing (length (get_code_files e path))) (banner opts w)))"
  let ?r = "review_batches e opts path 1 (length (run_batches e path opts w))
      (zip (run_batches e path opts w) (run_groups e path opts w)) [] ?w3"
  show ?thesis
  proof (cases rule: and_then_cases [of ?r "export_results e opts"])
    case (stop err' w1)
    then have "fst ?r = Inl err'" by simp
    then have "err' = RuntimeError \<and> \<not> model_loaded e" by (simp add: review_batches_Inl)
    with stop assms True show ?thesis by (simp add: run_pipeline_run)
  next
    case (go x w1)
    with assms True show ?thesis using export_results_Inl [of e opts x w1 err]
      by (simp add: run_pipeline_run)
  qed
next
  case False
  with assms show ?thesis by (simp add: run_pipeline_stop)
qed

lemma run_pipeline_unavailable:
  assumes "exists w path" and "get_code_files e path \<noteq> []" and "\<not> model_loaded e"
  shows "run_pipeline e path opts w =
     (Inl RuntimeError,
      tell opts (ProcessingReview 1 (length (run_batches e path opts w)))
        (snd (read_contents e (get_code_files e path)
           (tell opts (Analyzing (length (get_code_files e path))) (banner opts w)))))"
  using assms(1,2) review_batches_unavailable [OF assms(3) run_batches_nonempty [OF assms(2)]]
  by (simp add: run_pipeline_run)

section \<open>The option that is not read\<close>

lemma tell_interactive [simp]: "tell (opts\<lparr>interactive := b\<rparr>) = tell opts"
  by (simp add: tell_def fun_eq_iff)

lemma fix_opts_of_interactive [simp]: "fix_opts_of (opts\<lparr>interactive := b\<rparr>) = fix_opts_of opts"
  by (simp add: fix_opts_of_def)

lemma review_batch_interactive [simp]:
  "review_batch e (opts\<lparr>interactive := b\<rparr>) = review_batch e opts"
  by (simp add: review_batch_def show_review_def fun_eq_iff Let_def cong: if_cong)

lemma review_batches_interactive [simp]:
  "review_batches e (opts\<lparr>interactive := b\<rparr>) path i n bs rs
     = review_batches e opts path i n bs rs"
proof (induction bs arbitrary: i rs)
  case Nil
  then show ?case by (simp add: fun_eq_iff)
next
  case (Cons a bs)
  show ?case by (rule ext) (simp add: Cons)
qed

lemma export_results_interactive [simp]:
  "export_results e (opts\<lparr>interactive := b\<rparr>) = export_results e opts"
  by (simp add: export_results_def fun_eq_iff Let_def cong: if_cong)

section \<open>Sample run\<close>

text \<open>
  The options of the command line \<^verbatim>\<open>--json --autofix --apply-all\<close> with the other
  arguments at their defaults (lines 711 to 719), and a project directory with one
  source file.
\<close>

definition sample_opts :: run_opts where
  "sample_opts =
     \<lparr>apply_all = True, interactive = False, prompt_func = False, ui_logger = False,
      export_json = True, autofix = True, userprompt = None, max_chars = 200000,
      excel_filename = ''project_review.xlsx''\<rparr>"

definition sample_world :: world where
  "sample_world = world_of [''proj'' \<mapsto> Dir, ''proj/a.py'' \<mapsto> File ''x = 1\<newline>'']"

lemma sample_files: "get_code_files sample_env ''proj'' = [''proj/a.py'']"
  by code_simp

lemma sample_world_simps [simp]:
  "sent sample_world = []" "out sample_world = []" "asked sample_world = 0"
  by (simp_all add: sample_world_def)

lemma sample_exists: "exists sample_world ''proj''"
  by (simp add: sample_world_def exists_def)

section \<open>Properties\<close>

text \<open>
  A project path that does not exist ends the run at once: the pipeline
  returns no review, reports the invalid path, sends nothing to the model and
  leaves the file system as it was.
\<close>

theorem run_pipeline_invalid_path:
  assumes "\<not> exists w path"
  shows "fst (run_pipeline e path opts w) = Inr None
       \<and> fs (snd (run_pipeline e path opts w)) = fs w
       \<and> sent (snd (run_pipeline e path opts w)) = sent w
       \<and> last (out (snd (run_pipeline e path opts w)))
           = (if ui_logger opts then Ui else Console, InvalidPath path)"
  using assms by (simp add: run_pipeline_stop)

theorem run_pipeline_invalid_path_witness:
  "fst (run_pipeline sample_env ''nowhere'' sample_opts sample_world) = Inr None
   \<and> sent (snd (run_pipeline sample_env ''nowhere'' sample_opts sample_world)) = []"
proof -
  have h: "\<not> exists sample_world ''nowhere''" by (simp add: sample_world_def exists_def)
  show ?thesis using run_pipeline_invalid_path [OF h, of sample_env sample_opts]
    by (simp add: sample_world_def)
qed

text \<open>
  C22: When the model could not be constructed at start-up and the project has
  source files, the run ends with \<^verbatim>\<open>RuntimeError\<close> at the first review: nothing is
  sent, written or exported.
\<close>

theorem run_pipeline_model_unavailable:
  assumes "exists w path" and "get_code_files e path \<noteq> []" and "\<not> model_loaded e"
  shows "fst (run_pipeline e path opts w) = Inl RuntimeError
       \<and> fs (snd (run_pipeline e path opts w)) = fs w
       \<and> sent (snd (run_pipeline e path opts w)) = sent w"
  using assms by (simp add: run_pipeline_unavailable)

theorem run_pipeline_model_unavailable_witness:
  "fst (run_pipeline (sample_env\<lparr>model_loaded := False\<rparr>) ''proj'' sample_opts sample_world)
     = Inl RuntimeError"
proof -
  have f: "get_code_files (sample_env\<lparr>model_loaded := False\<rparr>) ''proj'' \<noteq> []" by code_simp
  have m: "\<not> model_loaded (sample_env\<lparr>model_loaded := False\<rparr>)" by simp
  show ?thesis using run_pipeline_model_unavailable [OF sample_exists f m] by simp
qed

text \<open>
  C35: The pipeline does not read its \<open>interactive\<close> argument: the fix applier is
  always called as interactive, so a run that asks for fixes without \<open>apply_all\<close>
  always puts the question to the user.
\<close>

theorem run_pipeline_interactive_ignored:
  "run_pipeline e path (opts\<lparr>interactive := b\<rparr>) w = run_pipeline e path opts w"
  by (simp add: run_pipeline_def banner_def Let_def split: prod.splits sum.splits cong: if_cong)

text \<open>
  C19: A run changes at most the two export files and, when fixes are requested,
  the source files it collected and their backups.
\<close>

theorem run_pipeline_frame:
  "{q. fs (snd (run_pipeline e path opts w)) q \<noteq> fs w q}
     \<subseteq> {excel_filename opts, json_path}
       \<union> (if autofix opts
          then set (get_code_files e path) \<union> bak ` set (get_code_files e path) else {})"
  using run_pipeline_frame_aux [of _ opts e path w] by (auto split: if_splits)

text \<open>
  C21: The only exceptions that leave the pipeline are the \<^verbatim>\<open>RuntimeError\<close> of a
  missing model and a failure to write one of the export files; the \<^verbatim>\<open>KeyError\<close> of
  the batcher cannot occur, since every collected file has an entry in the contents.
\<close>

theorem run_pipeline_errors:
  assumes "fst (run_pipeline e path opts w) = Inl err"
  shows "(err = RuntimeError \<and> \<not> model_loaded e) \<or> err = OSError (excel_filename opts)
       \<or> err = OSError json_path"
  using assms by (rule run_pipeline_Inl)

theorem run_pipeline_errors_witness:
  "fst (run_pipeline (sample_env\<lparr>model_loaded := False\<rparr>) ''proj'' sample_opts sample_world)
     = Inl RuntimeError
   \<and> \<not> model_loaded (sample_env\<lparr>model_loaded := False\<rparr>)"
proof -
  have f: "get_code_files (sample_env\<lparr>model_loaded := False\<rparr>) ''proj'' \<noteq> []" by code_simp
  have h: "fst (run_pipeline (sample_env\<lparr>model_loaded := False\<rparr>) ''proj'' sample_opts sample_world)
      = Inl RuntimeError"
    by (simp add: run_pipeline_unavailable [OF sample_exists f])
  show ?thesis using h run_pipeline_errors [OF h] by simp
qed

text \<open>
  C36: A workbook that cannot be saved aborts the export: the exception leaves the
  pipeline and the JSON file is not written, although it was requested.
\<close>

theorem export_results_excel_fails:
  assumes "openpyxl_installed e" and "\<not> creatable e w (excel_filename opts)"
  shows "export_results e opts rs w = (Inl (OSError (excel_filename opts)), w)"
  using assms by (simp add: export_results_def save_to_excel_def Let_def)

theorem export_results_excel_fails_witness:
  "export_results
     (sample_env\<lparr>openpyxl_installed := True, can_write := (\<lambda>p. p \<noteq> ''project_review.xlsx'')\<rparr>)
     sample_opts [''no error''] sample_world
   = (Inl (OSError ''project_review.xlsx''), sample_world)"
proof -
  let ?e = "sample_env\<lparr>openpyxl_installed := True, can_write := (\<lambda>p. p \<noteq> ''project_review.xlsx'')\<rparr>"
  have h: "openpyxl_installed ?e" "\<not> creatable ?e sample_world (excel_filename sample_opts)"
    by (simp_all add: creatable_def sample_opts_def)
  show ?thesis using export_results_excel_fails [OF h, of "[''no error'']"]
    by (simp add: sample_opts_def)
qed

text \<open>
  C20: With a model, an existing project with source files and export files that
  can be written, the run returns the reviews joined by blank lines: the texts of
  the model's replies to the review prompts of this run, each reply taken at the
  position at which its prompt was sent, one review per batch.  As everywhere in
  the development the workbook library is taken to accept the characters of the
  review.
\<close>

theorem run_pipeline_returns:
  assumes "model_loaded e" and "exists w path" and "get_code_files e path \<noteq> []"
    and "openpyxl_installed e \<longrightarrow> creatable e w (excel_filename opts)"
    and "export_json opts \<longrightarrow> creatable e w json_path"
  shows "fst (run_pipeline e path opts w)
           = Inr (Some (py_join [NL, NL]
               (reviews_in e (length (sent w))
                  (drop (length (sent w)) (sent (snd (run_pipeline e path opts w)))))))
       \<and> length (reviews_in e (length (sent w))
                  (drop (length (sent w)) (sent (snd (run_pipeline e path opts w)))))
           = length (run_groups e path opts w)"
proof -
  let ?w3 = "snd (read_contents e (get_code_files e path)
      (tell opts (Analyzing (length (get_code_files e path))) (banner opts w)))"
  let ?bs = "zip (run_batches e path opts w) (run_groups e path opts w)"
  let ?r = "review_batches e opts path 1 (length (run_batches e path opts w)) ?bs [] ?w3"
  from review_batches_returns [OF assms(1), of opts path 1 "length (run_batches e path opts w)" ?bs "[]" ?w3]
  obtain ps where ps: "sent (snd ?r) = sent w @ ps"
    "fst ?r = Inr (reviews_in e (length (sent w)) ps)"
    by auto
  define w1 where "w1 = snd ?r"
  have c: "creatable e w1 q \<longleftrightarrow> creatable e w q" for q
    unfolding w1_def creatable_def by (simp add: review_batches_Dir)
  have l: "length (reviews_in e (length (sent w)) ps) = length (run_groups e path opts w)"
    using review_batches_length [OF ps(2)] by (simp add: run_batches_def)
  have x: "fst (export_results e opts (reviews_in e (length (sent w)) ps) w1)
      = Inr (Some (py_join [NL, NL] (reviews_in e (length (sent w)) ps)))"
    using assms(4,5) by (intro export_results_ok) (simp_all add: c)
  have "?r = (Inr (reviews_in e (length (sent w)) ps), w1)"
    using ps(2) by (simp add: w1_def prod_eq_iff)
  then have "run_pipeline e path opts w = export_results e opts (reviews_in e (length (sent w)) ps) w1"
    using assms(2,3) by (simp add: run_pipeline_run)
  moreover have "sent w1 = sent w @ ps" using ps(1) by (simp add: w1_def)
  ultimately show ?thesis using x l by simp
qed

theorem run_pipeline_returns_witness:
  "fst (run_pipeline sample_env ''proj'' sample_opts sample_world)
     = Inr (Some (py_join [NL, NL] (reviews_in sample_env 0
         (sent (snd (run_pipeline sample_env ''proj'' sample_opts sample_world))))))
   \<and> length (reviews_in sample_env 0
         (sent (snd (run_pipeline sample_env ''proj'' sample_opts sample_world)))) = 1"
proof -
  have h: "model_loaded sample_env" "exists sample_world ''proj''"
    "get_code_files sample_env ''proj'' \<noteq> []"
    "openpyxl_installed sample_env \<longrightarrow> creatable sample_env sample_world (excel_filename sample_opts)"
    "export_json sample_opts \<longrightarrow> creatable sample_env sample_world json_path"
    by (simp_all add: sample_exists sample_files creatable_def json_path_def)
      (simp add: sample_world_def)
  have g: "length (run_groups sample_env ''proj'' sample_opts sample_world) = 1"
    by (simp add: run_groups_def sample_files)
  from run_pipeline_returns [OF h] g show ?thesis by simp
qed

text \<open>
  C18: A batch is reviewed and then fixed before the next one: the prompts of one
  batch are its review prompt followed by fix prompts for files of that batch, in
  order, each carrying the review the model gave for this batch; without
  \<open>autofix\<close> there are no fix prompts.
\<close>

theorem review_batch_prompts:
  assumes "model_loaded e"
  shows "\<exists>fc. sent (snd (review_batch e opts path i n (batch, g) w))
            = sent w @ review_prompt opts batch
                # map (\<lambda>(f, c). fix_prompt (review_of e opts batch w) f c) fc
          \<and> subseq (map fst fc) g \<and> [] \<notin> snd ` set fc \<and> (\<not> autofix opts \<longrightarrow> fc = [])"
  using assms by (rule review_batch_sent)

theorem review_batch_prompts_witness:
  "\<exists>fc. sent (snd (review_batch sample_env sample_opts ''proj'' 1 1
                   (''code'', [''proj/a.py'']) sample_world))
          = review_prompt sample_opts ''code''
              # map (\<lambda>(f, c). fix_prompt (review_of sample_env sample_opts ''code'' sample_world) f c) fc
        \<and> subseq (map fst fc) [''proj/a.py'']"
proof -
  have h: "model_loaded sample_env" by simp
  from review_batch_prompts [OF h, of sample_opts "''proj''" 1 1 "''code''" "[''proj/a.py'']" sample_world]
  obtain fc where
    "sent (snd (review_batch sample_env sample_opts ''proj'' 1 1
                   (''code'', [''proj/a.py'']) sample_world))
       = sent sample_world @ review_prompt sample_opts ''code''
           # map (\<lambda>(f, c). fix_prompt (review_of sample_env sample_opts ''code'' sample_world) f c) fc"
    "subseq (map fst fc) [''proj/a.py'']"
    by blast
  then show ?thesis by (intro exI [of _ fc]) simp
qed

end
