(* ===== verification/Frontend.thy ===== *)
theory Frontend
  imports Pipeline
begin

text \<open>
  The two callers of \<^verbatim>\<open>run_pipeline\<close>: the command line (\<^verbatim>\<open>main\<close>, lines 703 to 721 of
  \<^verbatim>\<open>src/app.py\<close>) and the run button of the interface (\<^verbatim>\<open>on_run\<close> with its \<^verbatim>\<open>worker\<close>,
  lines 669 to 697).

  \<^item> The parsed arguments of the command line are the record \<open>cli_args\<close>; the
    parser itself is not modelled.  \<open>main_cli\<close> is \<^verbatim>\<open>main\<close> from line 708 on.
  \<^item> The fields of the form are the record \<open>form\<close>; the number field is \<open>None\<close> when
    its text is not an integer (\<^verbatim>\<open>IntVar.get\<close> raises).  \<open>on_run\<close> is the handler,
    \<open>worker\<close> the body of the thread it starts; here the worker runs to its end at
    once, and theory \<open>Session\<close> adds the states of the window that \<^verbatim>\<open>set_running\<close>
    toggles.

  The lemmas show which options each caller passes, that the worker turns every
  exception of the pipeline into a line of the log while the command line lets it
  escape, and how a fix is decided in a run started from the interface.
\<close>

section \<open>The command line\<close>

record cli_args =
  path_arg :: path
  json_flag :: bool
  autofix_flag :: bool
  apply_all_flag :: bool
  userprompt_arg :: "string option"
  max_chars_arg :: int

definition cli_opts :: "cli_args \<Rightarrow> run_opts" where
  "cli_opts a =
     \<lparr>apply_all = apply_all_flag a, interactive = False, prompt_func = False, ui_logger = False,
      export_json = json_flag a, autofix = autofix_flag a, userprompt = userprompt_arg a,
      max_chars = max_chars_arg a, excel_filename = ''project_review.xlsx''\<rparr>"

definition main_cli :: "env \<Rightarrow> cli_args \<Rightarrow> world \<Rightarrow> string option outcome \<times> world" where
  "main_cli e a w =
     run_pipeline e (path_arg a) (cli_opts a) (print_logo (clear_screen w))"

section \<open>The run button\<close>

record form =
  path_var :: string
  json_var :: bool
  autofix_var :: bool
  apply_all_var :: bool
  userprompt_var :: string
  maxchars_var :: "int option"

definition worker_opts :: "form \<Rightarrow> run_opts" where
  "worker_opts f =
     (let interactive = autofix_var f \<and> \<not> apply_all_var f
      in \<lparr>apply_all = apply_all_var f, interactive = interactive, prompt_func = interactive,
          ui_logger = True, export_json = json_var f, autofix = autofix_var f,
          userprompt = (if py_strip (userprompt_var f) = [] then None
                        else Some (py_strip (userprompt_var f))),
          max_chars = (case maxchars_var f of Some n \<Rightarrow> n | None \<Rightarrow> 200000),
          excel_filename = ''project_review.xlsx''\<rparr>)"

definition worker :: "env \<Rightarrow> form \<Rightarrow> world \<Rightarrow> world" where
  "worker e f w =
     (case run_pipeline e (py_strip (path_var f)) (worker_opts f) w of
        (Inl err, w') \<Rightarrow> emit Ui (Failure err) w'
      | (Inr r, w') \<Rightarrow> w')"

definition on_run :: "env \<Rightarrow> form \<Rightarrow> world \<Rightarrow> world" where
  "on_run e f w = (if py_strip (path_var f) = [] then emit Ui SelectFolder w else worker e f w)"

lemmas frontend_defs = on_run_def worker_def worker_opts_def main_cli_def cli_opts_def

section \<open>What the callers pass\<close>

lemma worker_opts_simps [simp]:
  "ui_logger (worker_opts f)" "apply_all (worker_opts f) = apply_all_var f"
  "autofix (worker_opts f) = autofix_var f"
  "prompt_func (worker_opts f) = (autofix_var f \<and> \<not> apply_all_var f)"
  "export_json (worker_opts f) = json_var f"
  "excel_filename (worker_opts f) = ''project_review.xlsx''"
  by (simp_all add: worker_opts_def Let_def)

lemma cli_opts_simps [simp]:
  "\<not> ui_logger (cli_opts a)" "apply_all (cli_opts a) = apply_all_flag a"
  "autofix (cli_opts a) = autofix_flag a" "\<not> prompt_func (cli_opts a)"
  "export_json (cli_opts a) = json_flag a"
  "excel_filename (cli_opts a) = ''project_review.xlsx''"
  by (simp_all add: cli_opts_def)

lemma worker_world:
  "fs (worker e f w) = fs (snd (run_pipeline e (py_strip (path_var f)) (worker_opts f) w))"
  "sent (worker e f w) = sent (snd (run_pipeline e (py_strip (path_var f)) (worker_opts f) w))"
  by (simp_all add: worker_def split: prod.splits sum.splits)

lemma worker_out:
  "out (worker e f w) =
     out (snd (run_pipeline e (py_strip (path_var f)) (worker_opts f) w))
     @ (case fst (run_pipeline e (py_strip (path_var f)) (worker_opts f) w) of
          Inl err \<Rightarrow> [(Ui, Failure err)] | Inr r \<Rightarrow> [])"
  by (simp add: worker_def split: prod.splits sum.splits)

section \<open>Properties\<close>

text \<open>
  In a run started from the interface with fixes requested, a fix is written
  exactly when \<open>apply_all\<close> is set or the user answers yes: the callback is always
  there when a question is due.
\<close>

theorem worker_approved:
  assumes "autofix_var f"
  shows "approved e (fix_opts_of (worker_opts f)) p n \<longleftrightarrow> apply_all_var f \<or> user_says e n p"
  using assms by (auto simp: approved_def)

theorem worker_approved_witness:
  "approved (sample_env\<lparr>user_says := (\<lambda>n p. True)\<rparr>)
     (fix_opts_of (worker_opts \<lparr>path_var = ''proj'', json_var = False, autofix_var = True,
        apply_all_var = False, userprompt_var = [], maxchars_var = None\<rparr>)) ''proj/a.py'' 0"
proof -
  let ?f = "\<lparr>path_var = ''proj'', json_var = False, autofix_var = True,
        apply_all_var = False, userprompt_var = [], maxchars_var = None\<rparr>"
  have h: "autofix_var ?f" by simp
  show ?thesis
    using worker_approved [OF h, of "sample_env\<lparr>user_says := (\<lambda>n p. True)\<rparr>" "''proj/a.py''" 0]
    by simp
qed

text \<open>
  The worker of the interface lets no exception escape: an exception of the
  pipeline becomes the last line of the log, and without a model a run over a
  project with source files changes no file and sends nothing.
\<close>

theorem worker_model_unavailable:
  assumes "exists w (py_strip (path_var f))"
    and "get_code_files e (py_strip (path_var f)) \<noteq> []" and "\<not> model_loaded e"
  shows "last (out (worker e f w)) = (Ui, Failure RuntimeError)
       \<and> fs (worker e f w) = fs w \<and> sent (worker e f w) = sent w"
  using run_pipeline_unavailable [OF assms, of "worker_opts f"]
  by (simp add: worker_def)

theorem worker_model_unavailable_witness:
  "last (out (worker (sample_env\<lparr>model_loaded := False\<rparr>)
      \<lparr>path_var = '' proj '', json_var = False, autofix_var = True, apply_all_var = False,
        userprompt_var = [], maxchars_var = None\<rparr> sample_world))
     = (Ui, Failure RuntimeError)"
proof -
  let ?e = "sample_env\<lparr>model_loaded := False\<rparr>"
  let ?f = "\<lparr>path_var = '' proj '', json_var = False, autofix_var = True, apply_all_var = False,
        userprompt_var = [], maxchars_var = None\<rparr>"
  have p: "py_strip (path_var ?f) = ''proj''" by code_simp
  have h: "exists sample_world (py_strip (path_var ?f))"
    "get_code_files ?e (py_strip (path_var ?f)) \<noteq> []" "\<not> model_loaded ?e"
    unfolding p by (simp_all add: sample_exists) code_simp
  show ?thesis using worker_model_unavailable [OF h] by simp
qed

text \<open>
  The command line lets the exception of a missing model escape: the run ends
  with \<^verbatim>\<open>RuntimeError\<close> and no file is changed.
\<close>

theorem main_cli_model_unavailable:
  assumes "exists w (path_arg a)" and "get_code_files e (path_arg a) \<noteq> []" and "\<not> model_loaded e"
  shows "fst (main_cli e a w) = Inl RuntimeError \<and> fs (snd (main_cli e a w)) = fs w"
proof -
  have "exists (emit Console Logo (emit Console ClearScreen w)) (path_arg a)"
    using assms(1) by (simp add: exists_def)
  from run_pipeline_unavailable [OF this assms(2,3), of "cli_opts a"]
  show ?thesis by (simp add: main_cli_def)
qed

theorem main_cli_model_unavailable_witness:
  "fst (main_cli (sample_env\<lparr>model_loaded := False\<rparr>)
      \<lparr>path_arg = ''proj'', json_flag = False, autofix_flag = False, apply_all_flag = False,
        userprompt_arg = None, max_chars_arg = 200000\<rparr> sample_world)
     = Inl RuntimeError"
proof -
  let ?e = "sample_env\<lparr>model_loaded := False\<rparr>"
  let ?a = "\<lparr>path_arg = ''proj'', json_flag = False, autofix_flag = False, apply_all_flag = False,
        userprompt_arg = None, max_chars_arg = 200000\<rparr>"
  have h: "exists sample_world (path_arg ?a)" "get_code_files ?e (path_arg ?a) \<noteq> []"
    "\<not> model_loaded ?e"
    by (simp_all add: sample_exists) code_simp
  show ?thesis using main_cli_model_unavailable [OF h] by simp
qed

end
