(* ===== verification/Session.thy ===== *)
theory Session
  imports Frontend
begin

text \<open>
  The window while the program runs: \<^verbatim>\<open>set_running\<close> (lines 644 to 667 of
  \<^verbatim>\<open>src/app.py\<close>) and the events around \<^verbatim>\<open>on_run\<close> (lines 669 to 697).

  \<^item> The record \<open>session\<close> holds the flag \<^verbatim>\<open>is_running\<close>, whether the controls are
    enabled, the texts of the status label and of the run button, whether the
    progress bar is shown, the fields of the form, the worker that is running, and
    the world the worker acts on.
  \<^item> \<open>click\<close> is the handler of the run button: it puts the default into a number
    field that does not hold an integer (lines 675 to 679), asks for a folder when
    there is none, and otherwise disables the controls and starts the worker.
    \<open>finish\<close> is the end of the worker with the call of \<^verbatim>\<open>set_running(False)\<close> it
    schedules (line 695); the worker's effect on the world is \<open>Frontend.worker\<close>, taken as
    one step.  \<open>edit\<close> is the user changing the form.
  \<^item> \<open>ui_step\<close> is the transition relation: a click and an edit need enabled
    controls, since a disabled button calls no handler.

  The lemmas show the invariant that ties the flag, the controls and the worker
  together, that no second worker starts while one runs, and that the controls
  come back when the worker ends, whatever the pipeline did.
\<close>

section \<open>State\<close>

record session =
  is_running :: bool
  enabled :: bool
  status :: string
  run_label :: string
  progress_shown :: bool
  inputs :: form
  job :: "form option"
  screen :: world

definition set_running :: "bool \<Rightarrow> session \<Rightarrow> session" where
  "set_running running s =
     s\<lparr>is_running := running, enabled := \<not> running,
       status := (if running then ''Running...'' else ''Idle''),
       run_label := (if running then ''Running...'' else ''Run''),
       progress_shown := running\<rparr>"

definition normalise :: "form \<Rightarrow> form" where
  "normalise f = (case maxchars_var f of None \<Rightarrow> f\<lparr>maxchars_var := Some 200000\<rparr> | Some n \<Rightarrow> f)"

definition click :: "session \<Rightarrow> session" where
  "click s =
     (let f = normalise (inputs s); s1 = s\<lparr>inputs := f\<rparr>
      in if py_strip (path_var f) = [] then s1\<lparr>screen := emit Ui SelectFolder (screen s1)\<rparr>
         else (set_running True s1)\<lparr>job := Some f\<rparr>)"

definition finish :: "env \<Rightarrow> session \<Rightarrow> session" where
  "finish e s =
     (case job s of
        None \<Rightarrow> s
      | Some f \<Rightarrow> set_running False (s\<lparr>screen := worker e f (screen s), job := None\<rparr>))"

definition edit :: "form \<Rightarrow> session \<Rightarrow> session" where
  "edit g s = s\<lparr>inputs := g\<rparr>"

definition session_init :: "form \<Rightarrow> world \<Rightarrow> session" where
  "session_init f w =
     \<lparr>is_running = False, enabled = True, status = ''Idle'', run_label = ''Run'',
      progress_shown = False, inputs = f, job = None, screen = w\<rparr>"

inductive ui_step :: "env \<Rightarrow> session \<Rightarrow> session \<Rightarrow> bool" for e where
  click: "enabled s \<Longrightarrow> ui_step e s (click s)"
| finish: "job s \<noteq> None \<Longrightarrow> ui_step e s (finish e s)"
| edit: "enabled s \<Longrightarrow> ui_step e s (edit g s)"

inductive_cases ui_stepE: "ui_step e s s'"

inductive ui_reachable :: "env \<Rightarrow> form \<Rightarrow> world \<Rightarrow> session \<Rightarrow> bool" for e f w where
  init: "ui_reachable e f w (session_init f w)"
| step: "ui_reachable e f w s \<Longrightarrow> ui_step e s s' \<Longrightarrow> ui_reachable e f w s'"

section \<open>The invariant\<close>

definition session_inv :: "session \<Rightarrow> bool" where
  "session_inv s \<longleftrightarrow>
     (job s = None) = (\<not> is_running s) \<and> enabled s = (\<not> is_running s)
   \<and> progress_shown s = is_running s
   \<and> status s = (if is_running s then ''Running...'' else ''Idle'')
   \<and> run_label s = (if is_running s then ''Running...'' else ''Run'')
   \<and> (case job s of None \<Rightarrow> True | Some f \<Rightarrow> py_strip (path_var f) \<noteq> [] \<and> maxchars_var f \<noteq> None)"

lemma normalise_simps [simp]:
  "path_var (normalise f) = path_var f" "maxchars_var (normalise f) \<noteq> None"
  "\<exists>n. maxchars_var (normalise f) = Some n" "worker_opts (normalise f) = worker_opts f"
  by (simp_all add: normalise_def worker_opts_def split: option.splits)

lemma worker_normalise: "worker e (normalise f) w = worker e f w"
  by (simp add: worker_def)

lemma session_init_simps [simp]:
  "enabled (session_init f w)" "job (session_init f w) = None" "inputs (session_init f w) = f"
  "screen (session_init f w) = w" "\<not> is_running (session_init f w)"
  by (simp_all add: session_init_def)

lemma session_inv_init: "session_inv (session_init f w)"
  by (simp add: session_inv_def session_init_def)

lemma session_inv_click: "enabled s \<Longrightarrow> session_inv s \<Longrightarrow> session_inv (click s)"
  by (simp add: session_inv_def click_def set_running_def Let_def)

lemma session_inv_finish: "session_inv s \<Longrightarrow> session_inv (finish e s)"
  by (cases "job s") (simp_all add: session_inv_def finish_def set_running_def)

lemma session_inv_edit: "session_inv s \<Longrightarrow> session_inv (edit g s)"
  by (simp add: session_inv_def edit_def)

lemma session_inv_step: "ui_step e s s' \<Longrightarrow> session_inv s \<Longrightarrow> session_inv s'"
  by (induction rule: ui_step.induct)
    (simp_all add: session_inv_click session_inv_finish session_inv_edit)

lemma ui_reachable_inv: "ui_reachable e f w s \<Longrightarrow> session_inv s"
  by (induction rule: ui_reachable.induct) (auto intro: session_inv_init session_inv_step)

lemma ui_reachable_click:
  "ui_reachable e f w (click (session_init f w))"
  by (rule ui_reachable.step [OF ui_reachable.init]) (simp add: ui_step.click session_init_def)

section \<open>Properties\<close>

text \<open>
  C23: In every state the window can reach, the flag \<^verbatim>\<open>is_running\<close> is set exactly
  while a worker runs, the controls are enabled exactly while none runs, and the
  worker that runs was started with a folder and a number in its form.
\<close>

theorem session_invariant:
  assumes "ui_reachable e f w s"
  shows "session_inv s"
  using assms by (rule ui_reachable_inv)

theorem session_invariant_witness:
  "ui_reachable sample_env
     \<lparr>path_var = ''proj'', json_var = False, autofix_var = False, apply_all_var = False,
       userprompt_var = [], maxchars_var = None\<rparr> sample_world
     (click (session_init \<lparr>path_var = ''proj'', json_var = False, autofix_var = False,
       apply_all_var = False, userprompt_var = [], maxchars_var = None\<rparr> sample_world))
   \<and> is_running (click (session_init \<lparr>path_var = ''proj'', json_var = False, autofix_var = False,
       apply_all_var = False, userprompt_var = [], maxchars_var = None\<rparr> sample_world))"
proof -
  let ?f = "\<lparr>path_var = ''proj'', json_var = False, autofix_var = False, apply_all_var = False,
       userprompt_var = [], maxchars_var = None\<rparr>"
  have r: "ui_reachable sample_env ?f sample_world (click (session_init ?f sample_world))"
    by (rule ui_reachable_click)
  have j: "job (click (session_init ?f sample_world)) \<noteq> None"
    by (simp add: click_def session_init_def Let_def set_running_def py_eval)
  from session_invariant [OF r] j r show ?thesis by (simp add: session_inv_def)
qed

text \<open>
  C16: While a worker runs no second one can be started: the only event the window
  accepts is the end of the worker, after which the controls are enabled again and
  the world is the one the worker left, also when the pipeline raised.
\<close>

theorem single_worker:
  assumes "ui_reachable e f w s" and "job s = Some g" and "ui_step e s s'"
  shows "s' = finish e s \<and> job s' = None \<and> enabled s' \<and> \<not> is_running s'
       \<and> screen s' = worker e g (screen s)"
proof -
  from ui_reachable_inv [OF assms(1)] assms(2) have "\<not> enabled s"
    by (simp add: session_inv_def)
  with assms(3) have "s' = finish e s" by (auto elim: ui_stepE)
  with assms(2) show ?thesis by (simp add: finish_def set_running_def)
qed

theorem single_worker_witness:
  "enabled (finish sample_env (click (session_init
      \<lparr>path_var = ''proj'', json_var = False, autofix_var = False, apply_all_var = False,
        userprompt_var = [], maxchars_var = None\<rparr> sample_world)))
   \<and> \<not> enabled (click (session_init
      \<lparr>path_var = ''proj'', json_var = False, autofix_var = False, apply_all_var = False,
        userprompt_var = [], maxchars_var = None\<rparr> sample_world))"
proof -
  let ?f = "\<lparr>path_var = ''proj'', json_var = False, autofix_var = False, apply_all_var = False,
       userprompt_var = [], maxchars_var = None\<rparr>"
  let ?s = "click (session_init ?f sample_world)"
  have r: "ui_reachable sample_env ?f sample_world ?s" by (rule ui_reachable_click)
  have j: "job ?s = Some (normalise ?f)" and n: "\<not> enabled ?s"
    by (simp_all add: click_def session_init_def Let_def set_running_def py_eval)
  have st: "ui_step sample_env ?s (finish sample_env ?s)"
    by (rule ui_step.finish) (simp add: j)
  from single_worker [OF r j st] n show ?thesis by simp
qed

text \<open>
  A click on the run button followed by the end of the worker has the effect of
  \<^verbatim>\<open>on_run\<close> on the world, and leaves the form with a number in its number field.
\<close>

theorem click_finish:
  assumes "enabled s" "job s = None"
  shows "screen (finish e (click s)) = on_run e (inputs s) (screen s)
       \<and> maxchars_var (inputs (finish e (click s))) \<noteq> None"
  using assms
  by (simp add: click_def finish_def on_run_def Let_def set_running_def worker_normalise)


theorem click_finish_witness:
  "screen (finish sample_env (click (session_init
      \<lparr>path_var = ''  '', json_var = False, autofix_var = False, apply_all_var = False,
        userprompt_var = [], maxchars_var = None\<rparr> sample_world)))
     = emit Ui SelectFolder sample_world"
proof -
  let ?f = "\<lparr>path_var = ''  '', json_var = False, autofix_var = False, apply_all_var = False,
       userprompt_var = [], maxchars_var = None\<rparr>"
  have p: "py_strip ''  '' = []" by code_simp
  have h: "enabled (session_init ?f sample_world)" "job (session_init ?f sample_world) = None"
    by simp_all
  from click_finish [OF h, of sample_env] show ?thesis
    by (simp add: on_run_def p)
qed

end
