(* ===== verification/Monotone.thy ===== *)
theory Monotone
  imports Frontend
begin

text \<open>
  What a run leaves behind only grows.  The transcript of the output, the list of
  the prompts sent to the model and the count of the questions put to the user are
  the history of a run; this theory shows, operation by operation and from the file
  system up to the two callers of the pipeline, that each of them extends the
  history it is given and never rewrites it.  The relation is \<open>grows\<close>; every lemma has
  the form that an operation applied to a later world yields a later world, so that
  the lemma of a composed operation follows from the lemmas of its parts.  They carry
  the last theorem: what the command line prints first.
\<close>

section \<open>The order on worlds\<close>

definition grows :: "world \<Rightarrow> world \<Rightarrow> bool" where
  "grows w w' \<longleftrightarrow> prefix (out w) (out w') \<and> prefix (sent w) (sent w') \<and> asked w \<le> asked w'"

named_theorems grows_intros \<open>operations that extend the history of a run\<close>

lemma grows_refl [simp, grows_intros]: "grows w w"
  by (simp add: grows_def)

lemma grows_trans: "grows a b \<Longrightarrow> grows b c \<Longrightarrow> grows a c"
  by (auto simp: grows_def intro: prefix_trans)

lemma grows_emit [grows_intros]: "grows w w' \<Longrightarrow> grows w (emit ch m w')"
  by (auto simp: grows_def intro: prefix_trans)

lemma grows_fs [grows_intros]: "grows w w' \<Longrightarrow> grows w (w'\<lparr>fs := f\<rparr>)"
  by (simp add: grows_def)

lemma grows_and_then:
  assumes "grows w (snd r)" and "\<And>x w'. grows w w' \<Longrightarrow> grows w (snd (k x w'))"
  shows "grows w (snd (and_then r k))"
  using assms by (cases r; cases "fst r") auto

section \<open>Files\<close>

lemma grows_read_file [grows_intros]: "grows w w' \<Longrightarrow> grows w (snd (read_file e p w'))"
  by (auto simp: read_file_def intro: grows_intros split: option.splits node.splits)

lemma grows_safe_backup [grows_intros]: "grows w w' \<Longrightarrow> grows w (safe_backup e p w')"
  by (auto simp: safe_backup_def copyfile_def intro: grows_intros split: option.splits node.splits)

lemma grows_write_file [grows_intros]: "grows w w' \<Longrightarrow> grows w (write_file e p c w')"
  by (auto simp: write_file_def write_text_def Let_def intro!: grows_intros)

section \<open>The model and the user\<close>

lemma grows_call_model [grows_intros]: "grows w w' \<Longrightarrow> grows w (snd (call_model e p w'))"
  by (auto simp: call_model_def grows_def intro: prefix_trans)

lemma grows_review_project [grows_intros]:
  "grows w w' \<Longrightarrow> grows w (snd (review_project e c u w'))"
  by (auto simp: reviewer_defs grows_def intro: prefix_trans split: reply.splits)

lemma grows_ask_user [grows_intros]: "grows w w' \<Longrightarrow> grows w (snd (ask_user e p w'))"
  by (simp add: ask_user_def grows_def)

lemma grows_read_input [grows_intros]: "grows w w' \<Longrightarrow> grows w (snd (read_input e p w'))"
  by (auto simp: read_input_def grows_def intro: prefix_trans)

section \<open>Fixes\<close>

lemma grows_show_fix [grows_intros]: "grows w w' \<Longrightarrow> grows w (show_fix opts p c w')"
  by (auto simp: show_fix_def Let_def intro!: grows_intros)

lemma grows_decide_fix [grows_intros]: "grows w w' \<Longrightarrow> grows w (decide_fix e opts p c w')"
  using grows_ask_user [of w w' e p] grows_read_input [of w w' e p]
  by (auto simp: decide_fix_def say_def intro!: grows_intros
      split: prod.splits option.splits bool.splits)

lemma grows_fix_file [grows_intros]: "grows w w' \<Longrightarrow> grows w (fix_file e opts r p w')"
proof -
  assume g: "grows w w'"
  obtain c w1 where r: "read_file e p w' = (c, w1)" by (cases "read_file e p w'")
  with grows_read_file [OF g, of e p] have g1: "grows w w1" by simp
  show ?thesis
  proof (cases "c = None \<or> c = Some []")
    case True
    with r g1 show ?thesis by (auto simp: fix_file_def)
  next
    case False
    then obtain code where c: "c = Some code" "code \<noteq> []" by auto
    obtain y w2 where m: "call_model e (fix_prompt r p code) w1 = (y, w2)"
      by (cases "call_model e (fix_prompt r p code) w1")
    with grows_call_model [OF g1, of e "fix_prompt r p code"] have "grows w w2" by simp
    then show ?thesis
      by (cases y) (simp_all add: fix_file_def r c m Let_def grows_intros)
  qed
qed

lemma grows_fix_files [grows_intros]: "grows w w' \<Longrightarrow> grows w (fix_files e opts r ps w')"
  unfolding fix_files_def by (induction ps arbitrary: w') (simp_all add: grows_intros)

lemma grows_auto_fix_project [grows_intros]:
  "grows w w' \<Longrightarrow> grows w (snd (auto_fix_project e path r ps opts w'))"
  by (simp add: auto_fix_project_def grows_intros)

section \<open>Exports\<close>

lemma grows_save_to_excel [grows_intros]: "grows w w' \<Longrightarrow> grows w (snd (save_to_excel e r f w'))"
  by (simp add: save_to_excel_def grows_intros)

lemma grows_save_json [grows_intros]: "grows w w' \<Longrightarrow> grows w (snd (save_json e ui r w'))"
  by (simp add: save_json_def write_text_def grows_intros)

section \<open>The pipeline\<close>

lemma grows_tell [grows_intros]: "grows w w' \<Longrightarrow> grows w (tell opts m w')"
  by (simp add: tell_def grows_intros)

lemma grows_banner [grows_intros]: "grows w w' \<Longrightarrow> grows w (banner opts w')"
  by (simp add: banner_def grows_intros)

lemma grows_show_review [grows_intros]: "grows w w' \<Longrightarrow> grows w (show_review opts i n c w')"
  by (simp add: show_review_def grows_intros)

lemma grows_read_contents [grows_intros]:
  "grows w w' \<Longrightarrow> grows w (snd (read_contents e files w'))"
proof (induction files rule: rev_induct)
  case (snoc f files)
  then show ?case
    by (simp add: read_contents_snoc grows_intros split: prod.splits)
      (metis grows_read_file snd_conv)
qed simp

lemma grows_review_batch [grows_intros]:
  "grows w w' \<Longrightarrow> grows w (snd (review_batch e opts path i n b w'))"
  unfolding review_batch_def
  by (cases b) (auto simp: Let_def intro!: grows_and_then grows_intros)

lemma grows_review_batches [grows_intros]:
  "grows w w' \<Longrightarrow> grows w (snd (review_batches e opts path i n bs rs w'))"
  by (induction bs arbitrary: i rs w') (auto intro!: grows_and_then grows_intros)

lemma grows_export_results [grows_intros]:
  "grows w w' \<Longrightarrow> grows w (snd (export_results e opts rs w'))"
  unfolding export_results_def
  by (auto simp: Let_def intro!: grows_and_then grows_intros)

lemma grows_run_pipeline_banner:
  assumes g: "grows w (banner opts w')"
  shows "grows w (snd (run_pipeline e path opts w'))"
proof -
  let ?files = "get_code_files e path"
  let ?w2 = "tell opts (Analyzing (length ?files)) (banner opts w')"
  obtain m w3 where r: "read_contents e ?files ?w2 = (m, w3)"
    by (cases "read_contents e ?files ?w2")
  have "grows w (snd (read_contents e ?files ?w2))"
    using g by (intro grows_read_contents grows_tell)
  with r have g3: "grows w w3" by simp
  have "grows w (snd (and_then (review_batches e opts path 1 n bs [] w3) (export_results e opts)))"
    for n bs
    using g3 by (intro grows_and_then grows_intros)
  with g g3 show ?thesis
    by (auto simp: run_pipeline_def Let_def r intro!: grows_tell split: sum.splits)
qed

lemma grows_run_pipeline [grows_intros]:
  "grows w w' \<Longrightarrow> grows w (snd (run_pipeline e path opts w'))"
  by (intro grows_run_pipeline_banner grows_banner)

section \<open>The callers\<close>

lemma grows_worker [grows_intros]: "grows w w' \<Longrightarrow> grows w (worker e f w')"
  using grows_run_pipeline [of w w' e "py_strip (path_var f)" "worker_opts f"]
  by (auto simp: worker_def intro: grows_intros split: prod.splits sum.splits)

lemma grows_on_run [grows_intros]: "grows w w' \<Longrightarrow> grows w (on_run e f w')"
  by (simp add: on_run_def grows_intros)

lemma grows_main_cli [grows_intros]: "grows w w' \<Longrightarrow> grows w (snd (main_cli e a w'))"
  by (simp add: main_cli_def grows_intros)


section \<open>Properties\<close>

text \<open>
  On the command line the screen is cleared and the logo printed twice before
  anything else: once by \<^verbatim>\<open>main\<close> and once more by \<^verbatim>\<open>run_pipeline\<close>.
\<close>

theorem main_cli_banner_twice:
  "prefix (out w @ [(Console, ClearScreen), (Console, Logo), (Console, ClearScreen), (Console, Logo)])
     (out (snd (main_cli e a w)))"
proof -
  let ?w = "emit Console Logo (emit Console ClearScreen w)"
  have "grows (banner (cli_opts a) ?w) (snd (run_pipeline e (path_arg a) (cli_opts a) ?w))"
    by (intro grows_run_pipeline_banner grows_refl)
  then show ?thesis by (simp add: grows_def main_cli_def banner_def)
qed

end
