(* ===== verification/Regex.thy ===== *)
theory Regex
  imports Py_Prelude
begin

text \<open>
  A reference semantics for the regular expressions of \<^verbatim>\<open>src/app.py\<close> (lines 88, 89,
  91 and 547), after the backtracking matcher of Python's \<^verbatim>\<open>re\<close>: a pattern applied
  at a position yields the list of its possible ends in the order the matcher tries
  them (greedy repetition first, alternatives left to right), and the match is the
  first of them.  A position is the rest of the subject together with the flag that
  no character has been consumed yet, which is what \<^verbatim>\<open>^\<close> tests; \<^verbatim>\<open>$\<close> holds at the
  end and before a final newline.

  The component theories define each substitution directly on strings; this theory
  is the specification those definitions are proved equal to.
\<close>

section \<open>Patterns\<close>

datatype regex =
    Lit string
  | LitCI string
  | Class "char \<Rightarrow> bool"
  | Bol
  | Eol
  | Seq regex regex
  | Alt regex regex
  | Opt regex
  | Star regex

type_synonym pos = "bool \<times> string"

abbreviation Plus :: "regex \<Rightarrow> regex" where
  "Plus r \<equiv> Seq r (Star r)"

section \<open>The matcher\<close>

text \<open>
  An iteration of a starred pattern that consumes nothing ends the repetition, as in
  \<^verbatim>\<open>re\<close>; this is the guard that makes the recursion terminate.
\<close>

function matches :: "regex \<Rightarrow> pos \<Rightarrow> pos list" where
  "matches (Lit l) (b, s) = (if prefix l s then [(b \<and> l = [], drop (length l) s)] else [])"
| "matches (LitCI l) (b, s) =
     (if length l \<le> length s \<and> py_lower (take (length l) s) = py_lower l
      then [(b \<and> l = [], drop (length l) s)] else [])"
| "matches (Class P) (b, s) = (case s of [] \<Rightarrow> [] | c # r \<Rightarrow> if P c then [(False, r)] else [])"
| "matches Bol (b, s) = (if b then [(b, s)] else [])"
| "matches Eol (b, s) = (if s = [] \<or> s = [NL] then [(b, s)] else [])"
| "matches (Seq r1 r2) p = concat (map (matches r2) (matches r1 p))"
| "matches (Alt r1 r2) p = matches r1 p @ matches r2 p"
| "matches (Opt r) p = matches r p @ [p]"
| "matches (Star r) p =
     concat (map (matches (Star r))
               (filter (\<lambda>q. length (snd q) < length (snd p)) (matches r p))) @ [p]"
  by pat_completeness auto

termination
  by (relation "measures [\<lambda>(r, p). size r, \<lambda>(r, p). length (snd p)]") auto

definition first_match :: "regex \<Rightarrow> pos \<Rightarrow> pos option" where
  "first_match r p = (case matches r p of [] \<Rightarrow> None | q # qs \<Rightarrow> Some q)"

text \<open>\<^verbatim>\<open>re.match(r, s)\<close>: whether the pattern matches at the start of \<open>s\<close>.\<close>

definition re_match :: "regex \<Rightarrow> string \<Rightarrow> bool" where
  "re_match r s \<longleftrightarrow> matches r (True, s) \<noteq> []"

text \<open>
  \<^verbatim>\<open>re.sub(r, '', s)\<close>: the subject without the matches found from left to right.
  After a match that consumed something the search goes on behind it; where the
  pattern does not match, or matches the empty string, the character is kept.
\<close>

function sub_from :: "regex \<Rightarrow> bool \<Rightarrow> string \<Rightarrow> string" where
  "sub_from r b s =
     (case first_match r (b, s) of
        Some (b', s') \<Rightarrow>
          if length s' < length s then sub_from r False s'
          else (case s of [] \<Rightarrow> [] | c # t \<Rightarrow> c # sub_from r False t)
      | None \<Rightarrow> (case s of [] \<Rightarrow> [] | c # t \<Rightarrow> c # sub_from r False t))"
  by pat_completeness auto

termination
  by (relation "measure (\<lambda>(r, b, s). length s)") auto

definition re_sub :: "regex \<Rightarrow> string \<Rightarrow> string" where
  "re_sub r s = sub_from r True s"

text \<open>
  \<^verbatim>\<open>re.split(r, s)\<close> for a pattern that is one capturing group and never matches the
  empty string: the texts between the matches and the matches, in turn.  \<open>cur\<close> is
  the text read since the last match.
\<close>

function split_from :: "regex \<Rightarrow> bool \<Rightarrow> string \<Rightarrow> string \<Rightarrow> string list" where
  "split_from r b cur [] = [cur]"
| "split_from r b cur (c # t) =
     (case first_match r (b, c # t) of
        Some (b', s') \<Rightarrow>
          if length s' < Suc (length t)
          then cur # take (Suc (length t) - length s') (c # t) # split_from r False [] s'
          else split_from r False (cur @ [c]) t
      | None \<Rightarrow> split_from r False (cur @ [c]) t)"
  by pat_completeness auto

termination
  by (relation "measure (\<lambda>(r, b, cur, s). length s)") auto

definition re_split :: "regex \<Rightarrow> string \<Rightarrow> string list" where
  "re_split r s = split_from r True [] s"

text \<open>\<open>within P r\<close>: the pattern consumes only characters that satisfy \<open>P\<close>.\<close>

fun within :: "(char \<Rightarrow> bool) \<Rightarrow> regex \<Rightarrow> bool" where
  "within P (Lit l) = list_all P l"
| "within P (LitCI l) = (\<forall>c. py_lower_char c \<in> set (py_lower l) \<longrightarrow> P c)"
| "within P (Class Q) = (\<forall>c. Q c \<longrightarrow> P c)"
| "within P Bol = True"
| "within P Eol = True"
| "within P (Seq r1 r2) = (within P r1 \<and> within P r2)"
| "within P (Alt r1 r2) = (within P r1 \<and> within P r2)"
| "within P (Opt r) = within P r"
| "within P (Star r) = within P r"

lemmas matches_Star = matches.simps(9)

declare sub_from.simps [simp del] matches.simps(9) [simp del] split_from.simps(2) [simp del]

lemma in_matches_Star:
  "q \<in> set (matches (Star r) p) \<longleftrightarrow>
     q = p \<or> (\<exists>m \<in> set (matches r p). length (snd m) < length (snd p) \<and> q \<in> set (matches (Star r) m))"
  by (subst matches_Star) auto

section \<open>A match never lengthens the rest\<close>

lemma matches_length: "q \<in> set (matches r p) \<Longrightarrow> length (snd q) \<le> length (snd p)"
proof (induction r p arbitrary: q rule: matches.induct)
  case (6 r1 r2 p)
  then obtain m where m: "m \<in> set (matches r1 p)" "q \<in> set (matches r2 m)" by auto
  from "6.IH"(1) [OF m(1)] "6.IH"(2) [OF m(1) m(2)] show ?case by simp
next
  case (9 r p)
  show ?case
  proof (cases "q = p")
    case False
    with "9.prems" obtain m where m: "m \<in> set (matches r p)" "length (snd m) < length (snd p)"
      "q \<in> set (matches (Star r) m)"
      by (subst (asm) in_matches_Star) auto
    from "9.IH"(2) [of m q] m show ?thesis by simp
  qed simp
qed (auto split: if_splits list.splits)

section \<open>The first match\<close>

lemma first_some_append:
  "first_some f (xs @ ys) = (case first_some f xs of Some y \<Rightarrow> Some y | None \<Rightarrow> first_some f ys)"
  by (induction xs) (auto split: option.splits)

lemma first_some_single [simp]: "first_some f [x] = f x"
  by (cases "f x") simp_all

lemma first_concat:
  "(case concat (map f xs) of [] \<Rightarrow> None | q # qs \<Rightarrow> Some q)
     = first_some (\<lambda>x. case f x of [] \<Rightarrow> None | q # qs \<Rightarrow> Some q) xs"
proof (induction xs)
  case Nil
  then show ?case by simp
next
  case (Cons a xs)
  then show ?case by (cases "f a") simp_all
qed

lemma first_match_first_some: "first_match r p = first_some Some (matches r p)"
  by (cases "matches r p") (simp_all add: first_match_def)

lemma first_match_Seq:
  "first_match (Seq r1 r2) p = first_some (first_match r2) (matches r1 p)"
  unfolding first_match_def [abs_def] by (simp add: first_concat)

lemma first_match_Alt:
  "first_match (Alt r1 r2) p
     = (case first_match r1 p of Some q \<Rightarrow> Some q | None \<Rightarrow> first_match r2 p)"
  by (simp add: first_match_def split: list.splits)

lemma first_match_Opt:
  "first_match (Opt r) p = (case first_match r p of Some q \<Rightarrow> Some q | None \<Rightarrow> Some p)"
  by (simp add: first_match_def split: list.splits)

lemma first_match_Bol: "first_match Bol (b, s) = (if b then Some (b, s) else None)"
  by (simp add: first_match_def)

lemma first_match_Seq_Bol:
  "first_match (Seq Bol r) (b, s) = (if b then first_match r (b, s) else None)"
  by (simp add: first_match_Seq split: option.splits)

lemma first_match_Lit:
  "first_match (Lit l) (b, s) = (if prefix l s then Some (b \<and> l = [], drop (length l) s) else None)"
  by (simp add: first_match_def)

lemma first_match_Seq_Lit:
  "first_match (Seq (Lit l) r) (b, s)
     = (if prefix l s then first_match r (b \<and> l = [], drop (length l) s) else None)"
  by (simp add: first_match_Seq split: option.splits)

lemmas first_match_simps = first_match_Seq_Bol first_match_Seq_Lit first_match_Alt first_match_Opt
  first_match_Bol first_match_Lit

section \<open>Greedy repetition of a character class\<close>

lemma matches_Star_Class_Nil [simp]: "matches (Star (Class P)) (b, []) = [(b, [])]"
  by (subst matches_Star) simp

lemma matches_Star_Class_Cons:
  "matches (Star (Class P)) (b, c # t)
     = (if P c then matches (Star (Class P)) (False, t) else []) @ [(b, c # t)]"
  by (subst matches_Star) simp

lemma dropWhile_neq_Cons: "dropWhile P t \<noteq> c # t"
proof
  assume "dropWhile P t = c # t"
  then have "length (dropWhile P t) = Suc (length t)" by simp
  with length_dropWhile_le [of P t] show False by simp
qed

text \<open>
  After a greedy \<open>Star (Class P)\<close> the matcher goes on at the first character outside
  the class; it backs off into the class only if the rest of the pattern can start
  with a character of the class.
\<close>

lemma first_some_Star_Class:
  assumes "f (b \<and> dropWhile P s = s, dropWhile P s) = None \<Longrightarrow> (\<forall>b' c t. P c \<longrightarrow> f (b', c # t) = None)"
  shows "first_some f (matches (Star (Class P)) (b, s)) = f (b \<and> dropWhile P s = s, dropWhile P s)"
  using assms
proof (induction s arbitrary: b)
  case Nil
  then show ?case by (simp split: option.splits)
next
  case (Cons c t)
  show ?case
  proof (cases "P c")
    case True
    have ih: "first_some f (matches (Star (Class P)) (False, t)) = f (False, dropWhile P t)"
      using Cons.IH [of False] Cons.prems True by (simp add: dropWhile_neq_Cons)
    show ?thesis
    proof (cases "f (False, dropWhile P t)")
      case None
      with Cons.prems True have "f (b, c # t) = None" by (simp add: dropWhile_neq_Cons)
      with None ih True show ?thesis
        by (simp add: matches_Star_Class_Cons first_some_append dropWhile_neq_Cons
            split: option.splits)
    next
      case (Some y)
      with ih True show ?thesis
        by (simp add: matches_Star_Class_Cons first_some_append dropWhile_neq_Cons
            split: option.splits)
    qed
  next
    case False
    then show ?thesis by (simp add: matches_Star_Class_Cons split: option.splits)
  qed
qed

lemma first_match_Seq_Star_Class:
  assumes "first_match r (b \<and> dropWhile P s = s, dropWhile P s) = None
           \<Longrightarrow> (\<forall>b' c t. P c \<longrightarrow> first_match r (b', c # t) = None)"
  shows "first_match (Seq (Star (Class P)) r) (b, s)
           = first_match r (b \<and> dropWhile P s = s, dropWhile P s)"
  unfolding first_match_Seq using assms by (rule first_some_Star_Class)

lemma first_match_Star_Class:
  "first_match (Star (Class P)) (b, s) = Some (b \<and> dropWhile P s = s, dropWhile P s)"
  unfolding first_match_first_some by (rule first_some_Star_Class) simp

section \<open>Substitution\<close>

lemma sub_from_no_match: "(\<And>u. first_match r (False, u) = None) \<Longrightarrow> sub_from r False s = s"
  by (induction s) (simp_all add: sub_from.simps)

lemma re_sub_anchored:
  assumes "\<And>u. first_match r (False, u) = None"
  shows "re_sub r s =
     (case first_match r (True, s) of
        Some (b', s') \<Rightarrow> if length s' < length s then s' else s
      | None \<Rightarrow> s)"
proof -
  have "(case s of [] \<Rightarrow> [] | c # t \<Rightarrow> c # sub_from r False t) = s"
    by (cases s) (simp_all add: sub_from_no_match [OF assms])
  then show ?thesis
    unfolding re_sub_def
    by (subst sub_from.simps) (simp add: sub_from_no_match [OF assms] split: option.splits)
qed

lemma first_match_length:
  "first_match r p = Some q \<Longrightarrow> length (snd q) \<le> length (snd p)"
  by (rule matches_length [of q r p]) (auto simp: first_match_def split: list.splits)

text \<open>
  A substitution by the empty string only deletes: the result is never longer
  than the subject, whatever the pattern.
\<close>

theorem length_sub_from: "length (sub_from r b s) \<le> length s"
proof (induction "length s" arbitrary: b s rule: less_induct)
  case less
  have tl: "length (case s of [] \<Rightarrow> [] | c # t \<Rightarrow> c # sub_from r False t) \<le> length s"
    using less [of _ False] by (cases s) simp_all
  show ?case
  proof (cases "first_match r (b, s)")
    case None
    with tl show ?thesis by (subst sub_from.simps) simp
  next
    case (Some q)
    obtain b' s' where q: "q = (b', s')" by (cases q)
    show ?thesis
    proof (cases "length s' < length s")
      case True
      with less [of s' False] Some q show ?thesis
        by (subst sub_from.simps) simp
    next
      case False
      with tl Some q show ?thesis by (subst sub_from.simps) simp
    qed
  qed
qed


section \<open>Membership\<close>

lemma in_matches_Seq:
  "m \<in> set (matches r1 p) \<Longrightarrow> q \<in> set (matches r2 m) \<Longrightarrow> q \<in> set (matches (Seq r1 r2) p)"
  by auto

lemma concat_map_concat:
  "concat (map f (concat (map g xs))) = concat (map (\<lambda>x. concat (map f (g x))) xs)"
  by (induction xs) simp_all

lemma matches_Seq_assoc: "matches (Seq (Seq r1 r2) r3) p = matches (Seq r1 (Seq r2 r3)) p"
proof -
  have "matches (Seq r2 r3) = (\<lambda>x. concat (map (matches r3) (matches r2 x)))"
    by (rule ext) simp
  then show ?thesis by (simp add: concat_map_concat)
qed

lemma first_match_Seq_assoc:
  "first_match (Seq (Seq r1 r2) r3) p = first_match (Seq r1 (Seq r2 r3)) p"
  unfolding first_match_def matches_Seq_assoc ..

lemma matches_Seq_Bol: "matches (Seq Bol r) (b, s) = (if b then matches r (b, s) else [])"
  by simp

lemma in_matches_Star_refl [simp]: "p \<in> set (matches (Star r) p)"
  by (subst matches_Star) simp

lemma in_matches_Opt_refl [simp]: "p \<in> set (matches (Opt r) p)"
  by simp

lemma in_matches_Star_Class_all:
  "list_all P s \<Longrightarrow> (b \<and> s = [], []) \<in> set (matches (Star (Class P)) (b, s))"
proof (induction s arbitrary: b)
  case (Cons c t)
  with Cons.IH [of False] show ?case by (simp add: matches_Star_Class_Cons)
qed simp

lemma in_matches_Plus_Class_all:
  "list_all P s \<Longrightarrow> s \<noteq> [] \<Longrightarrow> (False, []) \<in> set (matches (Plus (Class P)) (b, s))"
  using in_matches_Star_Class_all [of P "tl s" False]
  by (cases s) (auto split: if_splits)

lemma first_match_Seq_Class:
  "first_match (Seq (Class P) r) (b, s)
     = (case s of [] \<Rightarrow> None | c # t \<Rightarrow> if P c then first_match r (False, t) else None)"
  by (simp add: first_match_Seq split: list.splits option.splits)

section \<open>What a match consumes\<close>

lemma matches_within:
  "q \<in> set (matches r p) \<Longrightarrow> within P r \<Longrightarrow> \<exists>u. snd p = u @ snd q \<and> list_all P u"
proof (induction r p arbitrary: q rule: matches.induct)
  case (1 l b s)
  then show ?case by (auto simp: prefix_def split: if_splits)
next
  case (2 l b s)
  have "list_all P (take (length l) s)" if "py_lower (take (length l) s) = py_lower l"
    using that 2(2) by (auto simp: list_all_iff py_lower_def) (metis image_eqI list.set_map)
  with 2 show ?case
    by (auto split: if_splits intro!: exI [of _ "take (length l) s"])
next
  case (6 r1 r2 p)
  then obtain m where m: "m \<in> set (matches r1 p)" "q \<in> set (matches r2 m)" by auto
  from "6.IH"(1) [OF m(1)] "6.IH"(2) [OF m(1) m(2)] "6.prems"(2) show ?case by auto
next
  case (9 r p)
  show ?case
  proof (cases "q = p")
    case False
    with "9.prems" obtain m where m: "m \<in> set (matches r p)" "length (snd m) < length (snd p)"
      "q \<in> set (matches (Star r) m)"
      by (subst (asm) in_matches_Star) auto
    from "9.IH"(1) [OF m(1)] "9.IH"(2) [of m q] m "9.prems"(2) show ?thesis by auto
  qed simp
qed (auto split: if_splits list.splits)

end
