(* ===== verification/FenceRegex.thy ===== *)
theory FenceRegex
  imports CodeFences Regex
begin

text \<open>
  The three patterns of \<^verbatim>\<open>clean_code_fences\<close> (lines 88, 89 and 91 of \<^verbatim>\<open>src/app.py\<close>) as
  values of the datatype \<open>regex\<close>, and \<open>clean_code_fences_re\<close>, the function written
  with \<open>re_sub\<close> as the source writes it.  The theory shows that each direct
  definition of theory \<open>CodeFences\<close> is the substitution by its pattern, so that every
  property proved there holds of the function as written.
\<close>

section \<open>The patterns\<close>

definition open_fence_re :: regex where
  "open_fence_re = Seq Bol (Seq (Lit ''```'') (Seq (Star (Class is_lang_char)) (Opt (Lit [NL]))))"

definition close_fence_re :: regex where
  "close_fence_re = Seq (Opt (Lit [NL])) (Seq (Lit ''```'') Eol)"

definition label_tail_re :: regex where
  "label_tail_re = Seq (Star (Class py_isspace)) (Seq (Lit '':'') (Star (Class py_isspace)))"

definition label_alt_re :: regex where
  "label_alt_re = Alt (LitCI ''Fixed code'') (Alt (LitCI ''Corrected code'') (LitCI ''Suggested fix''))"

definition label_re :: regex where
  "label_re = Seq Bol (Seq (Star (Class py_isspace)) (Seq label_alt_re label_tail_re))"

definition clean_code_fences_re :: "string \<Rightarrow> string" where
  "clean_code_fences_re text =
     (if text = [] then []
      else py_strip (re_sub label_re (re_sub close_fence_re (re_sub open_fence_re (py_strip text))))
           @ [NL])"

section \<open>The opening fence\<close>

lemma first_match_open_fence:
  "map_option snd (first_match open_fence_re (b, s))
     = (if b \<and> prefix fence s
        then Some (drop_opt_nl (dropWhile is_lang_char (drop (length fence) s))) else None)"
proof -
  have o: "map_option snd (first_match (Opt (Lit [NL])) (b', v)) = Some (drop_opt_nl v)" for b' v
    by (cases v) (auto simp: first_match_simps drop_opt_nl_def)
  have nz: "first_match (Opt (Lit [NL])) p \<noteq> None" for p
    by (simp add: first_match_Opt split: option.splits)
  have "map_option snd (first_match (Seq (Star (Class is_lang_char)) (Opt (Lit [NL]))) (b', u))
      = Some (drop_opt_nl (dropWhile is_lang_char u))" for b' u
    by (subst first_match_Seq_Star_Class) (simp_all add: nz o)
  then show ?thesis by (simp add: open_fence_re_def first_match_simps fence_def)
qed

lemma re_sub_open_fence: "re_sub open_fence_re s = sub_open_fence s"
proof -
  have n: "first_match open_fence_re (False, u) = None" for u
    using first_match_open_fence [of False u] by simp
  show ?thesis
  proof (cases "prefix fence s")
    case True
    then obtain q where q: "first_match open_fence_re (True, s) = Some q"
      "snd q = drop_opt_nl (dropWhile is_lang_char (drop (length fence) s))"
      using first_match_open_fence [of True s] by auto
    have "suffix (snd q) (drop (length fence) s)"
      unfolding q(2) by (blast intro: suffix_trans suffix_drop_opt_nl suffix_dropWhile)
    then have "length (snd q) \<le> length s - length fence" by (auto dest: suffix_length_le)
    moreover have "length fence \<le> length s" "length fence = 3"
      using True by (auto dest: prefix_length_le simp: fence_def)
    ultimately have "length (snd q) < length s" by simp
    with q True show ?thesis
      by (cases q) (simp add: re_sub_anchored [OF n] sub_open_fence_def)
  next
    case False
    then have "first_match open_fence_re (True, s) = None"
      using first_match_open_fence [of True s] by simp
    with False show ?thesis by (simp add: re_sub_anchored [OF n] sub_open_fence_def)
  qed
qed

section \<open>The closing fence\<close>

text \<open>\<open>closes v\<close>: the fence followed by the end of the string, as \<^verbatim>\<open>```$\<close> matches it.\<close>

definition closes :: "string \<Rightarrow> bool" where
  "closes v \<longleftrightarrow> v = fence \<or> v = fence @ [NL]"

lemma first_match_Eol:
  "first_match Eol (b, u) = (if u = [] \<or> u = [NL] then Some (b, u) else None)"
  by (simp add: first_match_def)

lemma closes_iff:
  "closes v \<longleftrightarrow> prefix fence v \<and> (drop (length fence) v = [] \<or> drop (length fence) v = [NL])"
  by (auto simp: closes_def prefix_def)

lemma closes_Cons_NL [simp]: "\<not> closes (NL # v)"
  by (simp add: closes_def fence_def)

lemma first_match_close_body:
  "first_match (Seq (Lit fence) Eol) (b, v)
     = (if closes v then Some (False, drop (length fence) v) else None)"
  by (auto simp: first_match_Seq_Lit first_match_Eol closes_iff) (simp_all add: fence_def)

lemma first_match_close:
  "first_match close_fence_re (b, u)
     = (if closes u then Some (False, drop (length fence) u)
        else if prefix [NL] u \<and> closes (tl u) then Some (False, drop (Suc (length fence)) u)
        else None)"
proof -
  have e: "first_match close_fence_re (b, u)
      = first_some (first_match (Seq (Lit fence) Eol)) (matches (Opt (Lit [NL])) (b, u))"
    by (simp only: close_fence_re_def first_match_Seq fence_def)
  show ?thesis
  proof (cases "prefix [NL] u")
    case True
    then obtain v where u: "u = NL # v" by (cases u) auto
    show ?thesis unfolding e
      by (simp add: u first_match_close_body split: option.splits)
  next
    case False
    then show ?thesis unfolding e
      by (simp add: first_match_close_body split: option.splits)
  qed
qed

lemma sub_close_fence_shapes:
  "sub_close_fence [CHR 0x60, CHR 0x60, CHR 0x60] = []"
  "sub_close_fence [CHR 0x60, CHR 0x60, CHR 0x60, NL] = [NL]"
  "sub_close_fence [NL, CHR 0x60, CHR 0x60, CHR 0x60] = []"
  "sub_close_fence [NL, CHR 0x60, CHR 0x60, CHR 0x60, NL] = [NL]"
  by code_simp+

lemma chop_fence_append: "chop_fence (p @ fence) = (if suffix [NL] p then butlast p else p)"
  by (simp add: chop_fence_def)

lemma sub_close_fence_append:
  "sub_close_fence (p @ fence) = (if suffix [NL] p then butlast p else p)"
  "sub_close_fence (p @ fence @ [NL]) = (if suffix [NL] p then butlast p else p) @ [NL]"
proof -
  have "suffix fence (p @ fence)" by (simp add: suffix_def)
  then show "sub_close_fence (p @ fence) = (if suffix [NL] p then butlast p else p)"
    by (simp add: sub_close_fence_def chop_fence_append)
  have "\<not> suffix fence (p @ fence @ [NL])" by (auto simp: suffix_def fence_def)
  moreover have "butlast (p @ fence @ [NL]) = p @ fence" by (simp add: butlast_append fence_def)
  moreover have "suffix (fence @ [NL]) (p @ fence @ [NL])" by (simp add: suffix_def)
  ultimately show "sub_close_fence (p @ fence @ [NL]) = (if suffix [NL] p then butlast p else p) @ [NL]"
    by (simp only: sub_close_fence_def chop_fence_append if_True if_False)
qed

lemma sub_close_fence_Cons:
  assumes "\<not> closes (c # t)" and "\<not> (c = NL \<and> closes t)"
  shows "sub_close_fence (c # t) = c # sub_close_fence t"
proof -
  consider (a) p where "t = p @ fence" | (b) p where "t = p @ fence @ [NL]"
    | (c) "\<not> suffix fence t" "\<not> suffix (fence @ [NL]) t"
    by (auto simp: suffix_def)
  then show ?thesis
  proof cases
    case a
    with assms have "p = [] \<longrightarrow> c \<noteq> NL" by (auto simp: closes_def)
    with sub_close_fence_append(1) [of "c # p"] sub_close_fence_append(1) [of p] a
    show ?thesis by (cases p) (auto simp: suffix_Cons)
  next
    case b
    with assms have "p = [] \<longrightarrow> c \<noteq> NL" by (auto simp: closes_def)
    with sub_close_fence_append(2) [of "c # p"] sub_close_fence_append(2) [of p] b
    show ?thesis by (cases p) (auto simp: suffix_Cons)
  next
    case c
    with assms have "\<not> suffix fence (c # t)" "\<not> suffix (fence @ [NL]) (c # t)"
      by (auto simp: suffix_Cons closes_def)
    with c show ?thesis by (simp add: sub_close_fence_def)
  qed
qed

lemma sub_from_close_short:
  "sub_from close_fence_re b [] = []" "sub_from close_fence_re b [NL] = [NL]"
  by (simp_all add: sub_from.simps first_match_close closes_def fence_def)

lemma sub_from_close: "sub_from close_fence_re b s = sub_close_fence s"
proof (induction s arbitrary: b)
  case Nil
  show ?case by (simp add: sub_from_close_short) code_simp
next
  case (Cons c t)
  consider (here) "closes (c # t)" | (nl) "c = NL" "closes t"
    | (no) "\<not> closes (c # t)" "\<not> (c = NL \<and> closes t)"
    by auto
  then show ?case
  proof cases
    case here
    then show ?thesis
      by (subst sub_from.simps)
        (auto simp: first_match_close closes_def fence_def sub_from_close_short
          sub_close_fence_shapes)
  next
    case nl
    then show ?thesis
      by (subst sub_from.simps)
        (auto simp: first_match_close closes_def fence_def sub_from_close_short
          sub_close_fence_shapes)
  next
    case no
    then have "first_match close_fence_re (b, c # t) = None"
      by (auto simp: first_match_close)
    with no Cons show ?thesis
      by (subst sub_from.simps) (simp add: sub_close_fence_Cons)
  qed
qed

lemma re_sub_close_fence: "re_sub close_fence_re s = sub_close_fence s"
  by (simp add: re_sub_def sub_from_close)

section \<open>The label\<close>

lemma isspace_not_colon: "py_isspace c \<Longrightarrow> c \<noteq> CHR '':''"
  by (auto simp: py_isspace_def)

lemma isspace_lower: "py_isspace c \<Longrightarrow> py_lower_char c = c"
  by (auto simp: py_isspace_def py_lower_char_def Let_def)

lemma isspace_not_initial:
  "py_isspace c \<Longrightarrow> c \<noteq> CHR ''f'' \<and> c \<noteq> CHR ''c'' \<and> c \<noteq> CHR ''s''"
  by (auto simp: py_isspace_def)

lemma matches_LitCI:
  "matches (LitCI l) (b, v) = (case match_ci l v of Some r \<Rightarrow> [(b \<and> l = [], r)] | None \<Rightarrow> [])"
  by (simp add: match_ci_def)

lemma match_ci_hd: "match_ci (x # l) (c # t) = Some r \<Longrightarrow> py_lower_char c = py_lower_char x"
  by (auto simp: match_ci_def py_lower_def split: if_splits)

lemma lower_initials:
  "py_lower_char (CHR ''F'') = CHR ''f''" "py_lower_char (CHR ''C'') = CHR ''c''"
  "py_lower_char (CHR ''S'') = CHR ''s''"
  by code_simp+

lemma match_ci_space:
  assumes "py_isspace c" and "l \<in> set labels"
  shows "match_ci l (c # t) = None"
proof (rule ccontr)
  assume "match_ci l (c # t) \<noteq> None"
  then obtain r where r: "match_ci l (c # t) = Some r" by auto
  from assms(2) obtain x l' where l: "l = x # l'" "x \<in> {CHR ''F'', CHR ''C'', CHR ''S''}"
    by (auto simp: labels_def)
  from match_ci_hd [OF r [unfolded l(1)]] l(2) have "c \<in> {CHR ''f'', CHR ''c'', CHR ''s''}"
    by (auto simp: lower_initials isspace_lower [OF assms(1)])
  with isspace_not_initial [OF assms(1)] show False by auto
qed

lemma first_match_label_tail:
  "first_match label_tail_re (b, r) = map_option (Pair False) (match_label_tail r)"
proof -
  have c: "py_isspace c \<Longrightarrow>
      first_match (Seq (Lit '':'') (Star (Class py_isspace))) (b', c # t) = None" for b' c t
    using isspace_not_colon [of c] by (auto simp: first_match_simps)
  have e: "first_match label_tail_re (b, r)
      = first_match (Seq (Lit '':'') (Star (Class py_isspace)))
          (b \<and> dropWhile py_isspace r = r, dropWhile py_isspace r)"
    unfolding label_tail_re_def by (rule first_match_Seq_Star_Class) (simp add: c)
  have k: "first_match (Seq (Lit '':'') (Star (Class py_isspace))) (b', v)
      = map_option (Pair False)
          (case v of [] \<Rightarrow> None
           | c # t \<Rightarrow> if c = CHR '':'' then Some (dropWhile py_isspace t) else None)" for b' v
    by (cases v) (auto simp: first_match_simps first_match_Star_Class)
  show ?thesis unfolding e k match_label_tail_def lstrip_by_def ..
qed

lemma first_match_Seq_Alt:
  "first_match (Seq (Alt r1 r2) r) p
     = (case first_match (Seq r1 r) p of Some q \<Rightarrow> Some q | None \<Rightarrow> first_match (Seq r2 r) p)"
  by (simp add: first_match_Seq first_some_append split: option.splits)

lemma first_match_Seq_LitCI:
  "first_match (Seq (LitCI l) r) (b, v)
     = Option.bind (match_ci l v) (\<lambda>x. first_match r (b \<and> l = [], x))"
  by (simp add: first_match_Seq match_ci_def split: option.splits)

lemma first_match_label_alts:
  "first_match (Seq label_alt_re label_tail_re) (b, v)
     = map_option (Pair False)
         (first_some (\<lambda>l. Option.bind (match_ci l v) match_label_tail) labels)"
  by (auto simp: label_alt_re_def first_match_Seq_Alt first_match_Seq_LitCI first_match_label_tail
      labels_def split: option.splits Option.bind_splits)

lemma first_match_label_space:
  "py_isspace c \<Longrightarrow> first_match (Seq label_alt_re label_tail_re) (b, c # t) = None"
  by (simp add: first_match_label_alts first_some_None_iff match_ci_space)

lemma first_match_label:
  "first_match label_re (b, s) = (if b then map_option (Pair False) (match_label s) else None)"
proof -
  have e: "first_match (Seq (Star (Class py_isspace)) (Seq label_alt_re label_tail_re)) (b', s)
      = first_match (Seq label_alt_re label_tail_re)
          (b' \<and> dropWhile py_isspace s = s, dropWhile py_isspace s)" for b'
    by (rule first_match_Seq_Star_Class) (simp add: first_match_label_space)
  show ?thesis
    by (simp add: label_re_def first_match_Seq_Bol e first_match_label_alts match_label_def
        lstrip_by_def)
qed

lemma suffix_not_shorter: "suffix r s \<Longrightarrow> \<not> length r < length s \<Longrightarrow> r = s"
  by (auto simp: suffix_def)

lemma re_sub_label: "re_sub label_re s = sub_label s"
proof -
  have n: "first_match label_re (False, u) = None" for u
    by (simp add: first_match_label)
  show ?thesis
    using suffix_not_shorter [OF suffix_match_label, of s]
    by (auto simp: re_sub_anchored [OF n] first_match_label sub_label_def split: option.splits)
qed

lemma sub_close_fence_NL: "sub_close_fence (p @ NL # fence) = p"
  using sub_close_fence_append(1) [of "p @ [NL]"] by simp

lemma lower_fixed: "py_lower ''Fixed code'' = ''fixed code''"
  by code_simp

section \<open>The function as written\<close>

text \<open>
  C11: The direct definition of \<open>clean_code_fences\<close> is the function the source
  writes with \<^verbatim>\<open>re.sub\<close>: the two agree on every reply, under the backtracking
  semantics of the three patterns.
\<close>

theorem clean_code_fences_re_eq: "clean_code_fences_re text = clean_code_fences text"
  by (simp add: clean_code_fences_re_def clean_code_fences_def clean_body_def re_sub_open_fence
      re_sub_close_fence re_sub_label)

text \<open>
  C33: The label is removed after the fences, and the patterns of the fences are
  anchored at the ends of the text.  Every reply in the format the review prompt
  asks for, the label \<^verbatim>\<open>Fixed code:\<close> on a line followed by a fenced block with any
  language tag and any body, therefore keeps its opening fence: it is cleaned to
  the fence, the tag and the body without the white space at the end, and this is
  what is written to the file.
\<close>

theorem clean_code_fences_labelled_block:
  "clean_code_fences (''Fixed code:'' @ NL # fence @ lang @ NL # body @ NL # fence)
     = fence @ rstrip_by py_isspace (lang @ NL # body) @ [NL]
   \<and> clean_code_fences_re (''Fixed code:'' @ NL # fence @ lang @ NL # body @ NL # fence)
     = fence @ rstrip_by py_isspace (lang @ NL # body) @ [NL]"
proof -
  let ?p = "''Fixed code:'' @ NL # fence @ lang @ NL # body"
  let ?t = "''Fixed code:'' @ NL # fence @ lang @ NL # body @ NL # fence"
  have e: "?t = ?p @ NL # fence" by simp
  have "stripped py_isspace ?t"
    by (simp add: stripped_def fence_def py_isspace_def)
  then have 1: "py_strip ?t = ?t" by (rule strip_by_id)
  have 2: "sub_open_fence ?t = ?t"
    by (simp add: sub_open_fence_def fence_def)
  have 3: "sub_close_fence ?t = ?p"
    unfolding e by (rule sub_close_fence_NL)
  have "match_label ?p = Some (fence @ lang @ NL # body)"
    by (simp add: match_label_def labels_def match_ci_def match_label_tail_def fence_def
        py_isspace_def lower_fixed)
  then have 4: "sub_label ?p = fence @ lang @ NL # body" by (simp add: sub_label_def)
  have 5: "py_strip (fence @ lang @ NL # body) = fence @ rstrip_by py_isspace (lang @ NL # body)"
    by (simp add: strip_by_def fence_def rstrip_by_Cons py_isspace_def)
  have "clean_code_fences ?t = fence @ rstrip_by py_isspace (lang @ NL # body) @ [NL]"
    unfolding clean_code_fences_def clean_body_def 1 2 3 4 5 by simp
  moreover have "clean_code_fences_re ?t = clean_code_fences ?t"
    by (simp add: clean_code_fences_re_def clean_code_fences_def clean_body_def re_sub_open_fence
        re_sub_close_fence re_sub_label)
  ultimately show ?thesis by simp
qed

end
