(* ===== verification/Markdown.thy ===== *)
theory Markdown
  imports Regex
begin

text \<open>
  The display of a review in the output widget: \<^verbatim>\<open>render_markdown\<close> (lines 498 to 581
  of \<^verbatim>\<open>src/app.py\<close>).  The widget is the list of the segments inserted at its end, each
  a text with at most one tag.  The loop over the lines is modelled twice:

  \<^item> as the code has it, a loop on the index \<open>idx\<close> into the list of lines with the
    flag and the buffer of the code block (\<open>render_loop\<close>, one iteration is \<open>md_step\<close>,
    the inner loop over the rows of a table is \<open>rows_loop\<close>); both loops are
    recursive functions whose termination is proved from the index that grows;
  \<^item> as a specification, a recursion on the remaining lines (\<open>render_lines\<close>).

  The theory shows that the loop computes the specification and proves the
  properties of the display from the specification.
\<close>

section \<open>Segments\<close>

datatype tag = Section | Info | Success | Warning | Error | Muted | Code

type_synonym segment = "string \<times> tag option"

section \<open>Lines\<close>

definition is_fence_line :: "string \<Rightarrow> bool" where
  "is_fence_line line \<longleftrightarrow> prefix ''```'' (py_strip line)"

definition header_text :: "string \<Rightarrow> string" where
  "header_text line = py_strip (lstrip_by (\<lambda>c. c = CHR ''#'') line)"

definition has_bar :: "string \<Rightarrow> bool" where
  "has_bar line \<longleftrightarrow> CHR ''|'' \<in> set line"

text \<open>The class \<^verbatim>\<open>[-:\s|]\<close> and the lines the separator pattern of line 547 matches.\<close>

definition sep_char :: "char \<Rightarrow> bool" where
  "sep_char c \<longleftrightarrow> c = CHR ''-'' \<or> c = CHR '':'' \<or> py_isspace c \<or> c = CHR ''|''"

definition is_separator :: "string \<Rightarrow> bool" where
  "is_separator line \<longleftrightarrow> line \<noteq> [] \<and> list_all sep_char line"

section \<open>Tables\<close>

definition cells :: "string \<Rightarrow> string list" where
  "cells line = map py_strip (butlast (tl (split_on (CHR ''|'') line)))"

definition table_row :: "string list \<Rightarrow> string" where
  "table_row cs = ''| '' @ py_join '' | '' cs @ '' |'' @ [NL]"

definition table_separator :: "nat \<Rightarrow> string" where
  "table_separator n = ''|'' @ py_join ''|'' (replicate n '' --- '') @ ''|'' @ [NL]"

definition fit_cols :: "nat \<Rightarrow> string list \<Rightarrow> string list" where
  "fit_cols n cs = take n (cs @ replicate (n - length cs) [])"

definition row_segment :: "nat \<Rightarrow> string \<Rightarrow> segment" where
  "row_segment n line = (table_row (fit_cols n (cells line)), None)"

definition table_head :: "string list \<Rightarrow> segment list" where
  "table_head cols =
     (if cols \<noteq> []
      then [(table_row cols, Some Info), (table_separator (length cols), Some Muted)] else [])"

section \<open>Inline code\<close>

text \<open>
  \<^verbatim>\<open>re.split(r'(`[^`]+`)', line)\<close>: the texts between the matches and the matches, in
  turn.  A backtick starts a match when at least one other character and then a
  backtick follow.
\<close>

function split_code_from :: "string \<Rightarrow> string \<Rightarrow> string list" where
  "split_code_from cur [] = [cur]"
| "split_code_from cur (c # r) =
     (if c = CHR 0x60 \<and> takeWhile (\<lambda>x. x \<noteq> CHR 0x60) r \<noteq> []
         \<and> dropWhile (\<lambda>x. x \<noteq> CHR 0x60) r \<noteq> []
      then cur # (c # takeWhile (\<lambda>x. x \<noteq> CHR 0x60) r @ [CHR 0x60])
             # split_code_from [] (tl (dropWhile (\<lambda>x. x \<noteq> CHR 0x60) r))
      else split_code_from (cur @ [c]) r)"
  by pat_completeness auto

termination
proof (relation "measure (\<lambda>(cur, s). length s)")
  fix cur :: string and c :: char and r :: string
  have "length (tl (dropWhile (\<lambda>x. x \<noteq> CHR 0x60) r)) \<le> length r"
    using length_dropWhile_le [of "\<lambda>x. x \<noteq> CHR 0x60" r] by simp
  then show "((([] :: string), tl (dropWhile (\<lambda>x. x \<noteq> CHR 0x60) r)), cur, c # r)
      \<in> measure (\<lambda>(cur, s). length s)"
    by simp
qed auto

definition split_code :: "string \<Rightarrow> string list" where
  "split_code line = split_code_from [] line"

definition part_segment :: "string \<Rightarrow> segment" where
  "part_segment part =
     (if prefix [CHR 0x60] part \<and> suffix [CHR 0x60] part \<and> 2 < length part
      then (strip_by (\<lambda>c. c = CHR 0x60) part, Some Code) else (part, None))"

section \<open>The loop\<close>

record md_state =
  idx :: nat
  in_code_block :: bool
  code_block_lines :: "string list"
  widget :: "segment list"

definition md_init :: md_state where
  "md_init = \<lparr>idx = 0, in_code_block = False, code_block_lines = [], widget = []\<rparr>"

definition insert_end :: "segment list \<Rightarrow> md_state \<Rightarrow> md_state" where
  "insert_end segs st = st\<lparr>widget := widget st @ segs\<rparr>"

definition next_line :: "md_state \<Rightarrow> md_state" where
  "next_line st = st\<lparr>idx := Suc (idx st)\<rparr>"

function rows_loop :: "string list \<Rightarrow> nat \<Rightarrow> md_state \<Rightarrow> md_state" where
  "rows_loop lines n st =
     (if idx st < length lines \<and> has_bar (lines ! idx st)
      then rows_loop lines n (next_line (insert_end [row_segment n (lines ! idx st)] st))
      else st)"
  by pat_completeness auto

termination
  by (relation "measure (\<lambda>(lines, n, st). length lines - idx st)")
    (auto simp: next_line_def insert_end_def)

declare rows_loop.simps [simp del]

definition md_step :: "string list \<Rightarrow> md_state \<Rightarrow> md_state" where
  "md_step lines st =
     (let line = lines ! idx st
      in if is_fence_line line then
           (if \<not> in_code_block st
            then next_line (st\<lparr>in_code_block := True, code_block_lines := []\<rparr>)
            else next_line
                   ((insert_end [(py_join [NL] (code_block_lines st) @ [NL], Some Code), ([NL], None)] st)
                      \<lparr>in_code_block := False\<rparr>))
         else if in_code_block st
         then next_line (st\<lparr>code_block_lines := code_block_lines st @ [line]\<rparr>)
         else if prefix ''#'' line
         then next_line (insert_end [(header_text line @ [NL], Some Section)] st)
         else if has_bar line \<and> Suc (idx st) < length lines \<and> is_separator (lines ! Suc (idx st))
         then insert_end [([NL], None)]
                (rows_loop lines (length (cells line))
                   ((insert_end (table_head (cells line)) st)\<lparr>idx := idx st + 2\<rparr>))
         else if CHR 0x60 \<in> set line
         then next_line (insert_end (map part_segment (split_code line) @ [([NL], None)]) st)
         else next_line (insert_end [(line @ [NL], None)] st))"


text \<open>Each iteration moves the index forward and never past the end.\<close>

lemma rows_loop_eq:
  "rows_loop lines n st =
     st\<lparr>idx := idx st + length (takeWhile has_bar (drop (idx st) lines)),
        widget := widget st @ map (row_segment n) (takeWhile has_bar (drop (idx st) lines))\<rparr>"
proof (induction lines n st rule: rows_loop.induct)
  case (1 lines n st)
  show ?case
  proof (cases "idx st < length lines \<and> has_bar (lines ! idx st)")
    case True
    then have d: "drop (idx st) lines = lines ! idx st # drop (Suc (idx st)) lines"
      by (simp add: Cons_nth_drop_Suc)
    from True 1 [OF True] show ?thesis
      by (subst rows_loop.simps) (simp add: d next_line_def insert_end_def)
  next
    case False
    then have e: "takeWhile has_bar (drop (idx st) lines) = []"
      by (cases "idx st < length lines") (simp_all add: Cons_nth_drop_Suc [symmetric])
    show ?thesis by (subst rows_loop.simps) (simp add: False e)
  qed
qed

lemma takeWhile_drop_le: "n \<le> length xs \<Longrightarrow> n + length (takeWhile P (drop n xs)) \<le> length xs"
  using length_takeWhile_le [of P "drop n xs"] by simp

lemma idx_md_step:
  assumes "idx st < length lines"
  shows "idx st < idx (md_step lines st)" and "idx (md_step lines st) \<le> length lines"
  using assms takeWhile_drop_le [of "idx st + 2" lines has_bar]
  by (auto simp: md_step_def Let_def next_line_def insert_end_def rows_loop_eq)

function render_loop :: "string list \<Rightarrow> md_state \<Rightarrow> md_state" where
  "render_loop lines st = (if idx st < length lines then render_loop lines (md_step lines st) else st)"
  by pat_completeness auto

termination
proof (relation "measure (\<lambda>(lines, st). length lines - idx st)")
  fix lines :: "string list" and st :: md_state
  assume "idx st < length lines"
  with idx_md_step [of st lines]
  show "((lines, md_step lines st), lines, st) \<in> measure (\<lambda>(lines, st). length lines - idx st)"
    by simp
qed simp

declare render_loop.simps [simp del]

definition render_markdown :: "string \<Rightarrow> segment list" where
  "render_markdown text = widget (render_loop (split_on NL text) md_init)"

section \<open>The specification\<close>

lemma length_dropWhile_tl: "length (dropWhile P (tl xs)) < Suc (length xs)"
  using length_dropWhile_le [of P "tl xs"] by simp

function render_lines :: "bool \<Rightarrow> string list \<Rightarrow> string list \<Rightarrow> segment list" where
  "render_lines inb code [] = []"
| "render_lines inb code (line # rest) =
     (if is_fence_line line then
        (if \<not> inb then render_lines True [] rest
         else (py_join [NL] code @ [NL], Some Code) # ([NL], None) # render_lines False code rest)
      else if inb then render_lines True (code @ [line]) rest
      else if prefix ''#'' line
      then (header_text line @ [NL], Some Section) # render_lines False code rest
      else if has_bar line \<and> rest \<noteq> [] \<and> is_separator (hd rest)
      then table_head (cells line)
             @ map (row_segment (length (cells line))) (takeWhile has_bar (tl rest))
             @ ([NL], None) # render_lines False code (dropWhile has_bar (tl rest))
      else if CHR 0x60 \<in> set line
      then map part_segment (split_code line) @ ([NL], None) # render_lines False code rest
      else (line @ [NL], None) # render_lines False code rest)"
  by pat_completeness auto

termination
  by (relation "measure (\<lambda>(inb, code, ls). length ls)") (auto simp: length_dropWhile_tl)

declare render_lines.simps(2) [simp del]


section \<open>The loop computes the specification\<close>

text \<open>
  What is displayed once the loop has finished is what has been displayed so far
  followed by the specification's display of the lines from the index on; an
  iteration leaves this unchanged.
\<close>

definition display :: "string list \<Rightarrow> md_state \<Rightarrow> segment list" where
  "display lines st =
     widget st @ render_lines (in_code_block st) (code_block_lines st) (drop (idx st) lines)"

lemma drop_table:
  assumes "Suc i < length lines"
  shows "drop i lines = lines ! i # drop (Suc i) lines" and "drop (Suc i) lines \<noteq> []"
    and "hd (drop (Suc i) lines) = lines ! Suc i" and "tl (drop (Suc i) lines) = drop (i + 2) lines"
proof -
  show "tl (drop (Suc i) lines) = drop (i + 2) lines"
    by (simp add: tl_drop drop_Suc)
qed (use assms in \<open>simp_all add: Cons_nth_drop_Suc hd_drop_conv_nth\<close>)

lemma drop_takeWhile: "drop (n + length (takeWhile P (drop n xs))) xs = dropWhile P (drop n xs)"
proof -
  have "drop (length (takeWhile P (drop n xs))) (drop n xs) = dropWhile P (drop n xs)"
    by (rule dropWhile_eq_drop [symmetric])
  then show ?thesis by (simp add: add.commute)
qed

lemma display_table:
  assumes "Suc (idx st) < length lines" "\<not> in_code_block st"
    "\<not> is_fence_line (lines ! idx st)" "\<not> prefix ''#'' (lines ! idx st)"
    "has_bar (lines ! idx st)" "is_separator (lines ! Suc (idx st))"
  shows "display lines (md_step lines st) = display lines st"
  using assms drop_takeWhile [of "idx st + 2" has_bar lines]
  by (simp add: display_def md_step_def Let_def insert_end_def rows_loop_eq drop_table
      render_lines.simps(2) [of _ _ "lines ! idx st"])

lemma display_line:
  assumes "idx st < length lines"
    "in_code_block st \<or> is_fence_line (lines ! idx st) \<or> prefix ''#'' (lines ! idx st)
       \<or> \<not> (has_bar (lines ! idx st) \<and> Suc (idx st) < length lines
              \<and> is_separator (lines ! Suc (idx st)))"
  shows "display lines (md_step lines st) = display lines st"
proof -
  have d: "drop (idx st) lines = lines ! idx st # drop (Suc (idx st)) lines"
    using assms(1) by (simp add: Cons_nth_drop_Suc)
  have r: "drop (Suc (idx st)) lines \<noteq> [] \<longleftrightarrow> Suc (idx st) < length lines"
    by auto
  have h: "Suc (idx st) < length lines \<Longrightarrow> hd (drop (Suc (idx st)) lines) = lines ! Suc (idx st)"
    by (simp add: hd_drop_conv_nth)
  from assms(2) show ?thesis
    unfolding display_def md_step_def d
    by (auto simp: Let_def next_line_def insert_end_def render_lines.simps(2) [of _ _ "lines ! idx st"] h)
qed

lemma display_md_step: "idx st < length lines \<Longrightarrow> display lines (md_step lines st) = display lines st"
  by (cases "Suc (idx st) < length lines \<and> \<not> in_code_block st \<and> \<not> is_fence_line (lines ! idx st)
        \<and> \<not> prefix ''#'' (lines ! idx st) \<and> has_bar (lines ! idx st)
        \<and> is_separator (lines ! Suc (idx st))")
    (auto simp: display_table display_line)

lemma display_render_loop: "display lines (render_loop lines st) = display lines st"
proof (induction lines st rule: render_loop.induct)
  case (1 lines st)
  then show ?case
    by (subst render_loop.simps) (simp add: display_md_step)
qed

lemma idx_render_loop: "idx st \<le> length lines \<Longrightarrow> idx (render_loop lines st) = length lines"
proof (induction lines st rule: render_loop.induct)
  case (1 lines st)
  show ?case
  proof (cases "idx st < length lines")
    case True
    with 1 idx_md_step(2) [OF True] show ?thesis by (subst render_loop.simps) simp
  next
    case False
    with 1 show ?thesis by (subst render_loop.simps) simp
  qed
qed

lemma widget_render_loop:
  assumes "idx st \<le> length lines"
  shows "widget (render_loop lines st) = display lines st"
proof -
  have "display lines (render_loop lines st) = widget (render_loop lines st)"
    by (simp add: display_def idx_render_loop [OF assms])
  then show ?thesis by (simp add: display_render_loop)
qed

lemma render_markdown_spec: "render_markdown text = render_lines False [] (split_on NL text)"
  by (simp add: render_markdown_def widget_render_loop display_def md_init_def)

text \<open>
  C13: Each iteration of the loop of \<^verbatim>\<open>render_markdown\<close> moves the index forward and
  never past the end of the lines, also when it consumes the rows of a table: the
  distance to the end is the measure by which the loop terminates.
\<close>

theorem md_step_progress:
  assumes "idx st < length lines"
  shows "idx st < idx (md_step lines st) \<and> idx (md_step lines st) \<le> length lines"
  using idx_md_step [OF assms] by simp

theorem md_step_progress_witness:
  "idx md_init < length [''a | b'', ''---'', ''| 1 | 2 |'', ''x'']
   \<and> idx (md_step [''a | b'', ''---'', ''| 1 | 2 |'', ''x''] md_init) = 3"
proof -
  have "idx (md_step [''a | b'', ''---'', ''| 1 | 2 |'', ''x''] md_init) = 3"
    by code_simp
  with md_step_progress [of md_init "[''a | b'', ''---'', ''| 1 | 2 |'', ''x'']"]
  show ?thesis by (simp add: md_init_def)
qed

text \<open>
  C12: From every state whose index is within the lines, the loop of
  \<^verbatim>\<open>render_markdown\<close> ends, and it appends to the widget what the recursive
  specification prescribes for the lines that remain.
\<close>

theorem render_loop_refines:
  assumes "idx st \<le> length lines"
  shows "widget (render_loop lines st)
     = widget st @ render_lines (in_code_block st) (code_block_lines st) (drop (idx st) lines)"
  using widget_render_loop [OF assms] by (simp add: display_def)

theorem render_loop_refines_witness:
  "idx md_init \<le> length [''# Title'', ''a `b` c'']
   \<and> widget (render_loop [''# Title'', ''a `b` c''] md_init)
       = [(''Title\<newline>'', Some Section), (''a '', None), (''b'', Some Code), ('' c'', None),
          (''\<newline>'', None)]"
proof -
  have "render_lines False [] [''# Title'', ''a `b` c'']
      = [(''Title\<newline>'', Some Section), (''a '', None), (''b'', Some Code), ('' c'', None),
         (''\<newline>'', None)]"
    by code_simp
  with render_loop_refines [of md_init "[''# Title'', ''a `b` c'']"]
  show ?thesis by (simp add: md_init_def)
qed

section \<open>What is displayed\<close>

text \<open>Outside a code block the buffer of the last block has no effect.\<close>

lemma render_lines_code: "render_lines False c ls = render_lines False c' ls"
proof (induction ls arbitrary: c c' rule: length_induct)
  case (1 ls)
  show ?case
  proof (cases ls)
    case (Cons l rest)
    have a: "render_lines False c rest = render_lines False c' rest"
      using 1 Cons by simp
    have b: "render_lines False c (dropWhile has_bar (tl rest))
               = render_lines False c' (dropWhile has_bar (tl rest))"
      using 1 Cons length_dropWhile_tl [of has_bar rest] by simp
    show ?thesis
      unfolding Cons render_lines.simps(2) [of _ _ l] using a b by simp
  qed simp
qed

definition plain_line :: "string \<Rightarrow> bool" where
  "plain_line l \<longleftrightarrow> \<not> prefix ''#'' l \<and> \<not> has_bar l \<and> CHR 0x60 \<notin> set l"

lemma set_strip_by: "set (strip_by P xs) \<subseteq> set xs"
  using set_mono_sublist [OF sublist_strip_by [of P xs]] .

lemma fence_line_backtick: "is_fence_line l \<Longrightarrow> CHR 0x60 \<in> set l"
proof -
  assume "is_fence_line l"
  then have "CHR 0x60 \<in> set (py_strip l)"
    by (auto simp: is_fence_line_def prefix_def)
  with set_strip_by [of py_isspace l] show ?thesis by auto
qed

lemma render_lines_plain:
  "list_all plain_line ls \<Longrightarrow> render_lines False c ls = map (\<lambda>l. (l @ [NL], None)) ls"
proof (induction ls)
  case (Cons l ls)
  then show ?case
    using fence_line_backtick [of l]
    by (auto simp: render_lines.simps(2) [of _ _ l] plain_line_def)
qed simp

lemma concat_lines: "xs \<noteq> [] \<Longrightarrow> concat (map (\<lambda>l. l @ [c]) xs) = py_join [c] xs @ [c]"
  by (induction "[c]" xs rule: py_join.induct) simp_all

lemma render_lines_in_block:
  assumes "list_all (\<lambda>l. \<not> is_fence_line l) body"
  shows "render_lines True code (body @ rest) = render_lines True (code @ body) rest"
  using assms
  by (induction body arbitrary: code) (simp_all add: render_lines.simps(2) [of _ _ "_ :: string"])

text \<open>
  A text without backticks and bars in which no line starts with \<^verbatim>\<open>#\<close> is
  displayed as it is, untagged, with a final newline.
\<close>

theorem render_markdown_plain:
  assumes "list_all plain_line (split_on NL text)"
  shows "map snd (render_markdown text) = replicate (length (split_on NL text)) None
     \<and> concat (map fst (render_markdown text)) = text @ [NL]"
  using assms concat_lines [of "split_on NL text" NL]
  by (simp add: render_markdown_spec render_lines_plain comp_def map_replicate_const)

theorem render_markdown_plain_witness:
  "list_all plain_line (split_on NL ''Looks fine.\<newline>No issues.'')
   \<and> render_markdown ''Looks fine.\<newline>No issues.''
       = [(''Looks fine.\<newline>'', None), (''No issues.\<newline>'', None)]"
proof -
  have h: "list_all plain_line (split_on NL ''Looks fine.\<newline>No issues.'')" by code_simp
  have "render_markdown ''Looks fine.\<newline>No issues.''
      = [(''Looks fine.\<newline>'', None), (''No issues.\<newline>'', None)]"
    by code_simp
  with render_markdown_plain [OF h] h show ?thesis by simp
qed

lemma render_lines_block:
  assumes "is_fence_line start" "is_fence_line stop"
    and "list_all (\<lambda>l. \<not> is_fence_line l) body"
  shows "render_lines False c (start # body @ stop # rest)
     = (py_join [NL] body @ [NL], Some Code) # ([NL], None) # render_lines False [] rest"
  using assms render_lines_code [of body rest "[]"]
  by (simp add: render_lines.simps(2) [of _ _ start] render_lines.simps(2) [of _ _ stop]
      render_lines_in_block)

lemma render_lines_unclosed:
  assumes "is_fence_line start" and "list_all (\<lambda>l. \<not> is_fence_line l) body"
  shows "render_lines False c (start # body) = []"
  using assms render_lines_in_block [of body "[]" "[]"]
  by (simp add: render_lines.simps(2) [of _ _ start])

lemma render_lines_table:
  assumes "\<not> is_fence_line hdr" "\<not> prefix ''#'' hdr" "has_bar hdr" "is_separator sep"
    and "list_all has_bar rows" and "rest = [] \<or> \<not> has_bar (hd rest)"
  shows "render_lines False c (hdr # sep # rows @ rest)
     = table_head (cells hdr) @ map (row_segment (length (cells hdr))) rows
       @ ([NL], None) # render_lines False c rest"
proof -
  have "takeWhile has_bar (rows @ rest) = rows" "dropWhile has_bar (rows @ rest) = rest"
    using assms(5,6) by (cases rest; simp add: list_all_iff takeWhile_append2 dropWhile_append2)+
  with assms(1-4) show ?thesis
    by (simp add: render_lines.simps(2) [of _ _ hdr])
qed

text \<open>
  A code block is displayed as one segment tagged as code, holding the lines
  between the fences joined by newlines, and a blank line; the display goes on with
  the lines after the closing fence as it would on their own.
\<close>

theorem render_code_block:
  assumes "is_fence_line start" "is_fence_line stop"
    and "list_all (\<lambda>l. \<not> is_fence_line l) body"
  shows "widget (render_loop (start # body @ stop # rest) md_init)
     = (py_join [NL] body @ [NL], Some Code) # ([NL], None) # widget (render_loop rest md_init)"
  using render_lines_block [OF assms, of "[]" rest]
  by (simp add: widget_render_loop display_def md_init_def)

theorem render_code_block_witness:
  "is_fence_line ''```py'' \<and> is_fence_line ''```''
   \<and> list_all (\<lambda>l. \<not> is_fence_line l) [''# x'', ''y = `1`'']
   \<and> widget (render_loop (''```py'' # [''# x'', ''y = `1`''] @ ''```'' # [''done'']) md_init)
       = [(''# x\<newline>y = `1`\<newline>'', Some Code), (''\<newline>'', None), (''done\<newline>'', None)]"
proof -
  have h: "is_fence_line ''```py''" "is_fence_line ''```''"
    "list_all (\<lambda>l. \<not> is_fence_line l) [''# x'', ''y = `1`'']"
    by code_simp+
  have "widget (render_loop [''done''] md_init) = [(''done\<newline>'', None)]" by code_simp
  with render_code_block [OF h, of "[''done'']"] h show ?thesis by simp
qed

lemma render_markdown_unclosed_spec:
  assumes "is_fence_line start" "NL \<notin> set start"
    and "list_all (\<lambda>l. \<not> is_fence_line l) (split_on NL body)"
  shows "render_markdown (start @ NL # body) = []"
  using render_lines_unclosed [OF assms(1,3)] assms(2)
  by (simp add: render_markdown_spec split_on_append split_on_no_sep_id)

text \<open>
  C28: A code block that is not closed is not displayed: of a text that starts with
  an opening fence and has no other fence line nothing reaches the widget.
\<close>

theorem render_markdown_unclosed:
  assumes "is_fence_line start" "NL \<notin> set start"
    and "list_all (\<lambda>l. \<not> is_fence_line l) (split_on NL body)"
  shows "render_markdown (start @ NL # body) = []"
  using assms by (rule render_markdown_unclosed_spec)

theorem render_markdown_unclosed_witness:
  "is_fence_line ''```python'' \<and> NL \<notin> set ''```python''
   \<and> list_all (\<lambda>l. \<not> is_fence_line l) (split_on NL ''x = 1\<newline>print(x)'')
   \<and> render_markdown (''```python'' @ NL # ''x = 1\<newline>print(x)'') = []"
proof -
  have h: "is_fence_line ''```python''" "NL \<notin> set ''```python''"
    "list_all (\<lambda>l. \<not> is_fence_line l) (split_on NL ''x = 1\<newline>print(x)'')"
    by code_simp+
  from render_markdown_unclosed [OF h] h show ?thesis by simp
qed

text \<open>
  C30: A table is displayed as its header row and a separator of as many columns,
  then one row for each following line with a bar, cut or filled up to the number of
  columns of the header, then a blank line.
\<close>

theorem render_table:
  assumes "\<not> is_fence_line hdr" "\<not> prefix ''#'' hdr" "has_bar hdr" "is_separator sep"
    and "list_all has_bar rows"
  shows "widget (render_loop (hdr # sep # rows) md_init)
     = table_head (cells hdr) @ map (row_segment (length (cells hdr))) rows @ [([NL], None)]"
  using render_lines_table [OF assms, of "[]" "[]"]
  by (simp add: widget_render_loop display_def md_init_def)

theorem render_table_witness:
  "\<not> is_fence_line ''| File | Bug |'' \<and> \<not> prefix ''#'' ''| File | Bug |'' \<and> has_bar ''| File | Bug |''
   \<and> is_separator ''|---|---|'' \<and> list_all has_bar [''| a.py | none | extra |'', ''| b.py |'']
   \<and> widget (render_loop (''| File | Bug |'' # ''|---|---|'' # [''| a.py | none | extra |'', ''| b.py |'']) md_init)
       = [(''| File | Bug |\<newline>'', Some Info), (''| --- | --- |\<newline>'', Some Muted),
          (''| a.py | none |\<newline>'', None), (''| b.py |  |\<newline>'', None), (''\<newline>'', None)]"
proof -
  have h: "\<not> is_fence_line ''| File | Bug |''" "\<not> prefix ''#'' ''| File | Bug |''"
    "has_bar ''| File | Bug |''" "is_separator ''|---|---|''"
    "list_all has_bar [''| a.py | none | extra |'', ''| b.py |'']"
    by code_simp+
  have "table_head (cells ''| File | Bug |'')
        @ map (row_segment (length (cells ''| File | Bug |''))) [''| a.py | none | extra |'', ''| b.py |'']
        @ [([NL], None)]
      = [(''| File | Bug |\<newline>'', Some Info), (''| --- | --- |\<newline>'', Some Muted),
         (''| a.py | none |\<newline>'', None), (''| b.py |  |\<newline>'', None), (''\<newline>'', None)]"
    by code_simp
  with render_table [OF h] h show ?thesis by simp
qed

text \<open>
  A header written without the outer bars loses its first and its last column, and
  a header with a single bar is not displayed at all.
\<close>

lemma cells_without_outer_bars:
  "cells ''File | Bug | Fix'' = [''Bug'']" "table_head (cells ''File | Bug'') = []"
  by code_simp+

section \<open>The patterns\<close>

text \<open>
  The separator pattern \<^verbatim>\<open>^\s*\|?\s*[-:\s|]+\s*\|?\s*$\<close> of line 545 and the pattern
  \<^verbatim>\<open>(`[^`]+`)\<close> of line 568, in the reference semantics of \<open>Regex\<close>.
\<close>

definition sep_body :: regex where
  "sep_body =
     Seq (Star (Class py_isspace)) (Seq (Opt (Lit ''|'')) (Seq (Star (Class py_isspace))
       (Seq (Plus (Class sep_char))
         (Seq (Star (Class py_isspace)) (Seq (Opt (Lit ''|'')) (Star (Class py_isspace)))))))"

definition sep_re :: regex where
  "sep_re = Seq Bol (Seq sep_body Eol)"

definition code_re :: regex where
  "code_re = Seq (Lit [CHR 0x60]) (Seq (Plus (Class (\<lambda>c. c \<noteq> CHR 0x60))) (Lit [CHR 0x60]))"

lemma within_sep_body: "within sep_char sep_body"
  by (simp add: sep_body_def sep_char_def)

lemma sep_body_all:
  assumes "list_all sep_char s" "s \<noteq> []"
  shows "(False, []) \<in> set (matches sep_body (b, s))"
  unfolding sep_body_def
  by (intro in_matches_Seq [OF in_matches_Star_refl] in_matches_Seq [OF in_matches_Opt_refl]
      in_matches_Seq [OF in_matches_Plus_Class_all [OF assms]]) simp

lemma sep_body_Nil: "matches sep_body (b, []) = []"
  by (simp add: sep_body_def matches_Star)

lemma re_match_sep_re: "re_match sep_re line \<longleftrightarrow> is_separator line"
proof
  assume "re_match sep_re line"
  then obtain q where q: "q \<in> set (matches sep_body (True, line))" "snd q = [] \<or> snd q = [NL]"
    by (cases "matches sep_re (True, line)")
      (auto simp: re_match_def sep_re_def split: if_splits)
  from matches_within [OF q(1) within_sep_body] q(2) have "list_all sep_char line"
    by (auto simp: sep_char_def)
  moreover from q(1) have "line \<noteq> []" by (auto simp: sep_body_Nil)
  ultimately show "is_separator line" by (simp add: is_separator_def)
next
  assume "is_separator line"
  then have "(False, []) \<in> set (matches sep_body (True, line))"
    by (simp add: is_separator_def sep_body_all)
  then have "(False, []) \<in> set (matches (Seq sep_body Eol) (True, line))"
    by (rule in_matches_Seq) simp
  then show "re_match sep_re line"
    by (auto simp: re_match_def sep_re_def matches_Seq_Bol simp del: matches.simps(6))
qed

lemma first_match_tick:
  "(d \<noteq> [] \<Longrightarrow> hd d = CHR 0x60)
   \<Longrightarrow> first_match (Lit [CHR 0x60]) (b, d) = (if d \<noteq> [] then Some (False, tl d) else None)"
  by (cases d) (simp_all add: first_match_Lit)

lemma first_match_code_tail:
  "first_match (Seq (Star (Class (\<lambda>x. x \<noteq> CHR 0x60))) (Lit [CHR 0x60])) (False, t)
     = (if dropWhile (\<lambda>x. x \<noteq> CHR 0x60) t \<noteq> []
        then Some (False, tl (dropWhile (\<lambda>x. x \<noteq> CHR 0x60) t)) else None)"
proof -
  let ?nb = "\<lambda>x. x \<noteq> CHR 0x60"
  have "first_match (Seq (Star (Class ?nb)) (Lit [CHR 0x60])) (False, t)
      = first_match (Lit [CHR 0x60]) (False \<and> dropWhile ?nb t = t, dropWhile ?nb t)"
    by (rule first_match_Seq_Star_Class) (simp add: first_match_Lit)
  also have "\<dots> = (if dropWhile ?nb t \<noteq> [] then Some (False, tl (dropWhile ?nb t)) else None)"
    using hd_dropWhile [of ?nb t] by (intro first_match_tick) simp
  finally show ?thesis .
qed

lemma first_match_code_re:
  "first_match code_re (b, c # r) =
     (if c = CHR 0x60 \<and> takeWhile (\<lambda>x. x \<noteq> CHR 0x60) r \<noteq> [] \<and> dropWhile (\<lambda>x. x \<noteq> CHR 0x60) r \<noteq> []
      then Some (False, tl (dropWhile (\<lambda>x. x \<noteq> CHR 0x60) r)) else None)"
proof (cases "c = CHR 0x60")
  case True
  show ?thesis
    unfolding True
    by (cases r)
      (simp_all add: code_re_def first_match_Seq_Lit first_match_Seq_assoc first_match_Seq_Class
        first_match_code_tail del: matches.simps)
next
  case False
  then show ?thesis
    by (simp add: code_re_def first_match_Seq_Lit del: matches.simps)
qed

lemma take_code:
  assumes "dropWhile P r \<noteq> []"
  shows "take (Suc (length r) - length (tl (dropWhile P r))) (c # r)
           = c # takeWhile P r @ [hd (dropWhile P r)]"
proof -
  obtain d u where d: "dropWhile P r = d # u" using assms by (cases "dropWhile P r") auto
  have r: "r = takeWhile P r @ d # u"
    using takeWhile_dropWhile_id [of P r] d by simp
  have "Suc (length r) - length u = Suc (Suc (length (takeWhile P r)))"
    by (subst (1) r) simp
  moreover have "take (Suc (length (takeWhile P r))) r = takeWhile P r @ [d]"
    by (subst (2) r) simp
  ultimately show ?thesis by (simp add: d)
qed

lemma split_from_code_re: "split_from code_re b cur s = split_code_from cur s"
proof (induction cur s arbitrary: b rule: split_code_from.induct)
  case (2 cur c r)
  let ?nb = "\<lambda>x. x \<noteq> CHR 0x60"
  show ?case
  proof (cases "c = CHR 0x60 \<and> takeWhile ?nb r \<noteq> [] \<and> dropWhile ?nb r \<noteq> []")
    case True
    then have h: "hd (dropWhile ?nb r) = CHR 0x60"
      using hd_dropWhile [of ?nb r] by simp
    have l: "length (tl (dropWhile ?nb r)) < Suc (length r)"
      using length_dropWhile_le [of ?nb r] by simp
    have t: "take (Suc (length r) - length (tl (dropWhile ?nb r))) (c # r)
               = c # takeWhile ?nb r @ [CHR 0x60]"
      using take_code [of ?nb r c] True h by simp
    from True 2(1) [of False] l t show ?thesis
      by (subst split_from.simps(2)) (simp add: first_match_code_re)
  next
    case False
    with 2(2) [of False] show ?thesis
      by (subst split_from.simps(2)) (auto simp: first_match_code_re)
  qed
qed simp

text \<open>
  C29: The test for the separator line of a table is the match of the pattern of
  line 545: a line is a separator when it is not empty and consists of hyphens,
  colons, bars and white space only.
\<close>

theorem is_separator_re: "is_separator line = re_match sep_re line"
  by (simp add: re_match_sep_re)

text \<open>
  The division of a line at its inline code is the split by the pattern of line
  568.
\<close>

theorem split_code_re: "split_code line = re_split code_re line"
  by (simp add: split_code_def re_split_def split_from_code_re)

end
