(* ===== verification/Display.thy ===== *)
theory Display
  imports Markdown Frontend
begin

text \<open>
  The log of the interface: \<^verbatim>\<open>safe_log\<close> (lines 583 to 613 of \<^verbatim>\<open>src/app.py\<close>), the
  function every component receives as \<^verbatim>\<open>ui_logger\<close>.

  \<^item> \<open>ui_text\<close> is the string a call site passes for a message of the transcript
    (the format strings of lines 245 to 379, 682 and 693).  The text of an
    exception is made by the interpreter and the operating system; it is the
    parameter \<open>etext\<close>.
  \<^item> \<open>auto_tag\<close> is the choice of the tag from the words of the message, \<open>safe_log\<close>
    the insertion at the end of the widget.  The two tests for an emoji are left
    out: no string of the model (code points below 256) contains one, and no
    message passed to \<^verbatim>\<open>ui_logger\<close> has one in its format string.  The call is
    scheduled with \<^verbatim>\<open>app.after(0, ...)\<close>; the interface runs such calls in the order
    they were made, so the model inserts at once.
  \<^item> \<open>widget_of\<close> is the widget after the messages of a transcript.
\<close>

section \<open>The text of a message\<close>

fun str_nat :: "nat \<Rightarrow> string" where
  "str_nat n =
     (if n < 10 then [char_of (48 + n)] else str_nat (n div 10) @ [char_of (48 + n mod 10)])"

declare str_nat.simps [simp del]

definition batch_of :: "nat \<Rightarrow> nat \<Rightarrow> string" where
  "batch_of i n = ''batch '' @ str_nat i @ ''/'' @ str_nat n"

fun ui_text :: "(py_error \<Rightarrow> string) \<Rightarrow> msg \<Rightarrow> string" where
  "ui_text etext (SuggestedFix p) = NL # ''===== Suggested Fix for '' @ p @ '' ====='' @ [NL]"
| "ui_text etext (FixText t) = t"
| "ui_text etext (Skipped p) = ''Skipped: '' @ p @ [NL]"
| "ui_text etext (SkippedNonInteractive p) = ''Skipped (non-interactive): '' @ p @ [NL]"
| "ui_text etext StartingAnalysis = ''Starting analysis...'' @ [NL]"
| "ui_text etext (InvalidPath p) = ''Invalid path: '' @ p @ [NL]"
| "ui_text etext NoSourceFiles = ''No source files found!'' @ [NL]"
| "ui_text etext (Analyzing n) = ''Analyzing '' @ str_nat n @ '' files...'' @ [NL]"
| "ui_text etext (ProcessingReview i n) = ''Processing '' @ batch_of i n @ '' (Review)...'' @ [NL]"
| "ui_text etext (ReviewHeader i n) = NL # ''==== Review for '' @ batch_of i n @ '' ===='' @ [NL]"
| "ui_text etext (ReviewText t) = t"
| "ui_text etext (ProcessingAutoFix i n) = ''Processing '' @ batch_of i n @ '' (Auto-Fix)...'' @ [NL]"
| "ui_text etext JsonSaved = ''Review saved to project_review.json'' @ [NL]"
| "ui_text etext Done = NL # ''Done.'' @ [NL]"
| "ui_text etext SelectFolder = ''Please select a project folder.'' @ [NL]"
| "ui_text etext (Failure err) = ''Error: '' @ etext err @ [NL]"
| "ui_text etext m = []"

fun is_markdown :: "msg \<Rightarrow> bool" where
  "is_markdown (ReviewText t) = True"
| "is_markdown m = False"

section \<open>The tag of a message\<close>

definition auto_tag :: "string \<Rightarrow> tag option" where
  "auto_tag m =
     (let low = py_lower m
      in if sublist ''error'' low \<or> sublist ''failed'' low then Some Error
         else if prefix ''starting'' low \<or> sublist ''processing batch'' low then Some Info
         else if sublist ''suggested fix'' low \<or> sublist ''gemini debugging output'' low
                 \<or> sublist ''starting auto fix'' low
         then Some Section
         else if sublist ''saved'' low \<or> sublist ''done'' low then Some Success
         else None)"

definition safe_log :: "string \<Rightarrow> tag option \<Rightarrow> bool \<Rightarrow> segment list \<Rightarrow> segment list" where
  "safe_log m tg md wd =
     (let applied_tag = (case tg of None \<Rightarrow> auto_tag m | Some t \<Rightarrow> Some t)
      in if md then wd @ render_markdown m
         else wd @ [(if suffix [NL] m then m else m @ [NL], applied_tag)])"

definition log_msg :: "(py_error \<Rightarrow> string) \<Rightarrow> segment list \<Rightarrow> channel \<times> msg \<Rightarrow> segment list" where
  "log_msg etext wd cm =
     (case cm of (ch, m) \<Rightarrow> if ch = Ui then safe_log (ui_text etext m) None (is_markdown m) wd else wd)"

definition widget_of :: "(py_error \<Rightarrow> string) \<Rightarrow> (channel \<times> msg) list \<Rightarrow> segment list" where
  "widget_of etext ms = foldl (log_msg etext) [] ms"

section \<open>Lemmas\<close>

lemma widget_of_append [simp]:
  "widget_of etext (ms @ ms') = foldl (log_msg etext) (widget_of etext ms) ms'"
  by (simp add: widget_of_def)

lemma widget_of_Nil [simp]: "widget_of etext [] = []"
  by (simp add: widget_of_def)

lemma log_msg_prefix: "prefix wd (log_msg etext wd cm)"
  by (cases cm) (simp add: log_msg_def safe_log_def Let_def)

lemma foldl_log_msg_prefix: "prefix wd (foldl (log_msg etext) wd ms)"
proof (induction ms arbitrary: wd)
  case (Cons m ms)
  from prefix_trans [OF log_msg_prefix Cons] show ?case by simp
qed simp

lemma widget_of_prefix: "prefix (widget_of etext ms) (widget_of etext (ms @ ms'))"
  by (simp add: foldl_log_msg_prefix)

lemma sublist_lower_append:
  "sublist k (py_lower a) \<or> sublist k (py_lower b) \<Longrightarrow> sublist k (py_lower (a @ b))"
  by (auto simp: sublist_append)

lemma auto_tag_error: "sublist ''error'' (py_lower m) \<Longrightarrow> auto_tag m = Some Error"
  by (simp add: auto_tag_def)

lemma error_lower: "py_lower ''Error: '' = ''error: ''"
  by code_simp

lemma auto_tag_Failure: "auto_tag (ui_text etext (Failure err)) = Some Error"
proof -
  have "sublist ''error'' (py_lower (''Error: '' @ etext err @ [NL]))"
    by (rule prefix_imp_sublist) (simp only: py_lower_append error_lower, simp)
  then show ?thesis by (simp add: auto_tag_def)
qed


lemma safe_log_Failure:
  "log_msg etext wd (Ui, Failure err) = wd @ [(''Error: '' @ etext err @ [NL], Some Error)]"
  using auto_tag_Failure [of etext err] by (simp add: log_msg_def safe_log_def suffix_Cons)

lemma truncated_cut: "n < length s \<Longrightarrow> truncated n s = take n s @ NL # ''...[truncated]'' @ [NL]"
  by (simp add: truncated_def)

lemma marker_lines:
  "list_all (\<lambda>l. \<not> is_fence_line l) (split_on NL (''...[truncated]'' @ [NL]))"
  by code_simp

section \<open>Properties\<close>

text \<open>
  The log only grows: what the widget shows after a transcript stays, in its
  place, whatever is logged later.
\<close>

theorem widget_of_grows: "prefix (widget_of etext ms) (widget_of etext (ms @ ms'))"
  by (rule widget_of_prefix)

text \<open>
  C26: When the model is unavailable, a run started from the interface over a
  project with source files ends with the text of the exception as the last line
  of the widget, tagged as an error.
\<close>

theorem worker_failure_displayed:
  assumes "exists w (py_strip (path_var f))"
    and "get_code_files e (py_strip (path_var f)) \<noteq> []" and "\<not> model_loaded e"
  shows "last (widget_of etext (out (worker e f w)))
     = (''Error: '' @ etext RuntimeError @ [NL], Some Error)"
  using run_pipeline_unavailable [OF assms, of "worker_opts f"]
  by (simp add: worker_out safe_log_Failure)

theorem worker_failure_displayed_witness:
  "last (widget_of (\<lambda>err. ''unavailable'')
      (out (worker (sample_env\<lparr>model_loaded := False\<rparr>)
        \<lparr>path_var = '' proj '', json_var = False, autofix_var = True, apply_all_var = False,
          userprompt_var = [], maxchars_var = None\<rparr> sample_world)))
     = (''Error: unavailable\<newline>'', Some Error)"
proof -
  let ?e = "sample_env\<lparr>model_loaded := False\<rparr>"
  let ?f = "\<lparr>path_var = '' proj '', json_var = False, autofix_var = True, apply_all_var = False,
        userprompt_var = [], maxchars_var = None\<rparr>"
  have p: "py_strip (path_var ?f) = ''proj''" by code_simp
  have h: "exists sample_world (py_strip (path_var ?f))"
    "get_code_files ?e (py_strip (path_var ?f)) \<noteq> []" "\<not> model_loaded ?e"
    unfolding p by (simp_all add: sample_exists) code_simp
  show ?thesis using worker_failure_displayed [OF h, of "\<lambda>err. ''unavailable''"] by simp
qed

text \<open>
  The tag of a line of the log is chosen from its words, the name of the file
  included: the notice that a fix was skipped, the notice of an invalid path and the
  heading of a suggested fix are shown as errors when the path contains \<^verbatim>\<open>error\<close>.
\<close>

theorem auto_tag_path:
  assumes "sublist ''error'' (py_lower p)"
  shows "auto_tag (ui_text etext (Skipped p)) = Some Error
       \<and> auto_tag (ui_text etext (InvalidPath p)) = Some Error
       \<and> auto_tag (ui_text etext (SuggestedFix p)) = Some Error"
proof -
  have "sublist ''error'' (py_lower (a @ p @ b))" for a b
    using assms by (simp add: sublist_append)
  from this [of "''Skipped: ''" "[NL]"] this [of "''Invalid path: ''" "[NL]"]
    this [of "NL # ''===== Suggested Fix for ''" "'' ====='' @ [NL]"]
  show ?thesis by (simp add: auto_tag_def)
qed

theorem auto_tag_path_witness:
  "sublist ''error'' (py_lower ''src/ErrorCodes.py'')
   \<and> auto_tag (ui_text (\<lambda>e. []) (Skipped ''src/ErrorCodes.py'')) = Some Error"
proof -
  have h: "sublist ''error'' (py_lower ''src/ErrorCodes.py'')" by code_simp
  from auto_tag_path [OF h, of "\<lambda>e. []"] h show ?thesis by simp
qed

text \<open>
  The tags of the fixed lines of a run: the start is information, the end and the
  export are successes, and the two notices that end a run early carry no tag.
\<close>

lemma auto_tag_fixed:
  "auto_tag (ui_text etext StartingAnalysis) = Some Info"
  "auto_tag (ui_text etext JsonSaved) = Some Success"
  "auto_tag (ui_text etext Done) = Some Success"
  "auto_tag (ui_text etext NoSourceFiles) = None"
  "auto_tag (ui_text etext SelectFolder) = None"
  "auto_tag (ui_text etext (ProcessingReview 1 2)) = Some Info"
  by code_simp+

text \<open>
  C27: A review that starts with the opening fence of a code block and is cut at the
  limit inside that block is not displayed at all, and the notice that it was cut is
  not displayed either.
\<close>

theorem truncated_review_hidden:
  assumes "n < length output" and "take n output = start @ NL # body"
    and "is_fence_line start" "NL \<notin> set start"
    and "list_all (\<lambda>l. \<not> is_fence_line l) (split_on NL body)"
  shows "safe_log (truncated n output) None True wd = wd"
proof -
  have "list_all (\<lambda>l. \<not> is_fence_line l) (split_on NL (body @ NL # ''...[truncated]'' @ [NL]))"
    using assms(5) marker_lines unfolding split_on_append by simp
  from render_markdown_unclosed_spec [OF assms(3,4) this] show ?thesis
    by (simp add: safe_log_def truncated_cut [OF assms(1)] assms(2))
qed


theorem truncated_review_hidden_witness:
  "safe_log (truncated 8 ''```py\<newline>x = 1\<newline>```'') None True [(''Done.\<newline>'', Some Success)]
     = [(''Done.\<newline>'', Some Success)]"
proof -
  have h: "8 < length ''```py\<newline>x = 1\<newline>```''"
    "take 8 ''```py\<newline>x = 1\<newline>```'' = ''```py'' @ NL # ''x ''"
    by simp_all
  have g: "is_fence_line ''```py''" "NL \<notin> set ''```py''"
    "list_all (\<lambda>l. \<not> is_fence_line l) (split_on NL ''x '')"
    by code_simp+
  from truncated_review_hidden [OF h g] show ?thesis .
qed

end
