(* ===== verification/Rendezvous.thy ===== *)
theory Rendezvous
  imports Py_Prelude
begin

text \<open>
  The confirmation dialog of the interface: \<^verbatim>\<open>ui_yes_no\<close> (lines 615 to 627 of
  \<^verbatim>\<open>src/app.py\<close>), which the worker thread calls as \<^verbatim>\<open>prompt_func\<close> and the interface
  thread answers.  Two threads share the holder of the answer and an event; the
  model is a transition system whose steps are the atomic actions of either thread
  and of the user who may close the window.

  \<^item> \<open>call\<close>: the worker creates the holder with \<^verbatim>\<open>False\<close> and the event, and schedules
    \<^verbatim>\<open>ask\<close> with \<^verbatim>\<open>app.after\<close> (lines 616, 617 and 625), then waits (line 626).
  \<^item> \<open>ask\<close>: the interface runs the scheduled callback: it shows the dialog, stores
    the answer, \<^verbatim>\<open>False\<close> when the dialog raises, and sets the event (lines 618 to
    624).
  \<^item> \<open>wake\<close>: the worker leaves \<^verbatim>\<open>gate.wait()\<close> and returns the held answer (lines
    626 and 627).
  \<^item> \<open>close\<close>: the user closes the window.  \<^verbatim>\<open>app.mainloop()\<close> returns (line 701),
    \<^verbatim>\<open>launch_ui\<close> and \<^verbatim>\<open>main\<close> return, and the process ends; the worker is a daemon
    thread (line 697) and ends with it, and so do the callbacks still scheduled.
    A worker that has returned from \<^verbatim>\<open>ui_yes_no\<close> keeps its answer.

  The relation \<open>step\<close> is the union of these actions, \<open>successors\<close> its executable
  form.  The lemmas show the invariant of the reachable states, that the worker
  returns the user's answer and only after the dialog, that it can always return
  while the window is open, and that a window closed during the wait ends the
  worker without an answer.
\<close>

section \<open>State\<close>

datatype answer = Yes | No | Raised

datatype worker_pc = Idle | Waiting | Returned bool | Killed

record rv_state =
  pc :: worker_pc
  ans :: bool
  gate :: bool
  scheduled :: bool
  closed :: bool
  given :: "answer option"

definition rv_init :: rv_state where
  "rv_init = \<lparr>pc = Idle, ans = False, gate = False, scheduled = False, closed = False, given = None\<rparr>"

section \<open>Actions\<close>

definition call :: "rv_state \<Rightarrow> rv_state" where
  "call s = s\<lparr>pc := Waiting, ans := False, gate := False, scheduled := True\<rparr>"

definition ask :: "answer \<Rightarrow> rv_state \<Rightarrow> rv_state" where
  "ask a s = s\<lparr>ans := (a = Yes), gate := True, scheduled := False, given := Some a\<rparr>"

definition wake :: "rv_state \<Rightarrow> rv_state" where
  "wake s = s\<lparr>pc := Returned (ans s)\<rparr>"

definition close :: "rv_state \<Rightarrow> rv_state" where
  "close s =
     s\<lparr>closed := True, scheduled := False,
       pc := (case pc s of Returned b \<Rightarrow> Returned b | _ \<Rightarrow> Killed)\<rparr>"

inductive step :: "rv_state \<Rightarrow> rv_state \<Rightarrow> bool" where
  call: "pc s = Idle \<Longrightarrow> step s (call s)"
| ask: "scheduled s \<Longrightarrow> step s (ask a s)"
| wake: "pc s = Waiting \<Longrightarrow> gate s \<Longrightarrow> step s (wake s)"
| close: "\<not> closed s \<Longrightarrow> step s (close s)"

inductive_cases stepE: "step s s'"

definition successors :: "rv_state \<Rightarrow> rv_state list" where
  "successors s =
     (if pc s = Idle then [call s] else [])
     @ (if scheduled s then [ask Yes s, ask No s, ask Raised s] else [])
     @ (if pc s = Waiting \<and> gate s then [wake s] else [])
     @ (if \<not> closed s then [close s] else [])"

inductive reachable :: "rv_state \<Rightarrow> bool" where
  init: "reachable rv_init"
| step: "reachable s \<Longrightarrow> step s s' \<Longrightarrow> reachable s'"

section \<open>The invariant\<close>

definition rv_inv :: "rv_state \<Rightarrow> bool" where
  "rv_inv s \<longleftrightarrow>
     (given s = None) = (\<not> gate s) \<and> ans s = (given s = Some Yes)
   \<and> (case pc s of
         Idle \<Rightarrow> \<not> gate s \<and> \<not> scheduled s \<and> \<not> closed s
       | Waiting \<Rightarrow> scheduled s = (\<not> gate s) \<and> \<not> closed s
       | Returned b \<Rightarrow> gate s \<and> \<not> scheduled s \<and> b = ans s
       | Killed \<Rightarrow> closed s \<and> \<not> scheduled s)"

lemma step_successors: "step s s' \<longleftrightarrow> s' \<in> set (successors s)"
proof
  assume "step s s'"
  then show "s' \<in> set (successors s)"
  proof cases
    case (ask a)
    then show ?thesis by (cases a) (simp_all add: successors_def)
  qed (simp_all add: successors_def)
next
  assume "s' \<in> set (successors s)"
  then show "step s s'"
    by (auto simp: successors_def intro: step.intros split: if_splits)
qed

lemma rv_inv_init: "rv_inv rv_init"
  by (simp add: rv_inv_def rv_init_def)

lemma rv_inv_call: "pc s = Idle \<Longrightarrow> rv_inv s \<Longrightarrow> rv_inv (call s)"
  by (cases "given s") (auto simp: rv_inv_def call_def)

lemma rv_inv_ask: "scheduled s \<Longrightarrow> rv_inv s \<Longrightarrow> rv_inv (ask a s)"
  by (cases "pc s") (simp_all add: rv_inv_def ask_def)

lemma rv_inv_wake: "pc s = Waiting \<Longrightarrow> gate s \<Longrightarrow> rv_inv s \<Longrightarrow> rv_inv (wake s)"
  by (simp add: rv_inv_def wake_def)

lemma rv_inv_close: "rv_inv s \<Longrightarrow> rv_inv (close s)"
  by (cases "pc s") (simp_all add: rv_inv_def close_def)

lemma rv_inv_step: "step s s' \<Longrightarrow> rv_inv s \<Longrightarrow> rv_inv s'"
  by (induction rule: step.induct) (simp_all add: rv_inv_call rv_inv_ask rv_inv_wake rv_inv_close)

lemma reachable_inv: "reachable s \<Longrightarrow> rv_inv s"
  by (induction rule: reachable.induct) (auto intro: rv_inv_init rv_inv_step)


section \<open>Runs\<close>

abbreviation steps :: "rv_state \<Rightarrow> rv_state \<Rightarrow> bool" where
  "steps \<equiv> step\<^sup>*\<^sup>*"

lemma reachable_steps: "steps s s' \<Longrightarrow> reachable s \<Longrightarrow> reachable s'"
  by (induction rule: rtranclp_induct) (auto intro: reachable.step)

lemma wake_returns: "pc s = Waiting \<Longrightarrow> gate s \<Longrightarrow> steps s (wake s) \<and> pc (wake s) = Returned (ans s)"
  using step.wake [of s] by (simp add: wake_def r_into_rtranclp)

lemma ask_returns:
  assumes "pc s = Waiting" "scheduled s"
  shows "steps s (wake (ask a s)) \<and> pc (wake (ask a s)) = Returned (a = Yes)"
proof -
  have "step s (ask a s)" using assms by (simp add: step.ask)
  moreover have "step (ask a s) (wake (ask a s))"
    by (rule step.wake) (simp_all add: assms ask_def)
  ultimately have "steps s (wake (ask a s))" by (rule converse_rtranclp_into_rtranclp [OF _ r_into_rtranclp])
  then show ?thesis by (simp add: wake_def ask_def)
qed

lemma call_returns:
  assumes "pc s = Idle"
  shows "steps s (wake (ask a (call s))) \<and> pc (wake (ask a (call s))) = Returned (a = Yes)"
proof -
  have "step s (call s)" using assms by (simp add: step.call)
  moreover have r: "steps (call s) (wake (ask a (call s)))
      \<and> pc (wake (ask a (call s))) = Returned (a = Yes)"
    using assms by (intro ask_returns) (simp_all add: call_def)
  ultimately have "steps s (wake (ask a (call s)))"
    by (simp add: converse_rtranclp_into_rtranclp)
  with r show ?thesis by simp
qed

text \<open>
  A window closed before the worker has its answer ends the worker: it does not
  return from \<^verbatim>\<open>ui_yes_no\<close>, neither with \<^verbatim>\<open>False\<close> nor otherwise, and nothing happens
  after that.
\<close>

lemma close_ends:
  assumes "pc s = Idle \<or> pc s = Waiting"
  shows "pc (close s) = Killed \<and> successors (close s) = []"
  using assms by (auto simp: close_def successors_def)

lemma killed_final: "reachable s \<Longrightarrow> pc s = Killed \<Longrightarrow> \<not> step s s'"
  by (drule reachable_inv) (simp add: step_successors successors_def rv_inv_def)

section \<open>Properties\<close>

text \<open>
  C14: The worker returns from \<^verbatim>\<open>ui_yes_no\<close> only after the dialog has been shown, and
  with the answer given there: yes for a yes, no for a no and for a dialog that
  raised.
\<close>

theorem ui_yes_no_answer:
  assumes "reachable s" and "pc s = Returned b"
  shows "given s \<noteq> None \<and> b = (given s = Some Yes)"
  using reachable_inv [OF assms(1)] assms(2) by (auto simp: rv_inv_def)

theorem ui_yes_no_answer_witness:
  "reachable (wake (ask No (call rv_init))) \<and> pc (wake (ask No (call rv_init))) = Returned False
   \<and> given (wake (ask No (call rv_init))) = Some No"
proof -
  have i: "pc rv_init = Idle" by (simp add: rv_init_def)
  from call_returns [OF i, of No] have r: "reachable (wake (ask No (call rv_init)))"
    and p: "pc (wake (ask No (call rv_init))) = Returned False"
    by (auto intro: reachable_steps reachable.init)
  from ui_yes_no_answer [OF r p] r p show ?thesis
    by (simp add: wake_def ask_def)
qed

text \<open>
  C24: While the window is open the worker can always get its answer: from every
  reachable state in which the window is open some run leads to the return of
  \<^verbatim>\<open>ui_yes_no\<close>.
\<close>

theorem ui_yes_no_can_return:
  assumes "reachable s" and "\<not> closed s"
  shows "\<exists>s' b. steps s s' \<and> pc s' = Returned b"
proof (cases "pc s")
  case Idle
  with call_returns [of s Yes] show ?thesis by blast
next
  case Waiting
  show ?thesis
  proof (cases "gate s")
    case True
    with wake_returns [OF Waiting] show ?thesis by blast
  next
    case False
    with reachable_inv [OF assms(1)] Waiting have "scheduled s" by (simp add: rv_inv_def)
    with ask_returns [OF Waiting, of Yes] show ?thesis by blast
  qed
next
  case (Returned b)
  then show ?thesis by blast
next
  case Killed
  with reachable_inv [OF assms(1)] assms(2) show ?thesis by (simp add: rv_inv_def)
qed

theorem ui_yes_no_can_return_witness:
  "reachable (call rv_init) \<and> \<not> closed (call rv_init)
   \<and> (\<exists>s' b. steps (call rv_init) s' \<and> pc s' = Returned b)"
proof -
  have r: "reachable (call rv_init)"
    by (rule reachable.step [OF reachable.init]) (simp add: step.call rv_init_def)
  have c: "\<not> closed (call rv_init)" by (simp add: call_def rv_init_def)
  from ui_yes_no_can_return [OF r c] r c show ?thesis by simp
qed

end
