(* ===== verification/Spec2Isabelle.thy ===== *)
theory Spec2Isabelle
  imports Py_Prelude CodeFences Paths Batcher World FileSystem Collector Reviewer FixApplier
    Export Pipeline Frontend Session Monotone Regex FenceRegex Markdown Display Rendezvous
begin

text \<open>
  A verification development for \<^verbatim>\<open>src/app.py\<close>, a tool that walks a project
  directory, sends the source files to a language model in size-bounded batches,
  prints the model's review and optionally writes the model's corrected files back,
  keeping a backup of each file it overwrites.

  \<^bold>\<open>The program and its parts.\<close>  \<^verbatim>\<open>run_pipeline\<close> collects the source files
  (\<^verbatim>\<open>get_code_files\<close>), reads them (\<^verbatim>\<open>read_file\<close>), groups them into batches under a
  character budget (\<^verbatim>\<open>chunk_files\<close>, \<^verbatim>\<open>build_file_section\<close>), and for each batch asks
  the model for a review (\<^verbatim>\<open>review_project\<close>, \<^verbatim>\<open>generate_content\<close>) and, when fixes are
  requested, asks it for a corrected version of every file of the batch
  (\<^verbatim>\<open>auto_fix_project\<close>), which is cleaned (\<^verbatim>\<open>clean_code_fences\<close>) and written
  (\<^verbatim>\<open>write_file\<close>, \<^verbatim>\<open>safe_backup\<close>) if the policy or the user approves.  At the end the
  reviews are exported (\<^verbatim>\<open>save_to_excel\<close> and a JSON file).  The pipeline has two
  callers: \<^verbatim>\<open>main\<close> for the command line and, in the window of \<^verbatim>\<open>launch_ui\<close>, the handler
  \<^verbatim>\<open>on_run\<close> of the run button, which starts a worker thread.  The worker logs through
  \<^verbatim>\<open>safe_log\<close>, which shows a review with \<^verbatim>\<open>render_markdown\<close>, and asks the user through
  \<^verbatim>\<open>ui_yes_no\<close>, a rendezvous with the interface thread; \<^verbatim>\<open>set_running\<close> disables the
  controls while the worker runs.

  \<^bold>\<open>How the code is modelled.\<close>  Every function is a HOL function of the same name
  that can be evaluated.  A Python string is a list of characters, one character per
  code point below 256; Python integers are \<open>int\<close> or \<open>nat\<close>.  What the program cannot
  decide is a field of the record \<open>env\<close>: file permissions, whether the model client
  could be constructed, the model's reply to the \<open>n\<close>-th call, the listing of
  \<^verbatim>\<open>os.walk\<close>, the user's answers, and whether the workbook library is installed.  What
  the program changes is the record \<open>world\<close>: the file system (a partial map from paths
  to nodes), the output (a list of messages, each on the console or on the
  interface), the prompts sent, and the number of questions asked.  A function with
  effects takes the world and returns it.  A function that can raise returns
  \<open>Inl\<close> of the exception or \<open>Inr\<close> of its value; a function that catches every
  exception returns the world alone, with the error message in the output.  Loops
  over lists are recursive functions or folds.  The two loops of \<^verbatim>\<open>render_markdown\<close>
  run on an index; they are recursive functions whose termination is proved from the
  index that grows, so every function is total and none needs fuel.  What happens
  between threads or between events of the window is an inductive step relation
  with its reachable states.

  \<^bold>\<open>The theories.\<close>

  \<^item> \<open>Py_Prelude\<close>: the \<^verbatim>\<open>str\<close> methods and character classes the program calls
    (\<^verbatim>\<open>strip\<close>, \<^verbatim>\<open>lstrip\<close>, \<^verbatim>\<open>lower\<close>, \<^verbatim>\<open>join\<close>, \<^verbatim>\<open>split\<close>, \<^verbatim>\<open>\s\<close>, \<^verbatim>\<open>\w\<close>), the exceptions as
    the datatype \<open>py_error\<close>, and the lemmas on stripping, joining and sublists that
    the component theories share.
  \<^item> \<open>Paths\<close>: \<^verbatim>\<open>Path(p).parts\<close>, \<^verbatim>\<open>Path(p).suffix\<close> and \<^verbatim>\<open>os.path.join\<close> for POSIX paths,
    with the suffix rule of CPython up to 3.13.
  \<^item> \<open>CodeFences\<close>: \<^verbatim>\<open>clean_code_fences\<close> (lines 82 to 92), one definition per
    \<^verbatim>\<open>re.sub\<close> call.  It shows that the result of a non-empty reply ends in exactly
    one newline, that cleaning only deletes, what a fenced reply is cleaned to, and
    that cleaning is idempotent only on results without a further fence or label.
  \<^item> \<open>Batcher\<close>: \<^verbatim>\<open>build_file_section\<close> and \<^verbatim>\<open>chunk_files\<close> (lines 104 to 130).  The loop
    is a step function on the record of its five variables.  The specification is
    the function \<open>pack\<close> and the predicate \<open>greedy_ok\<close>; the theory shows that the loop
    computes \<open>pack\<close> (by the invariant \<open>chunk_inv\<close>), that \<open>pack\<close> is the only greedy
    grouping, and from these the partition, the budget and the scenarios.
  \<^item> \<open>World\<close>: the records \<open>env\<close> and \<open>world\<close>, messages, prompts and replies.
  \<^item> \<open>FileSystem\<close>: \<^verbatim>\<open>read_file\<close>, \<^verbatim>\<open>safe_backup\<close>, \<^verbatim>\<open>write_file\<close> (lines 66 to 102): the
    frame of a write, the backup taken once, the failures.
  \<^item> \<open>Collector\<close>: \<^verbatim>\<open>get_code_files\<close> (lines 54 to 64): membership, order, and the
    cases with an empty result.
  \<^item> \<open>Reviewer\<close>: \<^verbatim>\<open>generate_content\<close> and \<^verbatim>\<open>review_project\<close> (lines 132 to 204), and
    the sequencing \<open>and_then\<close> of functions that can raise.
  \<^item> \<open>FixApplier\<close>: \<^verbatim>\<open>auto_fix_project\<close> (lines 206 to 277): the three decision
    policies, the frame of the loop and the prompts it sends.
  \<^item> \<open>Export\<close>: \<^verbatim>\<open>save_to_excel\<close> (lines 280 to 308) with the workbook it builds, and
    the JSON text (line 372) with a reader of string literals; it shows that the
    reader restores the review and that the text is printable ASCII.
  \<^item> \<open>Pipeline\<close>: \<^verbatim>\<open>run_pipeline\<close> (lines 310 to 382): the early returns, the frame,
    the exceptions, the prompts of a batch, and that a run with a model returns the
    replies to its review prompts.
  \<^item> \<open>Frontend\<close>: \<^verbatim>\<open>main\<close> (lines 703 to 721) over the parsed arguments, and \<^verbatim>\<open>on_run\<close>
    with its worker (lines 669 to 697): the options each caller passes, and that the
    worker turns an exception into a line of the log while the command line lets it
    escape.
  \<^item> \<open>Session\<close>: \<^verbatim>\<open>set_running\<close> (lines 644 to 667) and the window as a transition system
    over the click on the run button, the edit of the form and the end of the
    worker: its invariant, and that no second worker starts while one runs.
  \<^item> \<open>Monotone\<close>: the relation \<open>grows\<close> between worlds and, for every operation from
    \<open>read_file\<close> to \<open>main_cli\<close>, the lemma that it only extends the transcript, the
    prompts and the count of questions; from these, what the command line prints
    first.
  \<^item> \<open>Regex\<close>: a backtracking matcher for the constructs the patterns of the program
    use (literals, classes, anchors, sequence, alternative, option, greedy star),
    with \<^verbatim>\<open>re.match\<close>, \<^verbatim>\<open>re.sub\<close> by the empty string and \<^verbatim>\<open>re.split\<close> on top of it.
  \<^item> \<open>FenceRegex\<close>: the three patterns of \<^verbatim>\<open>clean_code_fences\<close> and the function as
    written with \<^verbatim>\<open>re.sub\<close>, proved equal to the definition of \<open>CodeFences\<close>.
  \<^item> \<open>Markdown\<close>: \<^verbatim>\<open>render_markdown\<close> (lines 498 to 581): the loop \<open>render_loop\<close> with
    its step \<open>md_step\<close> and the inner loop \<open>rows_loop\<close>, the specification
    \<open>render_lines\<close> it refines, what is displayed for plain text, code blocks and
    tables, and the two patterns of the renderer in the semantics of \<open>Regex\<close>.
  \<^item> \<open>Display\<close>: \<^verbatim>\<open>safe_log\<close> (lines 583 to 613), the text of every message passed to
    it, and the widget after a transcript; it joins the worker and the renderer.
  \<^item> \<open>Rendezvous\<close>: \<^verbatim>\<open>ui_yes_no\<close> (lines 615 to 627) as a transition system of the
    worker, the interface and the user who may close the window: the invariant, the
    answer returned, that the worker can return while the window is open, and that
    a window closed during the wait ends the worker without an answer.
  \<^item> This theory: the properties that span the collector, the batcher, the reviewer
    and the pipeline.

  \<^bold>\<open>Assumptions and bounds.\<close>  Strings hold code points below 256, so \<^verbatim>\<open>lower\<close>,
  \<^verbatim>\<open>\s\<close> and \<^verbatim>\<open>\w\<close> are the Latin-1 part of the Unicode rules, and the two tests of
  \<^verbatim>\<open>safe_log\<close> for an emoji are false.  Paths are POSIX paths.  A write is atomic.
  The construction of the model client at line 219 fails exactly when it failed at
  start-up.  The transcript records which message is printed and what it
  interpolates; the words of the messages passed to the interface are given by
  \<open>ui_text\<close>, those of the console and its colours are not modelled; a prompt
  records the fields of its template.  The text of an exception is a parameter.
  The worker of the interface is one step of the window: its log lines are inserted
  in the order they are made, which is the order in which the interface serves the
  calls scheduled with \<^verbatim>\<open>app.after\<close>.  In the rendezvous the closing of the window is
  the end of the process: \<^verbatim>\<open>mainloop\<close> returns (line 701) and the worker, a daemon
  thread (line 697), ends with it; one call of \<^verbatim>\<open>ui_yes_no\<close> is followed.  No
  definition uses fuel: the recursions are structural or come with a termination
  proof by a measure.  The witnesses run the sample environment of theory \<open>World\<close> on
  small inputs; the theorems hold for all inputs.

  \<^bold>\<open>Not modelled.\<close>  The construction of the window (lines 384 to 497: widgets,
  styles, layout, the file dialog) and the colour animation \<^verbatim>\<open>pulse_header\<close> (lines 629
  to 642) are calls of the widget library with no state the program reads back,
  apart from the variables of the form and the tags, which are modelled.  The
  argument parser of \<^verbatim>\<open>main\<close> and the branch that opens the window when there is no
  argument are left to the library.  The workbook library refuses some control
  characters and very long cells; the review is taken to contain none.  The model
  service is the oracle \<open>model_reply\<close>.  The fixed text of the two prompt templates
  and the characters of the logo are not modelled.  Nothing else of \<^verbatim>\<open>src/app.py\<close>
  is left out.
\<close>

section \<open>Properties that span components\<close>

text \<open>
  C17: A project whose listing has no file with a supported suffix (only
  \<^verbatim>\<open>readme.md\<close>, say) ends the run before any model call: the pipeline returns no
  review, reports that there are no source files, and changes no file.
\<close>

theorem run_pipeline_no_source_files:
  assumes "exists w path"
    and "list_all (\<lambda>(r, ds, fs). list_all (\<lambda>f. \<not> supported f) fs) (walk e path)"
  shows "fst (run_pipeline e path opts w) = Inr None
       \<and> sent (snd (run_pipeline e path opts w)) = sent w
       \<and> fs (snd (run_pipeline e path opts w)) = fs w
       \<and> last (out (snd (run_pipeline e path opts w)))
           = (if ui_logger opts then Ui else Console, NoSourceFiles)"
  using assms(1) get_code_files_unsupported [OF assms(2)] by (simp add: run_pipeline_stop)

theorem run_pipeline_no_source_files_witness:
  "fst (run_pipeline (sample_env\<lparr>walk := (\<lambda>d. [(d, [], [''readme.md''])])\<rparr>) ''proj''
         sample_opts sample_world) = Inr None
   \<and> sent (snd (run_pipeline (sample_env\<lparr>walk := (\<lambda>d. [(d, [], [''readme.md''])])\<rparr>) ''proj''
         sample_opts sample_world)) = []"
proof -
  let ?e = "sample_env\<lparr>walk := (\<lambda>d. [(d, [], [''readme.md''])])\<rparr>"
  have h: "list_all (\<lambda>(r, ds, fs). list_all (\<lambda>f. \<not> supported f) fs) (walk ?e ''proj'')"
    by code_simp
  show ?thesis using run_pipeline_no_source_files [OF sample_exists h, of sample_opts]
    by (simp add: sample_world_def)
qed

text \<open>
  C10: With a model and an existing project, the review prompts of a run are, in
  order, one per group of the greedy packing of the sorted source files under the
  budget, each with the user's requirement and the text of its group: the sections
  of the group's files joined by newlines.
\<close>

theorem run_pipeline_review_prompts:
  assumes "model_loaded e" and "exists w path"
  shows "filter is_review (sent (snd (run_pipeline e path opts w)))
           = filter is_review (sent w)
             @ map (\<lambda>g. ReviewPrompt (or_else (userprompt opts) ''N/A'')
                          (py_join [NL] (map (section_of (contents_of e w (get_code_files e path))) g)))
                 (pack (max_chars opts) (section_size (contents_of e w (get_code_files e path))) []
                    (get_code_files e path))"
  using assms
  by (simp add: run_pipeline_sent run_batches_def run_groups_def review_prompt_def batch_text_def
      comp_def)

theorem run_pipeline_review_prompts_witness:
  "filter is_review (sent (snd (run_pipeline sample_env ''proj'' sample_opts sample_world)))
     = [ReviewPrompt ''N/A'' (build_file_section ''proj/a.py'' ''x = 1\<newline>'')]"
proof -
  have h: "model_loaded sample_env" by simp
  have c: "contents_of sample_env sample_world [''proj/a.py''] ''proj/a.py'' = Some ''x = 1\<newline>''"
    by code_simp
  show ?thesis
    using run_pipeline_review_prompts [OF h sample_exists, of sample_opts]
    by (simp add: sample_files sample_opts_def section_of_def c)
qed

end
